(* ===== verification/Zelvex_Prelude.thy ===== *)
theory Zelvex_Prelude
  imports Complex_Main "HOL-Library.Word" "HOL-Library.Monad_Syntax"
begin

text \<open>
  Shared vocabulary of the development: the machine integers of the Rust code, the ways a Rust
  function can leave its body (a panic, an \<open>Err\<close>, a value), sequencing of operations on an
  explicit state, and the decimal and hexadecimal text of numbers with their parsers.
\<close>

section \<open>Machine types\<close>

text \<open>
  Unsigned integers are words of their width. \<open>U256\<close>, \<open>Address\<close> and \<open>B256\<close> of
  \<^verbatim>\<open>alloy-primitives\<close> are the 256-bit ring, 160-bit and 256-bit values. Signed \<open>i64\<close> values
  are kept as \<open>int\<close>, with the casts to and from \<open>u64\<close> written out. \<open>usize\<close> lengths are \<open>nat\<close>.
\<close>

type_synonym u8 = "8 word"
type_synonym u32 = "32 word"
type_synonym u64 = "64 word"
type_synonym u128 = "128 word"
type_synonym u256 = "256 word"
type_synonym address = "160 word"
type_synonym b256 = "256 word"
type_synonym bytes = "8 word list"
type_synonym i64 = int

definition i64_max :: int where "i64_max = 2 ^ 63 - 1"
definition i64_min :: int where "i64_min = - (2 ^ 63)"

text \<open>\<open>x as i64\<close> for \<open>x : u64\<close>, and \<open>x as u64\<close> for \<open>x : i64\<close>: the same 64 bits.\<close>

definition u64_as_i64 :: "u64 \<Rightarrow> i64" where "u64_as_i64 w = sint w"
definition i64_as_u64 :: "i64 \<Rightarrow> u64" where "i64_as_u64 i = word_of_int i"

lemma i64_as_u64_as_i64 [simp]: "i64_as_u64 (u64_as_i64 w) = w"
  by (simp add: i64_as_u64_def u64_as_i64_def)

section \<open>Outcomes\<close>

text \<open>
  \<open>outcome\<close> is what a call of a Rust function does: unwind with a panic, or return. An \<open>Err\<close> is a
  returned value: \<open>Inl e\<close> of the sum type.
\<close>

datatype 'a outcome = Panicked | Ret 'a

fun bindO :: "'a outcome \<Rightarrow> ('a \<Rightarrow> 'b outcome) \<Rightarrow> 'b outcome" where
  "bindO Panicked f = Panicked"
| "bindO (Ret x) f = f x"

lemma bindO_Ret_iff: "bindO m f = Ret y \<longleftrightarrow> (\<exists>x. m = Ret x \<and> f x = Ret y)"
  by (cases m) auto

lemma bindO_assoc: "bindO (bindO m f) g = bindO m (\<lambda>x. bindO (f x) g)"
  by (cases m) auto

text \<open>The \<open>?\<close> operator on an \<open>Option\<close> inside a function that may also panic.\<close>

fun try_opt :: "'a option outcome \<Rightarrow> ('a \<Rightarrow> 'b option outcome) \<Rightarrow> 'b option outcome" where
  "try_opt Panicked f = Panicked"
| "try_opt (Ret None) f = Ret None"
| "try_opt (Ret (Some x)) f = f x"

lemma try_opt_Some_iff:
  "try_opt m f = Ret (Some y) \<longleftrightarrow> (\<exists>x. m = Ret (Some x) \<and> f x = Ret (Some y))"
  by (cases m; cases "case m of Panicked \<Rightarrow> None | Ret z \<Rightarrow> z") (auto split: outcome.splits)

text \<open>
  \<open>('s, 'e, 'a) io\<close> is an async operation on a state \<open>'s\<close> that ends with \<open>Err e\<close> or \<open>Ok a\<close>.
  \<open>bindE\<close> is sequencing with the \<open>?\<close> operator; \<open>mapErr\<close> is \<open>map_err\<close>.
\<close>

type_synonym ('s, 'e, 'a) io = "'s \<Rightarrow> ('e + 'a) \<times> 's"

definition okE :: "'a \<Rightarrow> ('s, 'e, 'a) io" where
  "okE a s = (Inr a, s)"

definition errE :: "'e \<Rightarrow> ('s, 'e, 'a) io" where
  "errE e s = (Inl e, s)"

definition bindE :: "('s, 'e, 'a) io \<Rightarrow> ('a \<Rightarrow> ('s, 'e, 'b) io) \<Rightarrow> ('s, 'e, 'b) io" where
  "bindE m f s = (case m s of (Inl e, s') \<Rightarrow> (Inl e, s') | (Inr a, s') \<Rightarrow> f a s')"

definition mapErr :: "('e \<Rightarrow> 'f) \<Rightarrow> ('s, 'e, 'a) io \<Rightarrow> ('s, 'f, 'a) io" where
  "mapErr g m s = (case m s of (Inl e, s') \<Rightarrow> (Inl (g e), s') | (Inr a, s') \<Rightarrow> (Inr a, s'))"

lemma okE_eq [simp]: "okE a s = (Inr b, t) \<longleftrightarrow> a = b \<and> s = t" "okE a s \<noteq> (Inl e, t)"
  by (auto simp: okE_def)

lemma errE_eq [simp]: "errE e s = (Inl f, t) \<longleftrightarrow> e = f \<and> s = t" "errE e s \<noteq> (Inr b, t)"
  by (auto simp: errE_def)

lemma bindE_okE [simp]: "bindE (okE a) f = f a"
  by (simp add: fun_eq_iff bindE_def okE_def)

lemma bindE_Inr_iff:
  "bindE m f s = (Inr b, t) \<longleftrightarrow> (\<exists>a s'. m s = (Inr a, s') \<and> f a s' = (Inr b, t))"
  by (auto simp: bindE_def split: prod.splits sum.splits)

lemma bindE_Inl_iff:
  "bindE m f s = (Inl e, t) \<longleftrightarrow>
     m s = (Inl e, t) \<or> (\<exists>a s'. m s = (Inr a, s') \<and> f a s' = (Inl e, t))"
  by (auto simp: bindE_def split: prod.splits sum.splits)

lemma mapErr_Inr_iff [simp]: "mapErr g m s = (Inr b, t) \<longleftrightarrow> m s = (Inr b, t)"
  by (auto simp: mapErr_def split: prod.splits sum.splits)

lemma mapErr_Inl_iff: "mapErr g m s = (Inl f, t) \<longleftrightarrow> (\<exists>e. f = g e \<and> m s = (Inl e, t))"
  by (auto simp: mapErr_def split: prod.splits sum.splits)

section \<open>Lists\<close>

definition lastn :: "nat \<Rightarrow> 'a list \<Rightarrow> 'a list" where
  "lastn n xs = drop (length xs - n) xs"

lemma length_lastn [simp]: "length (lastn n xs) = min n (length xs)"
  by (simp add: lastn_def)

lemma lastn_Nil [simp]: "lastn n [] = []"
  by (simp add: lastn_def)

lemma lastn_all [simp]: "length xs \<le> n \<Longrightarrow> lastn n xs = xs"
  by (simp add: lastn_def)

lemma set_lastn_subset: "set (lastn n xs) \<subseteq> set xs"
  by (simp add: lastn_def set_drop_subset)

text \<open>Appending to a full window drops its oldest element.\<close>

lemma lastn_snoc:
  assumes "0 < n"
  shows "lastn n (xs @ [x]) = (if length (lastn n xs) = n then tl (lastn n xs) else lastn n xs) @ [x]"
proof (cases "n \<le> length xs")
  case True
  then have "length (xs @ [x]) - n = Suc (length xs - n)" by simp
  moreover have "Suc (length xs - n) \<le> length xs" using True assms by simp
  ultimately show ?thesis using True by (simp add: lastn_def drop_Suc tl_drop)
next
  case False
  then show ?thesis by (simp add: lastn_def)
qed

lemma take_rev_lastn: "take n (rev xs) = rev (lastn n xs)"
  by (cases "n \<le> length xs") (simp_all add: lastn_def rev_drop)

lemma lastn_lastn: "m \<le> n \<Longrightarrow> lastn m (lastn n xs) = lastn m xs"
  by (cases "n \<le> length xs") (simp_all add: lastn_def)

lemma find_SomeD: "find P xs = Some x \<Longrightarrow> x \<in> set xs \<and> P x"
  by (auto simp: find_Some_iff)

section \<open>Decimal and hexadecimal text\<close>

definition digit_char :: "nat \<Rightarrow> char" where
  "digit_char d = (if d < 10 then char_of (48 + d) else char_of (87 + d))"

definition is_digit :: "char \<Rightarrow> bool" where
  "is_digit c \<longleftrightarrow> 48 \<le> (of_char c :: nat) \<and> (of_char c :: nat) \<le> 57"

definition digit_val :: "char \<Rightarrow> nat" where
  "digit_val c = of_char c - 48"

fun dec_string :: "nat \<Rightarrow> string" where
  "dec_string n = (if n < 10 then [digit_char n] else dec_string (n div 10) @ [digit_char (n mod 10)])"

declare dec_string.simps [simp del]

definition dec_value :: "string \<Rightarrow> nat" where
  "dec_value s = foldl (\<lambda>a c. 10 * a + digit_val c) 0 s"

definition parse_dec :: "string \<Rightarrow> nat option" where
  "parse_dec s = (if s \<noteq> [] \<and> list_all is_digit s then Some (dec_value s) else None)"

lemma digit_char_dec [simp]:
  assumes "d < 10"
  shows "is_digit (digit_char d)" "digit_val (digit_char d) = d"
proof -
  have "(of_char (digit_char d) :: nat) = 48 + d"
    using assms by (simp add: digit_char_def)
  then show "is_digit (digit_char d)" "digit_val (digit_char d) = d"
    using assms by (simp_all add: is_digit_def digit_val_def)
qed

lemma dec_string_nonempty [simp]: "dec_string n \<noteq> []"
  by (subst dec_string.simps) simp

lemma dec_string_digits: "list_all is_digit (dec_string n)"
proof (induction n rule: dec_string.induct)
  case (1 n)
  then show ?case by (cases "n < 10") (simp_all add: dec_string.simps [of n])
qed

lemma dec_value_snoc: "dec_value (s @ [c]) = 10 * dec_value s + digit_val c"
  by (simp add: dec_value_def)

lemma dec_value_dec_string [simp]: "dec_value (dec_string n) = n"
proof (induction n rule: dec_string.induct)
  case (1 n)
  show ?case
  proof (cases "n < 10")
    case True
    then show ?thesis by (simp add: dec_string.simps [of n] dec_value_def)
  next
    case False
    with 1 show ?thesis by (simp add: dec_string.simps [of n] dec_value_snoc)
  qed
qed

lemma parse_dec_dec_string [simp]: "parse_dec (dec_string n) = Some n"
  by (simp add: parse_dec_def dec_string_digits)

lemma dec_string_inj: "dec_string a = dec_string b \<longleftrightarrow> a = b"
  by (metis dec_value_dec_string)

text \<open>
  \<open>str::parse::<u64>\<close> and \<open>::<i64>\<close>: one optional sign (\<open>-\<close> only for the signed type), at least one
  digit, digits only, and a value in range.
\<close>

definition strip_plus :: "string \<Rightarrow> string" where
  "strip_plus s = (case s of [] \<Rightarrow> [] | c # cs \<Rightarrow> if c = CHR ''+'' then cs else s)"

definition parse_u64 :: "string \<Rightarrow> u64 option" where
  "parse_u64 s = (case parse_dec (strip_plus s) of
     None \<Rightarrow> None
   | Some n \<Rightarrow> if n < 2 ^ 64 then Some (of_nat n) else None)"

definition parse_i64 :: "string \<Rightarrow> i64 option" where
  "parse_i64 s =
     (if s \<noteq> [] \<and> hd s = CHR ''-''
      then (case parse_dec (tl s) of None \<Rightarrow> None
            | Some n \<Rightarrow> if int n \<le> 2 ^ 63 then Some (- int n) else None)
      else (case parse_dec (strip_plus s) of None \<Rightarrow> None
            | Some n \<Rightarrow> if int n \<le> i64_max then Some (int n) else None))"

lemma dec_string_hd: "is_digit (hd (dec_string n))"
  using dec_string_digits [of n] dec_string_nonempty [of n]
  by (cases "dec_string n") (auto simp del: dec_string_nonempty)

lemma dec_string_not_sign: "hd (dec_string n) \<noteq> CHR ''-''" "hd (dec_string n) \<noteq> CHR ''+''"
  using dec_string_hd [of n] by (auto simp: is_digit_def)

lemma strip_plus_dec_string [simp]: "strip_plus (dec_string n) = dec_string n"
  using dec_string_not_sign [of n] by (auto simp: strip_plus_def split: list.splits)

lemma parse_u64_dec_string: "parse_u64 (dec_string n) = (if n < 2 ^ 64 then Some (of_nat n) else None)"
  by (simp add: parse_u64_def)

lemma parse_u64_roundtrip [simp]: "parse_u64 (dec_string (unat w)) = Some w"
  using unsigned_less [of w, where 'a = nat] by (simp add: parse_u64_dec_string)

lemma parse_i64_dec_string:
  "parse_i64 (dec_string n) = (if int n \<le> i64_max then Some (int n) else None)"
  using dec_string_not_sign [of n] by (simp add: parse_i64_def)

text \<open>\<open>format!("{:x}", n)\<close>: lower-case hexadecimal without leading zeros.\<close>

fun hex_string :: "nat \<Rightarrow> string" where
  "hex_string n = (if n < 16 then [digit_char n] else hex_string (n div 16) @ [digit_char (n mod 16)])"

declare hex_string.simps [simp del]

section \<open>Arithmetic with overflow checks\<close>

text \<open>
  \<open>a + b\<close> and \<open>a * b\<close> on a machine integer: with overflow checks (the development profile) an
  overflow panics, without them (the release profile) it wraps. The profile is the argument \<open>chk\<close>.
\<close>

definition add_word :: "bool \<Rightarrow> 'a::len word \<Rightarrow> 'a word \<Rightarrow> 'a word outcome" where
  "add_word chk a b = (if chk \<and> uint a + uint b \<ge> 2 ^ LENGTH('a) then Panicked else Ret (a + b))"

definition mul_word :: "bool \<Rightarrow> 'a::len word \<Rightarrow> 'a word \<Rightarrow> 'a word outcome" where
  "mul_word chk a b = (if chk \<and> uint a * uint b \<ge> 2 ^ LENGTH('a) then Panicked else Ret (a * b))"

lemma add_word_fits: "uint a + uint b < 2 ^ LENGTH('a) \<Longrightarrow> add_word chk a b = Ret (a + b :: 'a::len word)"
  by (simp add: add_word_def)

lemma add_word_Ret: "add_word chk a b = Ret c \<Longrightarrow> c = (a + b :: 'a::len word)"
  by (simp add: add_word_def split: if_splits)

lemma add_word_checked: "add_word True a b = Ret (c :: 'a::len word) \<Longrightarrow> uint c = uint a + uint b"
  by (auto simp: add_word_def uint_word_ariths take_bit_int_eq_self not_le split: if_splits)

section \<open>Operations that may also panic\<close>

datatype 'e fail = Panic | Err 'e

text \<open>A computation that may panic, inside an operation on a state.\<close>

definition liftO :: "'a outcome \<Rightarrow> ('s, 'e fail, 'a) io" where
  "liftO m s = (case m of Panicked \<Rightarrow> (Inl Panic, s) | Ret a \<Rightarrow> (Inr a, s))"

definition liftR :: "'e + 'a \<Rightarrow> ('s, 'e, 'a) io" where
  "liftR r s = (r, s)"

lemma liftO_Inr_iff [simp]: "liftO m s = (Inr a, t) \<longleftrightarrow> m = Ret a \<and> s = t"
  by (auto simp: liftO_def split: outcome.splits)

lemma liftR_Inr_iff [simp]: "liftR r s = (Inr a, t) \<longleftrightarrow> r = Inr a \<and> s = t"
  by (auto simp: liftR_def)

section \<open>What an operation leaves alone\<close>

text \<open>\<open>keeps f m\<close>: whatever it answers, \<open>m\<close> does not change the part \<open>f\<close> of the state.\<close>

definition keeps :: "('s \<Rightarrow> 'b) \<Rightarrow> ('s, 'e, 'a) io \<Rightarrow> bool" where
  "keeps f m \<longleftrightarrow> (\<forall>s. f (snd (m s)) = f s)"

named_theorems keeps_intros

lemma keepsD: "keeps f m \<Longrightarrow> m s = (r, t) \<Longrightarrow> f t = f s"
  unfolding keeps_def by (metis snd_conv)

lemma keeps_okE [keeps_intros]: "keeps f (okE a)"
  by (simp add: keeps_def okE_def)

lemma keeps_errE [keeps_intros]: "keeps f (errE e)"
  by (simp add: keeps_def errE_def)

lemma keeps_liftO [keeps_intros]: "keeps f (liftO m)"
  by (simp add: keeps_def liftO_def split: outcome.splits)

lemma keeps_liftR [keeps_intros]: "keeps f (liftR r)"
  by (simp add: keeps_def liftR_def)

lemma keeps_bindE [keeps_intros]: "keeps f m \<Longrightarrow> (\<And>a. keeps f (g a)) \<Longrightarrow> keeps f (bindE m g)"
  by (auto simp: keeps_def bindE_def split: prod.splits sum.splits) (metis snd_conv)+

lemma keeps_mapErr [keeps_intros]: "keeps f m \<Longrightarrow> keeps f (mapErr g m)"
  by (auto simp: keeps_def mapErr_def split: prod.splits sum.splits) (metis snd_conv)+

lemma keeps_option [keeps_intros]:
  "keeps f m \<Longrightarrow> (\<And>a. keeps f (g a)) \<Longrightarrow> keeps f (case v of None \<Rightarrow> m | Some a \<Rightarrow> g a)"
  by (cases v) simp_all

lemma keeps_sum [keeps_intros]:
  "(\<And>a. keeps f (g a)) \<Longrightarrow> (\<And>b. keeps f (h b)) \<Longrightarrow> keeps f (case v of Inl a \<Rightarrow> g a | Inr b \<Rightarrow> h b)"
  by (cases v) simp_all

lemma keeps_if [keeps_intros]: "keeps f m \<Longrightarrow> keeps f n \<Longrightarrow> keeps f (if b then m else n)"
  by simp

lemma keeps_Let [keeps_intros]: "(\<And>a. keeps f (g a)) \<Longrightarrow> keeps f (Let v g)"
  by (simp add: Let_def)

text \<open>\<open>preserves P m\<close>: whatever it answers, \<open>m\<close> keeps the property \<open>P\<close> of the state.\<close>

definition preserves :: "('s \<Rightarrow> bool) \<Rightarrow> ('s, 'e, 'a) io \<Rightarrow> bool" where
  "preserves P m \<longleftrightarrow> (\<forall>s. P s \<longrightarrow> P (snd (m s)))"

named_theorems preserves_intros

lemma preservesD: "preserves P m \<Longrightarrow> m s = (r, t) \<Longrightarrow> P s \<Longrightarrow> P t"
  unfolding preserves_def by (metis snd_conv)

lemma preserves_okE [preserves_intros]: "preserves P (okE a)"
  by (simp add: preserves_def okE_def)

lemma preserves_errE [preserves_intros]: "preserves P (errE e)"
  by (simp add: preserves_def errE_def)

lemma preserves_bindE [preserves_intros]:
  "preserves P m \<Longrightarrow> (\<And>a. preserves P (g a)) \<Longrightarrow> preserves P (bindE m g)"
  by (auto simp: preserves_def bindE_def split: prod.splits sum.splits)

lemma preserves_mapErr [preserves_intros]: "preserves P m \<Longrightarrow> preserves P (mapErr g m)"
  by (auto simp: preserves_def mapErr_def split: prod.splits sum.splits)

lemma preserves_option [preserves_intros]:
  "preserves P m \<Longrightarrow> (\<And>a. preserves P (g a)) \<Longrightarrow> preserves P (case v of None \<Rightarrow> m | Some a \<Rightarrow> g a)"
  by (cases v) simp_all

lemma preserves_if [preserves_intros]: "preserves P m \<Longrightarrow> preserves P n \<Longrightarrow> preserves P (if b then m else n)"
  by simp

lemma preserves_Let [preserves_intros]: "(\<And>a. preserves P (g a)) \<Longrightarrow> preserves P (Let v g)"
  by (simp add: Let_def)

lemma preserves_split [preserves_intros]:
  "(\<And>a b. preserves P (g a b)) \<Longrightarrow> preserves P (case p of (a, b) \<Rightarrow> g a b)"
  by (cases p) simp

section \<open>Trimming\<close>

text \<open>
  \<open>str::trim\<close> on the UTF-8 bytes of a string: the encodings of the characters with the Unicode
  property White\_Space, removed from both ends.
\<close>

definition white_space :: "nat list list" where
  "white_space = [[9], [10], [11], [12], [13], [32], [0xC2, 0x85], [0xC2, 0xA0], [0xE1, 0x9A, 0x80]]
     @ map (\<lambda>b. [0xE2, 0x80, b]) [0x80..<0x8B] @ [[0xE2, 0x80, 0xA8], [0xE2, 0x80, 0xA9], [0xE2, 0x80, 0xAF],
     [0xE2, 0x81, 0x9F], [0xE3, 0x80, 0x80]]"

definition starts_white :: "string list \<Rightarrow> string \<Rightarrow> string option" where
  "starts_white ws s = find (\<lambda>w. w \<noteq> [] \<and> take (length w) s = w) ws"

function strip_white :: "string list \<Rightarrow> string \<Rightarrow> string" where
  "strip_white ws s =
     (case starts_white ws s of None \<Rightarrow> s | Some w \<Rightarrow> strip_white ws (drop (length w) s))"
  by pat_completeness auto
termination
proof (relation "measure (\<lambda>(ws, s). length s)")
  fix ws s w assume "starts_white ws s = Some (w :: string)"
  then have "w \<noteq> []" "take (length w) s = w" by (auto simp: starts_white_def find_Some_iff)
  then show "((ws, drop (length w) s), (ws, s)) \<in> measure (\<lambda>(ws, s). length s)"
    by (cases s) auto
qed simp

declare strip_white.simps [simp del]

definition str_trim :: "string \<Rightarrow> string" where
  "str_trim s =
     (let ws = map (map char_of) white_space;
          front = strip_white ws s
      in rev (strip_white (map rev ws) (rev front)))"

section \<open>Results without state\<close>

text \<open>The \<open>?\<close> operator on a \<open>Result\<close> in a pure function, and a loop that stops at the first \<open>Err\<close>.\<close>

fun bindR :: "'e + 'a \<Rightarrow> ('a \<Rightarrow> 'e + 'b) \<Rightarrow> 'e + 'b" where
  "bindR (Inl e) f = Inl e"
| "bindR (Inr a) f = f a"

lemma bindR_Inr_iff: "bindR m f = Inr b \<longleftrightarrow> (\<exists>a. m = Inr a \<and> f a = Inr b)"
  by (cases m) auto

lemma bindR_Inl_iff: "bindR m f = Inl e \<longleftrightarrow> m = Inl e \<or> (\<exists>a. m = Inr a \<and> f a = Inl e)"
  by (cases m) auto

definition mapErrR :: "('e \<Rightarrow> 'f) \<Rightarrow> 'e + 'a \<Rightarrow> 'f + 'a" where
  "mapErrR g m = (case m of Inl e \<Rightarrow> Inl (g e) | Inr a \<Rightarrow> Inr a)"

lemma mapErrR_Inr_iff [simp]: "mapErrR g m = Inr a \<longleftrightarrow> m = Inr a"
  by (simp add: mapErrR_def split: sum.splits)

fun try_all :: "('a \<Rightarrow> 'e + 'b) \<Rightarrow> 'a list \<Rightarrow> 'e + 'b list" where
  "try_all f [] = Inr []"
| "try_all f (x # xs) = bindR (f x) (\<lambda>y. bindR (try_all f xs) (\<lambda>ys. Inr (y # ys)))"

lemma try_all_Inr_iff: "try_all f xs = Inr ys \<longleftrightarrow> list_all2 (\<lambda>x y. f x = Inr y) xs ys"
proof (induction xs arbitrary: ys)
  case Nil
  then show ?case by auto
next
  case (Cons x xs)
  then show ?case by (cases ys) (auto simp: bindR_Inr_iff)
qed

text \<open>\<open>str::split\<close> on one character: always at least one piece.\<close>

fun split_on :: "char \<Rightarrow> string \<Rightarrow> string list" where
  "split_on c [] = [[]]"
| "split_on c (x # xs) =
     (if x = c then [] # split_on c xs
      else case split_on c xs of [] \<Rightarrow> [[x]] | p # ps \<Rightarrow> (x # p) # ps)"

definition join_with :: "char \<Rightarrow> string list \<Rightarrow> string" where
  "join_with c ps = (case ps of [] \<Rightarrow> [] | p # qs \<Rightarrow> p @ concat (map (\<lambda>q. c # q) qs))"

lemma split_on_nonempty [simp]: "split_on c s \<noteq> []"
  by (induction s) (auto split: list.splits)

lemma split_on_clean: "c \<notin> set p \<Longrightarrow> split_on c (p @ c # s) = p # split_on c s"
  by (induction p) auto

lemma split_on_single: "c \<notin> set p \<Longrightarrow> split_on c p = [p]"
  by (induction p) auto

lemma split_join: "ps \<noteq> [] \<Longrightarrow> (\<And>p. p \<in> set ps \<Longrightarrow> c \<notin> set p) \<Longrightarrow> split_on c (join_with c ps) = ps"
proof (induction ps)
  case (Cons p ps)
  show ?case
  proof (cases ps)
    case Nil
    then show ?thesis using Cons.prems by (simp add: join_with_def split_on_single)
  next
    case (Cons q qs)
    have "join_with c (p # ps) = p @ c # join_with c ps" by (simp add: join_with_def Cons)
    then show ?thesis using Cons.IH Cons.prems Cons by (simp add: split_on_clean)
  qed
qed simp

end
