(* ===== verification/F64.thy ===== *)
theory F64
  imports Zelvex_Prelude
begin

text \<open>
  IEEE 754 binary64, the \<open>f64\<close> of Rust, as far as the program computes with it: sign, integral
  significand and exponent, correct rounding to nearest even, the four operations, comparison,
  conversion from integers and parsing of decimal text. The operations are executable; the lemmas
  relate them to the reals through the rounding function \<open>RN\<close> (monotone, exact on the representable
  numbers) and give what the proofs about prices and profits need: results are well formed, exact
  values, and monotonicity of each operation.
\<close>

section \<open>Rounding\<close>

datatype f64 = F64_NaN | F64_Inf bool | F64_Zero bool | F64_Fin bool int int

fun ilog2 :: "int \<Rightarrow> int" where
  "ilog2 n = (if n \<le> 1 then 0 else 1 + ilog2 (n div 2))"

declare ilog2.simps [simp del]

definition scale_num :: "int \<Rightarrow> int \<Rightarrow> int" where
  "scale_num n e = (if 0 \<le> e then n * 2 ^ nat e else n)"

definition ratio_log2 :: "int \<Rightarrow> int \<Rightarrow> int" where
  "ratio_log2 n d =
     (let k = ilog2 n - ilog2 d
      in if scale_num d k \<le> scale_num n (- k) then k else k - 1)"

definition rne_div :: "int \<Rightarrow> int \<Rightarrow> int" where
  "rne_div n d =
     (let q = n div d; r = n mod d
      in if 2 * r < d \<or> (2 * r = d \<and> even q) then q else q + 1)"

definition f64_round :: "bool \<Rightarrow> int \<Rightarrow> int \<Rightarrow> f64" where
  "f64_round s n d =
     (if n = 0 then F64_Zero s
      else
        let e = max (ratio_log2 n d - 52) (- 1074);
            m = rne_div (scale_num n (- e)) (scale_num d e)
        in if m = 0 then F64_Zero s
           else if m = 2 ^ 53
           then (if e + 1 > 971 then F64_Inf s else F64_Fin s (2 ^ 52) (e + 1))
           else (if e > 971 then F64_Inf s else F64_Fin s m e))"

definition rne :: "real \<Rightarrow> int" where
  "rne x = (let q = \<lfloor>x\<rfloor>; r = x - of_int q in
     if r < 1/2 \<or> (r = 1/2 \<and> even q) then q else q + 1)"

lemma rne_mono: "x \<le> y \<Longrightarrow> rne x \<le> rne y"
proof -
  assume le: "x \<le> y"
  have fl: "\<lfloor>x\<rfloor> \<le> \<lfloor>y\<rfloor>" using le by (rule floor_mono)
  show ?thesis
  proof (cases "\<lfloor>x\<rfloor> = \<lfloor>y\<rfloor>")
    case True
    then show ?thesis using le by (auto simp: rne_def Let_def)
  next
    case False
    then have "\<lfloor>x\<rfloor> + 1 \<le> \<lfloor>y\<rfloor>" using fl by simp
    then show ?thesis by (auto simp: rne_def Let_def)
  qed
qed

lemma rne_of_int [simp]: "rne (of_int i) = i"
  by (simp add: rne_def)

lemma rne_error: "\<bar>of_int (rne x) - x\<bar> \<le> 1/2"
  unfolding rne_def Let_def by (auto split: if_splits)

lemma rne_div_rne: "0 < d \<Longrightarrow> rne_div n d = rne (of_int n / of_int d)"
proof -
  assume d: "0 < d"
  have q: "\<lfloor>real_of_int n / of_int d\<rfloor> = n div d" by (rule floor_divide_of_int_eq)
  have eq: "real_of_int n = of_int (n div d) * of_int d + of_int (n mod d)"
    by (metis div_mult_mod_eq of_int_add of_int_mult)
  have r: "real_of_int n / of_int d - of_int (n div d) = of_int (n mod d) / of_int d"
    using d by (subst eq) (simp add: field_simps)
  have a: "(real_of_int (n mod d) / of_int d < 1/2) = (2 * (n mod d) < d)"
  proof -
    have "(real_of_int (n mod d) / of_int d < 1/2) = (2 * real_of_int (n mod d) < of_int d)"
      using d by (simp add: field_simps)
    also have "\<dots> = (2 * (n mod d) < d)" by linarith
    finally show ?thesis .
  qed
  have b: "(real_of_int (n mod d) / of_int d = 1/2) = (2 * (n mod d) = d)"
  proof -
    have "(real_of_int (n mod d) / of_int d = 1/2) = (2 * real_of_int (n mod d) = of_int d)"
      using d by (auto simp: field_simps)
    also have "\<dots> = (2 * (n mod d) = d)" by linarith
    finally show ?thesis .
  qed
  show ?thesis unfolding rne_div_def rne_def Let_def q r a b ..
qed


lemma div2_less: "(n::int) div 2 < p \<Longrightarrow> n < 2 * p"
  by linarith

lemma ilog2_bounds: "0 < n \<Longrightarrow> 0 \<le> ilog2 n \<and> 2 ^ nat (ilog2 n) \<le> n \<and> n < 2 ^ (nat (ilog2 n) + 1)"
proof (induction n rule: ilog2.induct)
  case (1 n)
  show ?case
  proof (cases "n \<le> 1")
    case True
    with "1.prems" show ?thesis by (simp add: ilog2.simps [of n])
  next
    case False
    then have pos: "0 < n div 2" by simp
    note IH = "1.IH" [OF False pos]
    have l: "ilog2 n = 1 + ilog2 (n div 2)" using False by (simp add: ilog2.simps [of n])
    have nt: "nat (ilog2 n) = Suc (nat (ilog2 (n div 2)))" using IH l by (simp add: nat_add_distrib)
    have "0 \<le> ilog2 n" using IH l by simp
    moreover have "2 * 2 ^ nat (ilog2 (n div 2)) \<le> n" using IH by linarith
    moreover have "n < 2 * (2 * 2 ^ nat (ilog2 (n div 2)))"
      by (rule div2_less) (use IH in simp)
    ultimately show ?thesis by (simp add: nt)
  qed
qed

definition in_binade :: "int \<Rightarrow> real \<Rightarrow> bool" where
  "in_binade k x \<longleftrightarrow> 2 powi k \<le> x \<and> x < 2 powi (k + 1)"

lemma in_binade_pos: "in_binade k x \<Longrightarrow> 0 < x"
  unfolding in_binade_def by (metis less_le_trans zero_less_power_int zero_less_numeral)

lemma in_binade_less_imp: "in_binade k x \<Longrightarrow> in_binade l y \<Longrightarrow> x \<le> y \<Longrightarrow> k \<le> l"
proof (rule ccontr)
  assume a: "in_binade k x" "in_binade l y" "x \<le> y" "\<not> k \<le> l"
  then have "(2::real) powi (l + 1) \<le> 2 powi k" by (intro power_int_increasing) auto
  with a show False unfolding in_binade_def by linarith
qed

lemma in_binade_unique: "in_binade k x \<Longrightarrow> in_binade l x \<Longrightarrow> k = l"
  by (rule antisym) (erule (1) in_binade_less_imp, simp)+

lemma powi_nat: "0 \<le> k \<Longrightarrow> (2::real) powi k = 2 ^ nat k"
  by (simp add: power_int_def)

lemma powi2_not_neg [simp]: "\<not> (2::real) powi k < 0"
  by (simp add: not_less)

lemma scale_num_ratio:
  "real_of_int (scale_num n (- e)) / of_int (scale_num d e) = (of_int n / of_int d) / 2 powi e"
  by (auto simp: scale_num_def power_int_def field_simps)

lemma scale_num_pos: "0 < n \<Longrightarrow> 0 < scale_num n e"
  by (simp add: scale_num_def)

lemma ilog2_powi:
  assumes "0 < n"
  shows "2 powi ilog2 n \<le> real_of_int n" "real_of_int n < 2 powi (ilog2 n + 1)"
proof -
  note A = ilog2_bounds [OF assms]
  have "real_of_int (2 ^ nat (ilog2 n)) \<le> of_int n" using A by (subst of_int_le_iff) simp
  then show "2 powi ilog2 n \<le> real_of_int n" using A by (simp add: powi_nat)
  have "real_of_int n < of_int (2 ^ (nat (ilog2 n) + 1))" using A by (subst of_int_less_iff) simp
  then show "real_of_int n < 2 powi (ilog2 n + 1)" using A by (simp add: powi_nat nat_add_distrib)
qed

lemma ratio_log2_binade:
  assumes n: "0 < n" and d: "0 < d"
  shows "in_binade (ratio_log2 n d) (of_int n / of_int d)"
proof -
  let ?a = "ilog2 n" and ?b = "ilog2 d"
  let ?x = "real_of_int n / of_int d"
  define k where "k = ?a - ?b"
  note An = ilog2_powi [OF n] and Bn = ilog2_powi [OF d]
  have up: "?x < 2 powi (k + 1)"
  proof -
    have "?x < 2 powi (?a + 1) / 2 powi ?b"
      using An Bn d n by (intro frac_less) auto
    also have "\<dots> = 2 powi (k + 1)" by (simp add: k_def power_int_diff power_int_add)
    finally show ?thesis .
  qed
  have lo: "2 powi (k - 1) \<le> ?x"
  proof -
    have "2 powi (k - 1) = 2 powi ?a / (2::real) powi (?b + 1)"
      by (simp add: k_def power_int_diff power_int_add)
    also have "\<dots> \<le> ?x" using An Bn d n by (intro frac_le) auto
    finally show ?thesis .
  qed
  have test: "scale_num d k \<le> scale_num n (- k) \<longleftrightarrow> 2 powi k \<le> ?x"
  proof -
    have "2 powi k \<le> ?x \<longleftrightarrow> 1 \<le> ?x / 2 powi k" by (subst pos_le_divide_eq) auto
    also have "?x / 2 powi k = real_of_int (scale_num n (- k)) / of_int (scale_num d k)"
      by (rule scale_num_ratio [symmetric])
    also have "1 \<le> \<dots> \<longleftrightarrow> real_of_int (scale_num d k) \<le> of_int (scale_num n (- k))"
      using scale_num_pos [OF d, of k] by (simp add: field_simps)
    finally show ?thesis by simp
  qed
  show ?thesis
  proof (cases "scale_num d k \<le> scale_num n (- k)")
    case True
    then show ?thesis using up test by (simp add: ratio_log2_def in_binade_def flip: k_def)
  next
    case False
    then show ?thesis using lo test by (simp add: ratio_log2_def in_binade_def flip: k_def)
  qed
qed

text \<open>spec\<close>

definition fexp :: "int \<Rightarrow> int" where
  "fexp k = max (k - 52) (- 1074)"

definition grid_round :: "int \<Rightarrow> real \<Rightarrow> real" where
  "grid_round k x = of_int (rne (x / 2 powi fexp k)) * 2 powi fexp k"

definition f64_top :: real where "f64_top = 2 powi 1024"

definition RN_pos :: "real \<Rightarrow> real" where
  "RN_pos x = min (grid_round \<lfloor>log 2 x\<rfloor> x) f64_top"

definition RN :: "real \<Rightarrow> real" where
  "RN x = (if x = 0 then 0 else if 0 < x then RN_pos x else - RN_pos (- x))"

lemma in_binade_log: "0 < x \<Longrightarrow> in_binade \<lfloor>log 2 x\<rfloor> x"
proof -
  assume "0 < x"
  then have "2 powr \<lfloor>log 2 x\<rfloor> \<le> x \<and> x < 2 powr (\<lfloor>log 2 x\<rfloor> + 1)"
    using floor_log_eq_powr_iff [of x 2 "\<lfloor>log 2 x\<rfloor>"] by simp
  then show ?thesis unfolding in_binade_def
    by (metis of_int_1 of_int_add powr_real_of_int' zero_le_numeral zero_neq_numeral)
qed

lemma floor_log_in_binade: "in_binade k x \<Longrightarrow> \<lfloor>log 2 x\<rfloor> = k"
  using in_binade_log in_binade_unique in_binade_pos by blast

lemma grid_multiple: "fexp k \<le> e \<Longrightarrow> grid_round k (of_int m * 2 powi e) = of_int m * 2 powi e"
proof -
  assume le: "fexp k \<le> e"
  have "of_int m * 2 powi e / 2 powi fexp k = real_of_int m * 2 powi (e - fexp k)"
    by (simp add: power_int_diff)
  also have "\<dots> = of_int (m * 2 ^ nat (e - fexp k))" using le by (simp add: powi_nat)
  finally have q: "of_int m * 2 powi e / 2 powi fexp k = real_of_int (m * 2 ^ nat (e - fexp k))" .
  have "grid_round k (of_int m * 2 powi e) = of_int (m * 2 ^ nat (e - fexp k)) * 2 powi fexp k"
    unfolding grid_round_def q by (subst rne_of_int) simp
  also have "\<dots> = of_int m * 2 powi e" unfolding q [symmetric] by simp
  finally show ?thesis .
qed

lemma grid_round_mono_same: "x \<le> y \<Longrightarrow> grid_round k x \<le> grid_round k y"
  unfolding grid_round_def by (intro mult_right_mono) (auto intro!: rne_mono divide_right_mono)

lemma grid_round_mono:
  assumes x: "in_binade k x" and y: "in_binade l y" and le: "x \<le> y"
  shows "grid_round k x \<le> grid_round l y"
proof (cases "k = l")
  case True
  with le show ?thesis by (simp add: grid_round_mono_same)
next
  case False
  with in_binade_less_imp [OF x y le] have kl: "k + 1 \<le> l" by simp
  show ?thesis
  proof (cases "fexp l \<le> l")
    case True
    have fk: "fexp k \<le> l" using True kl by (auto simp: fexp_def)
    have p: "grid_round k (2 powi l) = 2 powi l" using grid_multiple [OF fk, of 1] by simp
    have q: "grid_round l (2 powi l) = 2 powi l" using grid_multiple [OF True, of 1] by simp
    have "x \<le> 2 powi l"
      using x kl power_int_increasing [OF kl, of "2::real"] by (auto simp: in_binade_def)
    then have "grid_round k x \<le> 2 powi l" using grid_round_mono_same p by metis
    also have "\<dots> \<le> grid_round l y"
      using y grid_round_mono_same [of "2 powi l" y l] q by (simp add: in_binade_def)
    finally show ?thesis .
  next
    case False
    then have "fexp k = fexp l" using kl by (auto simp: fexp_def)
    then show ?thesis using grid_round_mono_same [OF le, of k] by (simp add: grid_round_def)
  qed
qed


lemma RN_pos_mono:
  assumes "0 < x" "x \<le> y"
  shows "RN_pos x \<le> RN_pos y"
proof -
  have "grid_round \<lfloor>log 2 x\<rfloor> x \<le> grid_round \<lfloor>log 2 y\<rfloor> y"
    using assms by (intro grid_round_mono in_binade_log) auto
  then show ?thesis by (auto simp: RN_pos_def)
qed

lemma rne_nonneg: "0 \<le> x \<Longrightarrow> 0 \<le> rne x"
  using rne_mono [of 0 x] rne_of_int [of 0] by simp

lemma grid_round_nonneg: "0 \<le> x \<Longrightarrow> 0 \<le> grid_round k x"
  by (simp add: grid_round_def rne_nonneg)

lemma f64_top_pos: "0 < f64_top"
  by (simp add: f64_top_def)

lemma RN_pos_nonneg: "0 \<le> x \<Longrightarrow> 0 \<le> RN_pos x"
  using f64_top_pos by (simp add: RN_pos_def grid_round_nonneg)

theorem RN_mono: "x \<le> y \<Longrightarrow> RN x \<le> RN y"
proof -
  assume le: "x \<le> y"
  consider "0 < x" | "x \<le> 0" "0 \<le> y" | "y < 0" by linarith
  then show ?thesis
  proof cases
    case 1
    then show ?thesis using le RN_pos_mono [OF 1 le] by (simp add: RN_def)
  next
    case 2
    then have "RN x \<le> 0" using RN_pos_nonneg [of "- x"] by (auto simp: RN_def)
    moreover have "0 \<le> RN y" using 2 RN_pos_nonneg [of y] by (auto simp: RN_def)
    ultimately show ?thesis by simp
  next
    case 3
    then show ?thesis using le RN_pos_mono [of "- y" "- x"] by (simp add: RN_def)
  qed
qed

lemma RN_zero [simp]: "RN 0 = 0"
  by (simp add: RN_def)

lemma RN_minus: "RN (- x) = - RN x"
  by (simp add: RN_def)

lemma RN_nonneg: "0 \<le> x \<Longrightarrow> 0 \<le> RN x"
  using RN_mono [of 0 x] by simp

lemma RN_bounds: "- f64_top \<le> RN x \<and> RN x \<le> f64_top"
  using f64_top_pos RN_pos_nonneg [of x] RN_pos_nonneg [of "- x"]
  by (auto simp: RN_def RN_pos_def)

lemma RN_pos_exact:
  assumes i: "0 < i" "i \<le> 2 ^ 53" "of_int i * 2 powi e \<le> f64_top" and e: "- 1074 \<le> e"
  shows "RN_pos (of_int i * 2 powi e) = of_int i * 2 powi e"
proof -
  let ?x = "real_of_int i * 2 powi e"
  define k where "k = \<lfloor>log 2 ?x\<rfloor>"
  have xp: "0 < ?x" using i by simp
  have bin: "in_binade k ?x" unfolding k_def using xp by (rule in_binade_log)
  have "grid_round k ?x = ?x"
  proof (cases "i = 2 ^ 53")
    case True
    have x: "?x = of_int 1 * 2 powi (e + 53)" by (simp add: True power_int_add)
    have "in_binade (e + 53) ?x" unfolding x in_binade_def by (simp add: power_int_add)
    then have k: "k = e + 53" using bin in_binade_unique by blast
    have "fexp k \<le> e + 53" using e by (simp add: k fexp_def)
    then show ?thesis unfolding x by (rule grid_multiple)
  next
    case False
    then have i53: "i < 2 ^ 53" using i by simp
    have "real_of_int i < of_int (2 ^ 53)" using i53 by (subst of_int_less_iff)
    then have "?x < 2 powi (e + 53)" by (simp add: power_int_add)
    then have "(2::real) powi k < 2 powi (e + 53)" using bin by (auto simp: in_binade_def)
    then have "k < e + 53"
      using power_int_increasing [of "e + 53" k "2::real"] by (meson linorder_not_le one_le_numeral)
    then have "fexp k \<le> e" using e by (auto simp: fexp_def)
    then show ?thesis by (rule grid_multiple)
  qed
  then show ?thesis using i by (simp add: RN_pos_def k_def)
qed

lemma RN_exact:
  assumes m: "\<bar>m\<bar> \<le> 2 ^ 53" and e: "- 1074 \<le> e" and top: "\<bar>of_int m * 2 powi e\<bar> \<le> f64_top"
  shows "RN (of_int m * 2 powi e) = of_int m * 2 powi e"
proof -
  consider "m = 0" | "0 < m" | "m < 0" by linarith
  then show ?thesis
  proof cases
    case 1 then show ?thesis by simp
  next
    case 2
    then show ?thesis using m e top RN_pos_exact [of m e] by (simp add: RN_def)
  next
    case 3
    then have "of_int m * (2::real) powi e < 0" by (simp add: mult_neg_pos)
    then show ?thesis using 3 m e top RN_pos_exact [of "- m" e] by (simp add: RN_def)
  qed
qed


section \<open>Values and well-formedness\<close>

definition signed :: "bool \<Rightarrow> int \<Rightarrow> int" where
  "signed s m = (if s then - m else m)"

fun f64_wf :: "f64 \<Rightarrow> bool" where
  "f64_wf (F64_Fin s m e) \<longleftrightarrow>
     (2 ^ 52 \<le> m \<and> m < 2 ^ 53 \<and> - 1074 \<le> e \<and> e \<le> 971) \<or> (0 < m \<and> m < 2 ^ 52 \<and> e = - 1074)"
| "f64_wf _ \<longleftrightarrow> True"

fun f64_val :: "f64 \<Rightarrow> real" where
  "f64_val (F64_Fin s m e) = of_int (signed s m) * 2 powi e"
| "f64_val (F64_Zero s) = 0"
| "f64_val (F64_Inf s) = (if s then - f64_top else f64_top)"
| "f64_val F64_NaN = 0"

lemma f64_top_split: "f64_top = 2 ^ 52 * 2 powi 972" "f64_top = 2 ^ 53 * 2 powi 971"
proof -
  have "(2::real) powi (52 + 972) = 2 powi 52 * 2 powi 972" by (rule power_int_add) simp
  then show "f64_top = 2 ^ 52 * 2 powi 972" by (simp add: f64_top_def powi_nat)
  have "(2::real) powi (53 + 971) = 2 powi 53 * 2 powi 971" by (rule power_int_add) simp
  then show "f64_top = 2 ^ 53 * 2 powi 971" by (simp add: f64_top_def powi_nat)
qed

lemma f64_fin_below_top:
  assumes "m < 2 ^ 53" "e \<le> 971" "0 \<le> m"
  shows "of_int m * 2 powi e < f64_top"
proof -
  have "real_of_int m < of_int (2 ^ 53)" using assms(1) by (subst of_int_less_iff)
  moreover have "(2::real) powi e \<le> 2 powi 971" using assms(2) by (intro power_int_increasing) auto
  ultimately have "of_int m * 2 powi e < real_of_int (2 ^ 53) * 2 powi 971"
    using assms(3) by (intro mult_less_le_imp_less) auto
  then show ?thesis by (simp add: f64_top_split)
qed

lemma f64_big_above_top:
  assumes "2 ^ 52 \<le> m" "972 \<le> e"
  shows "f64_top \<le> of_int m * 2 powi e"
proof -
  have "real_of_int (2 ^ 52) \<le> of_int m" using assms(1) by (subst of_int_le_iff)
  moreover have "(2::real) powi 972 \<le> 2 powi e" using assms(2) by (intro power_int_increasing) auto
  ultimately have "real_of_int (2 ^ 52) * 2 powi 972 \<le> of_int m * 2 powi e"
    by (intro mult_mono) auto
  then show ?thesis by (simp add: f64_top_split)
qed

lemma rne_lower: "of_int a \<le> x \<Longrightarrow> a \<le> rne x"
  using rne_mono [of "of_int a" x] by simp

lemma rne_upper: "x \<le> of_int b \<Longrightarrow> rne x \<le> b"
  using rne_mono [of x "of_int b"] by simp

lemma abs_signed [simp]: "\<bar>signed s m\<bar> = \<bar>m\<bar>"
  by (simp add: signed_def)

lemma of_int_signed: "of_int (signed s m) = (if s then - of_int m else (of_int m :: real))"
  by (simp add: signed_def)

text \<open>The significand before the exponent is checked: at most 53 bits, and 53 of them unless subnormal.\<close>

lemma significand_bounds:
  assumes "in_binade k x"
  shows "rne (x / 2 powi fexp k) \<le> 2 ^ 53" "0 \<le> rne (x / 2 powi fexp k)"
    "fexp k \<noteq> - 1074 \<Longrightarrow> 2 ^ 52 \<le> rne (x / 2 powi fexp k)"
proof -
  let ?e = "fexp k"
  have "x / 2 powi ?e \<le> 2 powi (k + 1) / 2 powi ?e"
    using assms by (intro divide_right_mono) (auto simp: in_binade_def)
  also have "\<dots> = 2 powi (k + 1 - ?e)" by (simp add: power_int_diff)
  also have "\<dots> \<le> 2 powi 53" by (intro power_int_increasing) (auto simp: fexp_def)
  finally have "x / 2 powi ?e \<le> of_int (2 ^ 53)" by (simp add: powi_nat)
  then show "rne (x / 2 powi ?e) \<le> 2 ^ 53" by (rule rne_upper)
  show "0 \<le> rne (x / 2 powi ?e)" using in_binade_pos [OF assms] by (intro rne_nonneg) simp
  assume "?e \<noteq> - 1074"
  then have ek: "?e = k - 52" by (auto simp: fexp_def)
  have "real_of_int (2 ^ 52) = 2 powi (k - ?e)" by (simp add: ek powi_nat)
  also have "\<dots> = 2 powi k / 2 powi ?e" by (simp add: power_int_diff)
  also have "\<dots> \<le> x / 2 powi ?e" using assms by (intro divide_right_mono) (auto simp: in_binade_def)
  finally show "2 ^ 52 \<le> rne (x / 2 powi ?e)" by (rule rne_lower)
qed

text \<open>The last step of rounding: a significand of 54 bits is renormalised, a large exponent overflows.\<close>

definition f64_pack :: "bool \<Rightarrow> int \<Rightarrow> int \<Rightarrow> f64" where
  "f64_pack s m e =
     (if m = 0 then F64_Zero s
      else if m = 2 ^ 53 then (if e + 1 > 971 then F64_Inf s else F64_Fin s (2 ^ 52) (e + 1))
      else (if e > 971 then F64_Inf s else F64_Fin s m e))"

lemma f64_pack_correct:
  assumes "0 \<le> m" "m \<le> 2 ^ 53" "e \<noteq> - 1074 \<Longrightarrow> 2 ^ 52 \<le> m" "- 1074 \<le> e"
  shows "f64_wf (f64_pack s m e) \<and> f64_pack s m e \<noteq> F64_NaN \<and>
    f64_val (f64_pack s m e) = (if s then - 1 else 1) * min (of_int m * 2 powi e) f64_top"
proof -
  consider (z) "m = 0" | (c) "m = 2 ^ 53" | (o) "m \<noteq> 0" "m \<noteq> 2 ^ 53" by blast
  then show ?thesis
  proof cases
    case z
    then show ?thesis using f64_top_pos by (simp add: f64_pack_def)
  next
    case c
    have v: "of_int m * (2::real) powi e = of_int (2 ^ 52) * 2 powi (e + 1)" by (simp add: c power_int_add)
    show ?thesis
    proof (cases "e + 1 > 971")
      case True
      then have "f64_top \<le> of_int m * 2 powi e" unfolding v by (intro f64_big_above_top) auto
      then show ?thesis using True c by (simp add: f64_pack_def)
    next
      case False
      then have "of_int m * 2 powi e < f64_top" unfolding v by (intro f64_fin_below_top) auto
      then have "min (of_int m * 2 powi e) f64_top = of_int (2 ^ 52) * 2 powi (e + 1)" using v by simp
      then show ?thesis using False c assms(4) by (simp add: f64_pack_def signed_def)
    qed
  next
    case o
    show ?thesis
    proof (cases "e > 971")
      case True
      then have "f64_top \<le> of_int m * 2 powi e" using assms(3) by (intro f64_big_above_top) auto
      then show ?thesis using True o by (simp add: f64_pack_def)
    next
      case False
      then have "of_int m * 2 powi e < f64_top" using assms o by (intro f64_fin_below_top) auto
      then show ?thesis using False o assms by (auto simp: f64_pack_def signed_def)
    qed
  qed
qed

lemma f64_round_correct:
  assumes n: "0 \<le> n" and d: "0 < d"
  shows "f64_wf (f64_round s n d) \<and>
         f64_val (f64_round s n d) = (if s then - 1 else 1) * RN (of_int n / of_int d) \<and>
         f64_round s n d \<noteq> F64_NaN"
proof (cases "n = 0")
  case True
  then show ?thesis by (simp add: f64_round_def)
next
  case False
  with n have n0: "0 < n" by simp
  let ?x = "real_of_int n / of_int d"
  define k where "k = ratio_log2 n d"
  define e where "e = fexp k"
  define m where "m = rne_div (scale_num n (- e)) (scale_num d e)"
  have xp: "0 < ?x" using n0 d by simp
  have bin: "in_binade k ?x" unfolding k_def using n0 d by (rule ratio_log2_binade)
  have m: "m = rne (?x / 2 powi e)"
    unfolding m_def by (simp add: rne_div_rne scale_num_pos d scale_num_ratio)
  have gr: "grid_round k ?x = of_int m * 2 powi e" by (simp add: grid_round_def m e_def)
  have rn: "RN ?x = min (of_int m * 2 powi e) f64_top"
    using n0 d by (simp add: RN_def RN_pos_def floor_log_in_binade [OF bin] gr)
  have e_lo: "- 1074 \<le> e" by (simp add: e_def fexp_def)
  have m_bounds: "0 \<le> m" "m \<le> 2 ^ 53" "e \<noteq> - 1074 \<Longrightarrow> 2 ^ 52 \<le> m"
    using significand_bounds [OF bin] by (simp_all add: m e_def)
  have "f64_round s n d = f64_pack s m e"
    using False unfolding f64_round_def f64_pack_def Let_def m_def e_def k_def fexp_def by (simp only: if_False)
  then show ?thesis using f64_pack_correct [OF m_bounds e_lo, of s] rn by simp
qed


subsection \<open>Operations\<close>

definition f64_dyadic :: "bool \<Rightarrow> int \<Rightarrow> int \<Rightarrow> f64" where
  "f64_dyadic s m e = f64_round s (scale_num m e) (scale_num 1 (- e))"

definition f64_of_int :: "int \<Rightarrow> f64" where
  "f64_of_int i = f64_round (i < 0) \<bar>i\<bar> 1"

fun f64_neg :: "f64 \<Rightarrow> f64" where
  "f64_neg F64_NaN = F64_NaN"
| "f64_neg (F64_Inf s) = F64_Inf (\<not> s)"
| "f64_neg (F64_Zero s) = F64_Zero (\<not> s)"
| "f64_neg (F64_Fin s m e) = F64_Fin (\<not> s) m e"

fun f64_add :: "f64 \<Rightarrow> f64 \<Rightarrow> f64" where
  "f64_add F64_NaN _ = F64_NaN"
| "f64_add _ F64_NaN = F64_NaN"
| "f64_add (F64_Inf s) (F64_Inf t) = (if s = t then F64_Inf s else F64_NaN)"
| "f64_add (F64_Inf s) _ = F64_Inf s"
| "f64_add _ (F64_Inf t) = F64_Inf t"
| "f64_add (F64_Zero s) (F64_Zero t) = F64_Zero (s \<and> t)"
| "f64_add (F64_Zero s) y = y"
| "f64_add x (F64_Zero t) = x"
| "f64_add (F64_Fin s m e) (F64_Fin t n f) =
     (let g = min e f;
          v = scale_num (signed s m) (e - g) + scale_num (signed t n) (f - g)
      in if v = 0 then F64_Zero False else f64_dyadic (v < 0) \<bar>v\<bar> g)"

definition f64_sub :: "f64 \<Rightarrow> f64 \<Rightarrow> f64" where
  "f64_sub x y = f64_add x (f64_neg y)"

fun f64_mul :: "f64 \<Rightarrow> f64 \<Rightarrow> f64" where
  "f64_mul F64_NaN _ = F64_NaN"
| "f64_mul _ F64_NaN = F64_NaN"
| "f64_mul (F64_Inf s) (F64_Inf t) = F64_Inf (s \<noteq> t)"
| "f64_mul (F64_Inf s) (F64_Zero t) = F64_NaN"
| "f64_mul (F64_Zero s) (F64_Inf t) = F64_NaN"
| "f64_mul (F64_Inf s) (F64_Fin t n f) = F64_Inf (s \<noteq> t)"
| "f64_mul (F64_Fin s m e) (F64_Inf t) = F64_Inf (s \<noteq> t)"
| "f64_mul (F64_Zero s) (F64_Zero t) = F64_Zero (s \<noteq> t)"
| "f64_mul (F64_Zero s) (F64_Fin t n f) = F64_Zero (s \<noteq> t)"
| "f64_mul (F64_Fin s m e) (F64_Zero t) = F64_Zero (s \<noteq> t)"
| "f64_mul (F64_Fin s m e) (F64_Fin t n f) = f64_dyadic (s \<noteq> t) (m * n) (e + f)"

fun f64_div :: "f64 \<Rightarrow> f64 \<Rightarrow> f64" where
  "f64_div F64_NaN _ = F64_NaN"
| "f64_div _ F64_NaN = F64_NaN"
| "f64_div (F64_Inf s) (F64_Inf t) = F64_NaN"
| "f64_div (F64_Inf s) (F64_Zero t) = F64_Inf (s \<noteq> t)"
| "f64_div (F64_Inf s) (F64_Fin t n f) = F64_Inf (s \<noteq> t)"
| "f64_div (F64_Zero s) (F64_Inf t) = F64_Zero (s \<noteq> t)"
| "f64_div (F64_Fin s m e) (F64_Inf t) = F64_Zero (s \<noteq> t)"
| "f64_div (F64_Zero s) (F64_Zero t) = F64_NaN"
| "f64_div (F64_Fin s m e) (F64_Zero t) = F64_Inf (s \<noteq> t)"
| "f64_div (F64_Zero s) (F64_Fin t n f) = F64_Zero (s \<noteq> t)"
| "f64_div (F64_Fin s m e) (F64_Fin t n f) =
     f64_round (s \<noteq> t) (scale_num m (e - f)) (scale_num n (f - e))"

fun f64_lt :: "f64 \<Rightarrow> f64 \<Rightarrow> bool" where
  "f64_lt F64_NaN _ = False"
| "f64_lt _ F64_NaN = False"
| "f64_lt (F64_Inf s) (F64_Inf t) = (s \<and> \<not> t)"
| "f64_lt (F64_Inf s) _ = s"
| "f64_lt _ (F64_Inf t) = (\<not> t)"
| "f64_lt (F64_Zero s) (F64_Zero t) = False"
| "f64_lt (F64_Zero s) (F64_Fin t n f) = (\<not> t)"
| "f64_lt (F64_Fin s m e) (F64_Zero t) = s"
| "f64_lt (F64_Fin s m e) (F64_Fin t n f) =
     (let g = min e f
      in scale_num (signed s m) (e - g) < scale_num (signed t n) (f - g))"

fun f64_is_nan :: "f64 \<Rightarrow> bool" where
  "f64_is_nan F64_NaN = True"
| "f64_is_nan _ = False"

fun f64_is_finite :: "f64 \<Rightarrow> bool" where
  "f64_is_finite F64_NaN = False"
| "f64_is_finite (F64_Inf s) = False"
| "f64_is_finite _ = True"

definition f64_le :: "f64 \<Rightarrow> f64 \<Rightarrow> bool" where
  "f64_le x y \<longleftrightarrow> \<not> f64_is_nan x \<and> \<not> f64_is_nan y \<and> \<not> f64_lt y x"

abbreviation f64_gt :: "f64 \<Rightarrow> f64 \<Rightarrow> bool" where "f64_gt x y \<equiv> f64_lt y x"
abbreviation f64_ge :: "f64 \<Rightarrow> f64 \<Rightarrow> bool" where "f64_ge x y \<equiv> f64_le y x"

lemma scale_num_val: "0 \<le> e \<Longrightarrow> real_of_int (scale_num m e) = of_int m * 2 powi e"
  by (simp add: scale_num_def powi_nat)

lemma scale_dyadic_val:
  "real_of_int (scale_num m e) / of_int (scale_num 1 (- e)) = of_int m * 2 powi e"
  using scale_num_ratio [of m "- e" 1] by (simp add: power_int_minus field_simps)

lemma f64_dyadic_correct:
  assumes "0 \<le> m"
  shows "f64_wf (f64_dyadic s m e)"
    and "f64_val (f64_dyadic s m e) = (if s then - 1 else 1) * RN (of_int m * 2 powi e)"
    and "\<not> f64_is_nan (f64_dyadic s m e)"
proof -
  have p: "0 \<le> scale_num m e" "0 < scale_num 1 (- e)"
    using assms by (auto simp: scale_num_def)
  note * = f64_round_correct [OF p, of s, unfolded scale_dyadic_val, folded f64_dyadic_def]
  show "f64_wf (f64_dyadic s m e)" using * by blast
  show "f64_val (f64_dyadic s m e) = (if s then - 1 else 1) * RN (of_int m * 2 powi e)" using * by blast
  show "\<not> f64_is_nan (f64_dyadic s m e)" using * by (cases "f64_dyadic s m e") auto
qed

lemma f64_of_int_correct:
  "f64_wf (f64_of_int i) \<and> f64_val (f64_of_int i) = RN (of_int i) \<and> \<not> f64_is_nan (f64_of_int i)"
proof -
  have "\<not> f64_is_nan (f64_of_int i)"
    using f64_round_correct [of "\<bar>i\<bar>" 1 "i < 0"] by (cases "f64_of_int i") (auto simp: f64_of_int_def)
  then show ?thesis
    using f64_round_correct [of "\<bar>i\<bar>" 1 "i < 0"] RN_minus [of "of_int i"]
    by (auto simp: f64_of_int_def)
qed

lemma wf_fin_pos: "f64_wf (F64_Fin s m e) \<Longrightarrow> 0 < m"
  by auto

lemma wf_fin_below_top: "f64_wf (F64_Fin s m e) \<Longrightarrow> \<bar>of_int (signed s m) * 2 powi e\<bar> < f64_top"
proof -
  assume "f64_wf (F64_Fin s m e)"
  then have "m < 2 ^ 53" "e \<le> 971" "0 \<le> m" by auto
  then show ?thesis using f64_fin_below_top by (simp add: abs_mult flip: of_int_abs)
qed

lemma f64_val_bound: "f64_wf x \<Longrightarrow> \<bar>f64_val x\<bar> \<le> f64_top"
  using f64_top_pos wf_fin_below_top by (cases x) (auto simp del: f64_wf.simps intro: less_imp_le)

lemma f64_RN_val: "f64_wf x \<Longrightarrow> RN (f64_val x) = f64_val x"
proof (cases x)
  case (F64_Fin s m e)
  assume wf: "f64_wf x"
  then have "RN (of_int (signed s m) * 2 powi e) = of_int (signed s m) * 2 powi e"
    using wf_fin_below_top [of s m e] unfolding F64_Fin by (intro RN_exact) auto
  then show ?thesis using F64_Fin by simp
next
  case (F64_Inf s)
  have "RN (of_int 1 * 2 powi 1024) = of_int 1 * 2 powi 1024"
    by (intro RN_exact) (auto simp: f64_top_def)
  then have "RN f64_top = f64_top" by (simp add: f64_top_def)
  then show ?thesis using F64_Inf RN_minus [of f64_top] by simp
qed simp_all

lemma f64_lt_val:
  assumes "f64_wf x" "f64_wf y"
  shows "f64_lt x y \<longleftrightarrow> \<not> f64_is_nan x \<and> \<not> f64_is_nan y \<and> f64_val x < f64_val y"
proof -
  have fin: "f64_lt (F64_Fin s m e) (F64_Fin t n f) \<longleftrightarrow> f64_val (F64_Fin s m e) < f64_val (F64_Fin t n f)"
    for s m e t n f
  proof -
    let ?g = "min e f"
    have "real_of_int (scale_num (signed s m) (e - ?g)) = f64_val (F64_Fin s m e) / 2 powi ?g"
      "real_of_int (scale_num (signed t n) (f - ?g)) = f64_val (F64_Fin t n f) / 2 powi ?g"
      by (simp_all add: scale_num_val power_int_diff)
    then have "f64_lt (F64_Fin s m e) (F64_Fin t n f) \<longleftrightarrow>
        f64_val (F64_Fin s m e) / 2 powi ?g < f64_val (F64_Fin t n f) / 2 powi ?g"
      by (simp only: f64_lt.simps Let_def flip: of_int_less_iff [where 'a = real])
    then show ?thesis by (simp add: divide_less_cancel del: f64_lt.simps f64_val.simps)
  qed
  have z: "f64_val (F64_Fin s m e) < 0 \<longleftrightarrow> s" "0 < f64_val (F64_Fin s m e) \<longleftrightarrow> \<not> s"
    if "f64_wf (F64_Fin s m e)" for s m e
    using wf_fin_pos [OF that] by (auto simp: of_int_signed zero_less_mult_iff mult_less_0_iff)
  have i: "- f64_top < f64_val (F64_Fin s m e)" "f64_val (F64_Fin s m e) < f64_top"
    if "f64_wf (F64_Fin s m e)" for s m e
    using wf_fin_below_top [OF that] by auto
  show ?thesis
    using assms f64_top_pos
    by (cases x; cases y)
      (auto simp: fin z i simp del: f64_wf.simps f64_val.simps(1) f64_lt.simps(13)
         dest: i intro: less_imp_le  order.strict_implies_order [OF i(1)])
qed


lemma f64_le_val:
  assumes "f64_wf x" "f64_wf y"
  shows "f64_le x y \<longleftrightarrow> \<not> f64_is_nan x \<and> \<not> f64_is_nan y \<and> f64_val x \<le> f64_val y"
  using f64_lt_val [OF assms(2,1)] by (auto simp: f64_le_def)

lemma f64_neg_simps [simp]:
  "f64_wf (f64_neg x) = f64_wf x" "f64_val (f64_neg x) = - f64_val x"
  "f64_is_nan (f64_neg x) = f64_is_nan x" "f64_is_finite (f64_neg x) = f64_is_finite x"
  by (cases x; simp add: of_int_signed)+

lemma f64_finite_not_nan: "f64_is_finite x \<Longrightarrow> \<not> f64_is_nan x"
  by (cases x) auto

lemma RN_signed: "(if v < 0 then - 1 else 1) * RN (of_int \<bar>v\<bar> * 2 powi g) = RN (of_int v * 2 powi g)"
  using RN_minus [of "of_int v * 2 powi g"] by auto

lemma f64_add_fin:
  assumes "f64_wf (F64_Fin s m e)" "f64_wf (F64_Fin t n f)"
  shows "f64_val (f64_add (F64_Fin s m e) (F64_Fin t n f)) =
           RN (f64_val (F64_Fin s m e) + f64_val (F64_Fin t n f))"
    and "f64_wf (f64_add (F64_Fin s m e) (F64_Fin t n f))"
    and "\<not> f64_is_nan (f64_add (F64_Fin s m e) (F64_Fin t n f))"
proof -
  define g where "g = min e f"
  define v where "v = scale_num (signed s m) (e - g) + scale_num (signed t n) (f - g)"
  have v: "f64_val (F64_Fin s m e) + f64_val (F64_Fin t n f) = of_int v * 2 powi g"
    by (simp add: v_def g_def scale_num_val power_int_diff field_simps)
  have add: "f64_add (F64_Fin s m e) (F64_Fin t n f) =
      (if v = 0 then F64_Zero False else f64_dyadic (v < 0) \<bar>v\<bar> g)"
    by (simp add: Let_def v_def g_def)
  note D = f64_dyadic_correct [of "\<bar>v\<bar>" "v < 0" g]
  show "f64_wf (f64_add (F64_Fin s m e) (F64_Fin t n f))"
    "\<not> f64_is_nan (f64_add (F64_Fin s m e) (F64_Fin t n f))"
    unfolding add using D by auto
  show "f64_val (f64_add (F64_Fin s m e) (F64_Fin t n f)) =
           RN (f64_val (F64_Fin s m e) + f64_val (F64_Fin t n f))"
    unfolding add v using D(2) RN_signed [of v g] by simp
qed

lemma f64_add_correct:
  assumes "f64_wf x" "f64_wf y"
  shows "f64_wf (f64_add x y)"
    and "f64_is_finite x \<Longrightarrow> f64_is_finite y \<Longrightarrow>
      \<not> f64_is_nan (f64_add x y) \<and> f64_val (f64_add x y) = RN (f64_val x + f64_val y)"
proof -
  note F = f64_add_fin
  show "f64_wf (f64_add x y)"
    using assms F(2) by (cases x; cases y) (auto simp del: f64_add.simps(13) f64_wf.simps(1))
  assume "f64_is_finite x" "f64_is_finite y"
  then show "\<not> f64_is_nan (f64_add x y) \<and> f64_val (f64_add x y) = RN (f64_val x + f64_val y)"
    using assms F(1,3) f64_RN_val [OF assms(1)] f64_RN_val [OF assms(2)]
    by (cases x; cases y) (auto simp del: f64_wf.simps(1) f64_val.simps(1))
qed


lemma f64_mul_correct:
  assumes "f64_wf x" "f64_wf y"
  shows "f64_wf (f64_mul x y)"
    and "f64_is_finite x \<Longrightarrow> f64_is_finite y \<Longrightarrow>
      \<not> f64_is_nan (f64_mul x y) \<and> f64_val (f64_mul x y) = RN (f64_val x * f64_val y)"
proof -
  have fin: "f64_wf (f64_dyadic (s \<noteq> t) (m * n) (e + f)) \<and> \<not> f64_is_nan (f64_dyadic (s \<noteq> t) (m * n) (e + f)) \<and>
     f64_val (f64_dyadic (s \<noteq> t) (m * n) (e + f)) = RN (f64_val (F64_Fin s m e) * f64_val (F64_Fin t n f))"
    if "f64_wf (F64_Fin s m e)" "f64_wf (F64_Fin t n f)" for s m e t n f
  proof -
    have p: "0 \<le> m * n" using that [THEN wf_fin_pos] by simp
    note D = f64_dyadic_correct [OF p, of "s \<noteq> t" "e + f"]
    have "f64_val (F64_Fin s m e) * f64_val (F64_Fin t n f) =
        (if s \<noteq> t then - 1 else 1) * (of_int (m * n) * 2 powi (e + f))"
      by (auto simp: of_int_signed power_int_add)
    then show ?thesis using D by (simp add: RN_minus)
  qed
  show "f64_wf (f64_mul x y)"
    using assms fin by (cases x; cases y) (auto simp del: f64_wf.simps(1))
  assume "f64_is_finite x" "f64_is_finite y"
  then show "\<not> f64_is_nan (f64_mul x y) \<and> f64_val (f64_mul x y) = RN (f64_val x * f64_val y)"
    using assms fin by (cases x; cases y) (auto simp del: f64_wf.simps(1) f64_val.simps(1))
qed

lemma f64_div_correct:
  assumes "f64_wf x" "f64_wf y"
  shows "f64_wf (f64_div x y)"
    and "f64_is_finite x \<Longrightarrow> f64_is_finite y \<Longrightarrow> f64_val y \<noteq> 0 \<Longrightarrow>
      \<not> f64_is_nan (f64_div x y) \<and> f64_val (f64_div x y) = RN (f64_val x / f64_val y)"
proof -
  have fin: "f64_wf (f64_div (F64_Fin s m e) (F64_Fin t n f)) \<and>
     \<not> f64_is_nan (f64_div (F64_Fin s m e) (F64_Fin t n f)) \<and>
     f64_val (f64_div (F64_Fin s m e) (F64_Fin t n f)) = RN (f64_val (F64_Fin s m e) / f64_val (F64_Fin t n f))"
    if "f64_wf (F64_Fin s m e)" "f64_wf (F64_Fin t n f)" for s m e t n f
  proof -
    let ?a = "scale_num m (e - f)" and ?b = "scale_num n (f - e)"
    have p: "0 \<le> ?a" "0 < ?b" using that [THEN wf_fin_pos] by (simp_all add: scale_num_pos less_imp_le)
    have ab: "real_of_int ?a / of_int ?b = (of_int m / of_int n) * 2 powi (e - f)"
      using scale_num_ratio [of m "f - e" n] by (simp add: power_int_diff)
    note D = f64_round_correct [OF p, of "s \<noteq> t"]
    have "f64_val (F64_Fin s m e) / f64_val (F64_Fin t n f) =
        (if s \<noteq> t then - 1 else 1) * (of_int ?a / of_int ?b)"
      unfolding ab by (auto simp: of_int_signed power_int_diff)
    moreover have "\<not> f64_is_nan (f64_round (s \<noteq> t) ?a ?b)"
      using D by (cases "f64_round (s \<noteq> t) ?a ?b") auto
    ultimately show ?thesis using D by (simp add: RN_minus)
  qed
  show "f64_wf (f64_div x y)"
    using assms fin by (cases x; cases y) (auto simp del: f64_wf.simps(1) f64_div.simps(13))
  assume "f64_is_finite x" "f64_is_finite y" "f64_val y \<noteq> 0"
  then show "\<not> f64_is_nan (f64_div x y) \<and> f64_val (f64_div x y) = RN (f64_val x / f64_val y)"
    using assms fin by (cases x; cases y) (auto simp del: f64_wf.simps(1) f64_val.simps(1) f64_div.simps(13))
qed


locale rounding =
  fixes rnd :: "real \<Rightarrow> real"
  assumes rnd_mono: "x \<le> y \<Longrightarrow> rnd x \<le> rnd y"
    and rnd_zero: "rnd 0 = 0"
    and rnd_minus: "rnd (- x) = - rnd x"
begin

lemma rnd_nonneg: "0 \<le> x \<Longrightarrow> 0 \<le> rnd x"
  using rnd_mono [of 0 x] rnd_zero by simp

lemma rnd_pos_imp: "0 < rnd x \<Longrightarrow> 0 < x"
  using rnd_mono [of x 0] rnd_zero by (metis linorder_not_less)

lemma rnd_diff_mono: "x \<le> y \<Longrightarrow> z' \<le> z \<Longrightarrow> rnd (x - z) \<le> rnd (y - z')"
  by (intro rnd_mono) simp

lemma rnd_diff_pos_imp: "0 < rnd (x - y) \<Longrightarrow> y < x"
  using rnd_pos_imp by fastforce

lemma rnd_mult_mono: "x \<le> y \<Longrightarrow> 0 \<le> z \<Longrightarrow> rnd (x * z) \<le> rnd (y * z)"
  by (intro rnd_mono mult_right_mono)

lemma rnd_divide_mono: "x \<le> y \<Longrightarrow> 0 < z \<Longrightarrow> rnd (x / z) \<le> rnd (y / z)"
  by (intro rnd_mono divide_right_mono) simp_all

end

interpretation RN: rounding RN
  by unfold_locales (simp_all add: RN_mono RN_minus)

lemma f64_sub_correct:
  assumes "f64_wf x" "f64_wf y"
  shows "f64_wf (f64_sub x y)"
    and "f64_is_finite x \<Longrightarrow> f64_is_finite y \<Longrightarrow>
      \<not> f64_is_nan (f64_sub x y) \<and> f64_val (f64_sub x y) = RN (f64_val x - f64_val y)"
  using f64_add_correct [of x "f64_neg y"] assms by (simp_all add: f64_sub_def)

lemmas f64_correct = f64_add_correct f64_sub_correct f64_mul_correct f64_div_correct f64_of_int_correct

lemma f64_cases_finite:
  obtains (nan) "x = F64_NaN" | (inf) s where "x = F64_Inf s" | (fin) "f64_is_finite x"
  by (cases x) auto

lemma f64_add_inf:
  assumes "f64_is_finite x"
  shows "f64_add x (F64_Inf s) = F64_Inf s" "f64_add (F64_Inf s) x = F64_Inf s"
  using assms by (cases x; simp)+

lemma f64_le_top: "f64_wf x \<Longrightarrow> f64_val x \<le> f64_top" "f64_wf x \<Longrightarrow> - f64_top \<le> f64_val x"
  using f64_val_bound [of x] by auto

lemma f64_inf_le_finite:
  assumes "f64_wf x" "f64_is_finite x"
  shows "- f64_top < f64_val x" "f64_val x < f64_top"
proof -
  have "\<bar>f64_val x\<bar> < f64_top"
  proof (cases x)
    case (F64_Fin s m e)
    then show ?thesis using assms(1) wf_fin_below_top [of s m e] by (simp del: f64_wf.simps)
  qed (use assms f64_top_pos in simp_all)
  then show "- f64_top < f64_val x" "f64_val x < f64_top" by (simp_all add: abs_less_iff)
qed

lemma f64_add_mono:
  assumes wf: "f64_wf x" "f64_wf y" "f64_wf z" and le: "f64_le x y"
    and nn: "\<not> f64_is_nan (f64_add x z)" "\<not> f64_is_nan (f64_add y z)"
  shows "f64_le (f64_add x z) (f64_add y z)"
proof -
  have v: "f64_val x \<le> f64_val y" using le wf by (simp add: f64_le_val)
  have wfs: "f64_wf (f64_add x z)" "f64_wf (f64_add y z)" using wf by (auto intro: f64_correct)
  have "f64_val (f64_add x z) \<le> f64_val (f64_add y z)"
  proof (cases z rule: f64_cases_finite)
    case nan
    then show ?thesis using nn by (cases x) simp_all
  next
    case (inf s)
    then show ?thesis using nn by (cases x; cases y) (auto split: if_splits)
  next
    case z: fin
    show ?thesis
    proof (cases x rule: f64_cases_finite)
      case nan
      then show ?thesis using nn by simp
    next
      case (inf s)
      then show ?thesis using z v wf f64_le_top [OF wfs(2)] f64_inf_le_finite(2) [of y] f64_top_pos
        by (cases y rule: f64_cases_finite) (auto simp: f64_add_inf split: if_splits)
    next
      case x: fin
      show ?thesis
      proof (cases y rule: f64_cases_finite)
        case nan
        then show ?thesis using nn by simp
      next
        case (inf t)
        then show ?thesis using z x v wf f64_le_top [OF wfs(1)] f64_inf_le_finite(1) [of x]
          by (auto simp: f64_add_inf split: if_splits)
      next
        case fin
        then show ?thesis using x z wf v by (simp add: f64_add_correct RN_mono)
      qed
    qed
  qed
  then show ?thesis using wfs nn by (simp add: f64_le_val)
qed

lemma f64_sub_mono:
  assumes "f64_wf x" "f64_wf y" "f64_wf z" "f64_le x y"
    and "\<not> f64_is_nan (f64_sub x z)" "\<not> f64_is_nan (f64_sub y z)"
  shows "f64_le (f64_sub x z) (f64_sub y z)"
  using assms f64_add_mono [of x y "f64_neg z"] by (simp add: f64_sub_def)

lemma f64_le_refl: "\<not> f64_is_nan x \<Longrightarrow> f64_wf x \<Longrightarrow> f64_le x x"
  by (simp add: f64_le_val)

lemma f64_le_trans: "f64_wf x \<Longrightarrow> f64_wf y \<Longrightarrow> f64_wf z \<Longrightarrow> f64_le x y \<Longrightarrow> f64_le y z \<Longrightarrow> f64_le x z"
  by (auto simp: f64_le_val)

lemma f64_lt_le_trans: "f64_wf x \<Longrightarrow> f64_wf y \<Longrightarrow> f64_wf z \<Longrightarrow> f64_lt x y \<Longrightarrow> f64_le y z \<Longrightarrow> f64_lt x z"
  by (auto simp: f64_le_val f64_lt_val)

lemma f64_le_lt_trans: "f64_wf x \<Longrightarrow> f64_wf y \<Longrightarrow> f64_wf z \<Longrightarrow> f64_le x y \<Longrightarrow> f64_lt y z \<Longrightarrow> f64_lt x z"
  by (auto simp: f64_le_val f64_lt_val)


lemma f64_mul_inf:
  assumes "\<not> f64_is_nan (f64_mul (F64_Inf s) z)" "f64_le (F64_Zero False) z" "f64_wf z"
  shows "f64_mul (F64_Inf s) z = F64_Inf s"
  using assms by (cases z) (auto simp: f64_le_def)

lemma f64_mul_inf_right:
  assumes "\<not> f64_is_nan (f64_mul x (F64_Inf False))" "f64_wf x"
  shows "f64_mul x (F64_Inf False) = F64_Inf (f64_lt x (F64_Zero False))"
  using assms by (cases x) auto

lemma f64_mul_mono:
  assumes wf: "f64_wf x" "f64_wf y" "f64_wf z" and le: "f64_le x y" and z: "f64_le (F64_Zero False) z"
    and nn: "\<not> f64_is_nan (f64_mul x z)" "\<not> f64_is_nan (f64_mul y z)"
  shows "f64_le (f64_mul x z) (f64_mul y z)"
proof -
  have v: "f64_val x \<le> f64_val y" "\<not> f64_is_nan x" "\<not> f64_is_nan y" using le wf by (simp_all add: f64_le_val)
  have z0: "0 \<le> f64_val z" using z wf by (simp add: f64_le_val)
  have wfs: "f64_wf (f64_mul x z)" "f64_wf (f64_mul y z)" using wf by (auto intro: f64_correct)
  have "f64_val (f64_mul x z) \<le> f64_val (f64_mul y z)"
  proof (cases z rule: f64_cases_finite)
    case nan
    then show ?thesis using z by (simp add: f64_le_def)
  next
    case (inf s)
    then have "z = F64_Inf False" using z by (cases s) (auto simp: f64_le_def)
    then show ?thesis
      using nn wf v f64_top_pos by (auto simp: f64_mul_inf_right f64_lt_val)
  next
    case zf: fin
    show ?thesis
    proof (cases x rule: f64_cases_finite)
      case nan
      then show ?thesis using nn by simp
    next
      case (inf s)
      then show ?thesis
        using nn z wf v f64_le_top [OF wfs(2)] f64_inf_le_finite(2) [of y] f64_top_pos
        by (cases y rule: f64_cases_finite) (auto simp: f64_mul_inf split: if_splits)
    next
      case xf: fin
      show ?thesis
      proof (cases y rule: f64_cases_finite)
        case nan
        then show ?thesis using nn by simp
      next
        case (inf t)
        then show ?thesis
          using nn z wf v xf f64_le_top [OF wfs(1)] f64_inf_le_finite(1) [of x]
          by (auto simp: f64_mul_inf split: if_splits)
      next
        case fin
        then show ?thesis using xf zf wf v z0 by (simp add: f64_mul_correct RN.rnd_mult_mono)
      qed
    qed
  qed
  then show ?thesis using wfs nn by (simp add: f64_le_val)
qed

lemma f64_neg_le: "f64_wf x \<Longrightarrow> f64_wf y \<Longrightarrow> f64_le (f64_neg x) (f64_neg y) \<longleftrightarrow> f64_le y x"
  by (auto simp: f64_le_val)

lemma f64_add_commute: "f64_add x y = f64_add y x"
  by (cases x; cases y) (auto simp: Let_def min.commute add.commute)

lemma f64_sub_anti:
  assumes "f64_wf x" "f64_wf y" "f64_wf z" "f64_le x y"
    and "\<not> f64_is_nan (f64_sub z x)" "\<not> f64_is_nan (f64_sub z y)"
  shows "f64_le (f64_sub z y) (f64_sub z x)"
  using assms f64_add_mono [of "f64_neg y" "f64_neg x" z]
  by (simp add: f64_sub_def f64_neg_le f64_add_commute [of z])

lemma f64_div_mono:
  assumes wf: "f64_wf x" "f64_wf y" "f64_wf z" and le: "f64_le x y"
    and z: "f64_is_finite z" "0 < f64_val z"
  shows "f64_le (f64_div x z) (f64_div y z)"
proof -
  have v: "f64_val x \<le> f64_val y" "\<not> f64_is_nan x" "\<not> f64_is_nan y" using le wf by (simp_all add: f64_le_val)
  obtain m e where zz: "z = F64_Fin False m e" "0 < m"
    using z wf(3) by (cases z) (auto simp: of_int_signed zero_less_mult_iff split: if_splits)
  have wfs: "f64_wf (f64_div x z)" "f64_wf (f64_div y z)" using wf by (auto intro: f64_correct)
  have divinf: "f64_div (F64_Inf s) z = F64_Inf s" for s using zz by simp
  have fin: "\<not> f64_is_nan (f64_div u z)" "f64_val (f64_div u z) = RN (f64_val u / f64_val z)"
    if "f64_wf u" "f64_is_finite u" for u
    using f64_div_correct(2) [OF that(1) wf(3) that(2) z(1)] z(2) by auto
  show ?thesis
  proof (cases x rule: f64_cases_finite)
    case nan
    then show ?thesis using v by simp
  next
    case (inf s)
    show ?thesis
    proof (cases y rule: f64_cases_finite)
      case nan
      then show ?thesis using v by simp
    next
      case (inf t)
      then show ?thesis
        using \<open>x = F64_Inf s\<close> v f64_top_pos zz by (auto simp: f64_le_def split: if_splits)
    next
      case f: fin
      then have "s" using v wf f64_inf_le_finite(2) [of y] \<open>x = F64_Inf s\<close> by (cases s) auto
      then show ?thesis
        using \<open>x = F64_Inf s\<close> f wf fin [of y] wfs f64_le_top(2) [OF wfs(2)]
        by (simp add: f64_le_val divinf)
    qed
  next
    case xf: fin
    show ?thesis
    proof (cases y rule: f64_cases_finite)
      case nan
      then show ?thesis using v by simp
    next
      case i: (inf t)
      then have "\<not> t" using v wf f64_inf_le_finite(1) [of x] xf by (cases t) auto
      then show ?thesis
        using i xf wf fin [of x] wfs f64_le_top(1) [OF wfs(1)] by (simp add: f64_le_val divinf)
    next
      case f: fin
      then show ?thesis
        using xf wf fin [of x] fin [of y] wfs v z(2) by (simp add: f64_le_val RN.rnd_divide_mono)
    qed
  qed
qed

lemma f64_of_int_mono: "i \<le> j \<Longrightarrow> f64_le (f64_of_int i) (f64_of_int j)"
  using f64_of_int_correct [of i] f64_of_int_correct [of j] by (simp add: f64_le_val RN_mono)

subsection \<open>Rounding to an integer, casts, text\<close>

fun f64_round_away :: "f64 \<Rightarrow> f64" where
  "f64_round_away (F64_Fin s m e) =
     (if 0 \<le> e then F64_Fin s m e
      else let d = 2 ^ nat (- e); q = (2 * m + d) div (2 * d)
           in if q = 0 then F64_Zero s else f64_dyadic s q 0)"
| "f64_round_away x = x"

fun f64_as_usize :: "f64 \<Rightarrow> nat" where
  "f64_as_usize (F64_Fin s m e) =
     (if s then 0
      else nat (min (scale_num m e div scale_num 1 (- e)) (2 ^ 64 - 1)))"
| "f64_as_usize (F64_Inf s) = (if s then 0 else 2 ^ 64 - 1)"
| "f64_as_usize _ = 0"

definition pad_zeros :: "nat \<Rightarrow> string \<Rightarrow> string" where
  "pad_zeros p s = replicate (p - length s) CHR ''0'' @ s"

definition fmt_scaled :: "bool \<Rightarrow> nat \<Rightarrow> int \<Rightarrow> string" where
  "fmt_scaled s p v =
     (if s then ''-'' else []) @ dec_string (nat (v div 10 ^ p)) @ ''.'' @
     pad_zeros p (dec_string (nat (v mod 10 ^ p)))"

fun f64_fmt_fixed :: "nat \<Rightarrow> f64 \<Rightarrow> string" where
  "f64_fmt_fixed p F64_NaN = ''NaN''"
| "f64_fmt_fixed p (F64_Inf s) = (if s then ''-inf'' else ''inf'')"
| "f64_fmt_fixed p (F64_Zero s) = fmt_scaled s p 0"
| "f64_fmt_fixed p (F64_Fin s m e) =
     fmt_scaled s p (rne_div (scale_num (m * 10 ^ p) e) (scale_num 1 (- e)))"

definition to_lower :: "char \<Rightarrow> char" where
  "to_lower c = (let n = (of_char c :: nat) in if 65 \<le> n \<and> n \<le> 90 then char_of (n + 32) else c)"

definition split_sign :: "string \<Rightarrow> bool \<times> string" where
  "split_sign s = (case s of [] \<Rightarrow> (False, [])
     | c # cs \<Rightarrow> if c = CHR ''-'' then (True, cs) else if c = CHR ''+'' then (False, cs) else (False, s))"

definition f64_decimal :: "bool \<Rightarrow> nat \<Rightarrow> int \<Rightarrow> f64" where
  "f64_decimal s m e =
     (if 0 \<le> e then f64_round s (int m * 10 ^ nat e) 1 else f64_round s (int m) (10 ^ nat (- e)))"

definition parse_exponent :: "string \<Rightarrow> int option" where
  "parse_exponent s = (case s of [] \<Rightarrow> Some 0
     | c # cs \<Rightarrow>
         if c = CHR ''e'' \<or> c = CHR ''E''
         then (case split_sign cs of (neg, ds) \<Rightarrow> map_option (\<lambda>n. signed neg (int n)) (parse_dec ds))
         else None)"

definition f64_parse :: "string \<Rightarrow> f64 option" where
  "f64_parse str =
     (let (s, body) = split_sign str;
          low = map to_lower body;
          ip = takeWhile is_digit body;
          r1 = dropWhile is_digit body;
          (fp, r2) = (case r1 of [] \<Rightarrow> ([], [])
                      | c # cs \<Rightarrow> if c = CHR ''.'' then (takeWhile is_digit cs, dropWhile is_digit cs)
                                 else ([], r1))
      in if low = ''inf'' \<or> low = ''infinity'' then Some (F64_Inf s)
         else if low = ''nan'' then Some F64_NaN
         else if ip @ fp = [] then None
         else map_option (\<lambda>x. f64_decimal s (dec_value (ip @ fp)) (x - int (length fp))) (parse_exponent r2))"

lemma takeWhile_digits: "list_all is_digit s \<Longrightarrow> takeWhile is_digit s = s \<and> dropWhile is_digit s = []"
  by (simp add: list_all_iff)

lemma to_lower_digit: "is_digit c \<Longrightarrow> to_lower c = c"
  by (simp add: is_digit_def to_lower_def Let_def)

lemma f64_parse_dec_string: "f64_parse (dec_string n) = Some (f64_of_int (int n))"
proof -
  have sg: "split_sign (dec_string n) = (False, dec_string n)"
    using dec_string_not_sign [of n] by (auto simp: split_sign_def split: list.splits)
  have low: "map to_lower (dec_string n) = dec_string n"
    using dec_string_digits [of n] by (intro map_idI) (auto simp: list_all_iff to_lower_digit)
  have nn: "dec_string n \<noteq> w" if "w \<noteq> []" "\<not> is_digit (hd w)" for w
    using dec_string_hd [of n] that by auto
  have "dec_string n \<noteq> ''inf''" "dec_string n \<noteq> ''infinity''" "dec_string n \<noteq> ''nan''"
    by (rule nn; simp add: is_digit_def)+
  then show ?thesis
    by (simp add: f64_parse_def sg low takeWhile_digits [OF dec_string_digits] parse_exponent_def
        f64_decimal_def f64_of_int_def)
qed

subsection \<open>Magnitudes and finiteness\<close>

lemma RN_powi: "- 1074 \<le> k \<Longrightarrow> k \<le> 1024 \<Longrightarrow> RN (2 powi k) = 2 powi k"
proof -
  assume k: "- 1074 \<le> k" "k \<le> 1024"
  have "(2::real) powi k \<le> f64_top" unfolding f64_top_def using k by (intro power_int_increasing) auto
  then show ?thesis using RN_exact [of 1 k] k by simp
qed

lemma RN_abs_le_powi: "\<bar>x\<bar> \<le> 2 powi k \<Longrightarrow> - 1074 \<le> k \<Longrightarrow> k \<le> 1024 \<Longrightarrow> \<bar>RN x\<bar> \<le> 2 powi k"
proof -
  assume x: "\<bar>x\<bar> \<le> 2 powi k" and k: "- 1074 \<le> k" "k \<le> 1024"
  have "RN x \<le> RN (2 powi k)" "RN (- (2 powi k)) \<le> RN x" using x by (auto intro!: RN_mono)
  then show ?thesis using RN_powi [OF k] by (simp add: RN_minus abs_le_iff)
qed

text \<open>\<open>f64_below k x\<close>: a finite, well-formed double of magnitude at most \<open>2^k\<close>.\<close>

definition f64_below :: "int \<Rightarrow> f64 \<Rightarrow> bool" where
  "f64_below k x \<longleftrightarrow> f64_wf x \<and> f64_is_finite x \<and> \<bar>f64_val x\<bar> \<le> 2 powi k"

lemma f64_belowI:
  assumes "f64_wf x" "\<not> f64_is_nan x" "\<bar>f64_val x\<bar> \<le> 2 powi k" "k < 1024"
  shows "f64_below k x"
proof -
  have "(2::real) powi k < f64_top" unfolding f64_top_def using assms(4) by (intro power_int_strict_increasing) auto
  then have "f64_is_finite x" using assms(1-3) f64_top_pos by (cases x) (auto split: if_splits)
  then show ?thesis using assms by (simp add: f64_below_def)
qed

lemma f64_below_mono: "f64_below k x \<Longrightarrow> k \<le> l \<Longrightarrow> f64_below l x"
  unfolding f64_below_def by (meson one_le_numeral order_trans power_int_increasing)

lemma f64_below_of_int:
  assumes "\<bar>i\<bar> \<le> 2 ^ n" "n < 1024"
  shows "f64_below (int n) (f64_of_int i)"
proof (rule f64_belowI)
  have "real_of_int \<bar>i\<bar> \<le> of_int (2 ^ n)" using assms(1) by (subst of_int_le_iff)
  then have "\<bar>real_of_int i\<bar> \<le> 2 powi int n" by (simp add: powi_nat)
  then show "\<bar>f64_val (f64_of_int i)\<bar> \<le> 2 powi int n"
    using f64_of_int_correct [of i] assms(2) RN_abs_le_powi [of "of_int i" "int n"] by auto
qed (use f64_of_int_correct [of i] assms(2) in simp_all)

lemma f64_below_mul:
  assumes "f64_below j x" "f64_below k y" "- 1074 \<le> j + k" "j + k < 1024"
  shows "f64_below (j + k) (f64_mul x y)"
proof (rule f64_belowI)
  have xy: "f64_wf x" "f64_wf y" "f64_is_finite x" "f64_is_finite y"
    using assms by (simp_all add: f64_below_def)
  have "\<bar>f64_val x * f64_val y\<bar> \<le> 2 powi j * 2 powi k"
    using assms unfolding f64_below_def abs_mult by (intro mult_mono) auto
  then have "\<bar>f64_val x * f64_val y\<bar> \<le> 2 powi (j + k)" by (simp add: power_int_add)
  then show "\<bar>f64_val (f64_mul x y)\<bar> \<le> 2 powi (j + k)"
    using f64_mul_correct(2) [OF xy] assms(3,4) by (simp add: RN_abs_le_powi)
qed (use assms f64_mul_correct [of x y] in \<open>auto simp: f64_below_def\<close>)

lemma f64_below_div:
  assumes "f64_below j x" "f64_wf y" "f64_is_finite y" "1 \<le> \<bar>f64_val y\<bar>" "- 1074 \<le> j" "j < 1024"
  shows "f64_below j (f64_div x y)"
proof (rule f64_belowI)
  have y: "f64_val y \<noteq> 0" using assms(4) by auto
  have D: "\<not> f64_is_nan (f64_div x y) \<and> f64_val (f64_div x y) = RN (f64_val x / f64_val y)"
    using assms y by (intro f64_div_correct(2)) (simp_all add: f64_below_def)
  have "\<bar>f64_val x / f64_val y\<bar> \<le> \<bar>f64_val x\<bar> / 1"
    unfolding abs_divide using assms(4) by (intro frac_le) auto
  then have "\<bar>f64_val x / f64_val y\<bar> \<le> 2 powi j" using assms(1) by (simp add: f64_below_def)
  then show "\<bar>f64_val (f64_div x y)\<bar> \<le> 2 powi j" using D assms(5,6) by (simp add: RN_abs_le_powi)
  show "f64_wf (f64_div x y)" using assms by (intro f64_div_correct(1)) (simp_all add: f64_below_def)
  show "\<not> f64_is_nan (f64_div x y)" using D by blast
qed (use assms in simp)

lemma f64_of_int_exact: "\<bar>i\<bar> \<le> 2 ^ 53 \<Longrightarrow> f64_val (f64_of_int i) = of_int i"
proof -
  assume i: "\<bar>i\<bar> \<le> 2 ^ 53"
  have "real_of_int \<bar>i\<bar> \<le> of_int (2 ^ 53)" using i by (subst of_int_le_iff)
  also have "\<dots> = 2 powi 53" by (simp add: powi_nat)
  also have "\<dots> \<le> f64_top" unfolding f64_top_def by (intro power_int_increasing) auto
  finally have "\<bar>real_of_int i\<bar> \<le> f64_top" by simp
  then show ?thesis using f64_of_int_correct [of i] RN_exact [of i 0] i by simp
qed

lemma f64_sub_pos_imp:
  assumes wf: "f64_wf x" "f64_wf y" and pos: "f64_lt (F64_Zero False) (f64_sub x y)"
  shows "f64_lt y x"
proof (cases "f64_is_finite x \<and> f64_is_finite y")
  case True
  then have "0 < RN (f64_val x - f64_val y)"
    using pos f64_sub_correct [OF wf] wf by (simp add: f64_lt_val)
  then have "f64_val y < f64_val x" by (rule RN.rnd_diff_pos_imp)
  then show ?thesis using True wf by (simp add: f64_lt_val f64_finite_not_nan)
next
  case False
  then show ?thesis using pos
    by (cases x; cases y) (auto simp: f64_sub_def split: if_splits)
qed

section \<open>Signs of zero\<close>

lemma f64_lt_asym: "f64_lt x y \<Longrightarrow> \<not> f64_lt y x \<and> \<not> f64_is_nan x \<and> \<not> f64_is_nan y"
  by (cases x; cases y) (auto simp: min.commute Let_def)

lemma f64_lt_le: "f64_lt x y \<Longrightarrow> f64_le x y"
  by (simp add: f64_le_def f64_lt_asym)

definition zero_unsigned :: "f64 \<Rightarrow> f64" where
  "zero_unsigned x = (case x of F64_Zero s \<Rightarrow> F64_Zero False | _ \<Rightarrow> x)"

lemma zero_unsigned_lt [simp]:
  "f64_lt (zero_unsigned x) y = f64_lt x y" "f64_lt x (zero_unsigned y) = f64_lt x y"
  by (cases x; cases y; simp add: zero_unsigned_def)+

lemma zero_unsigned_sub:
  "zero_unsigned (f64_sub (zero_unsigned x) (zero_unsigned y)) = zero_unsigned (f64_sub x y)"
  by (cases x; cases y) (simp_all add: zero_unsigned_def f64_sub_def)

text \<open>Comparing a difference does not see the signs of zero operands.\<close>

lemma f64_lt_sub_unsigned: "f64_lt m (f64_sub (zero_unsigned x) (zero_unsigned y)) = f64_lt m (f64_sub x y)"
  by (metis zero_unsigned_lt(2) zero_unsigned_sub)

end
