(* ===== verification/Zelvex_Types.thy ===== *)
theory Zelvex_Types
  imports F64
begin

text \<open>
  The domain types of \<^verbatim>\<open>zelvex-types/src/lib.rs\<close>: one record per struct, one datatype per enum,
  with the fields in source order. Field names that several structs share carry a prefix.
\<close>

record pool =
  pool_address :: address
  token0 :: address
  token1 :: address
  reserve0 :: u256
  reserve1 :: u256
  block_updated :: u64

record arbitrage_opportunity =
  opp_pool_a :: address
  opp_pool_b :: address
  opp_token_in :: address
  opp_token_out :: address
  opp_input_amount :: u256
  opp_estimated_profit_usd :: f64
  opp_gas_estimate_usd :: f64
  opp_spread_bps :: i64

datatype trade_status = Success | Failed | Reverted | Simulated

record trade_result =
  tr_tx_hash :: b256
  tr_route :: string
  tr_pool_a :: address
  tr_pool_b :: address
  tr_input_amount :: u256
  tr_output_amount :: "u256 option"
  tr_gross_profit :: "u256 option"
  tr_gas_cost_usd :: f64
  tr_net_profit_usd :: "f64 option"
  tr_gas_used :: "u64 option"
  tr_status :: trade_status
  tr_block_number :: u64
  tr_timestamp :: i64

datatype bot_status = Running | Stopped | BotError string

record token_pair =
  address0 :: address
  address1 :: address
  decimals0 :: u8
  decimals1 :: u8

record gas_estimate =
  base_fee_gwei :: f64
  priority_fee_gwei :: f64
  recommended_total_gwei :: f64

record opportunity_record =
  or_id :: i64
  or_estimated_profit_usd :: f64
  or_gas_estimate_usd :: f64
  or_spread_bps :: i64
  or_original_decision :: string
  or_original_no_go_reason :: "string option"
  or_timestamp :: i64

datatype profit_decision =
    Go (net_profit_usd: f64) (gas_cost_usd: f64)
  | NoGo (reason: string)

fun is_go :: "profit_decision \<Rightarrow> bool" where
  "is_go (Go n g) = True"
| "is_go (NoGo r) = False"

end
