(* ===== verification/Amm.thy ===== *)
theory Amm
  imports Zelvex_Types
begin

text \<open>
  Constant-product swap arithmetic of \<^verbatim>\<open>zelvex-core/src/amm.rs\<close>, on 256-bit words. \<open>+\<close> and \<open>*\<close>
  of \<open>U256\<close> wrap; \<open>/\<close> by zero panics. The on-chain counterpart, \<^verbatim>\<open>_getAmountOut\<close> of
  \<^verbatim>\<open>contracts/ZelvexArb.sol\<close>, uses checked arithmetic and is modelled next to it.
\<close>

section \<open>Definitions\<close>

definition u256_div :: "u256 \<Rightarrow> u256 \<Rightarrow> u256 outcome" where
  "u256_div a b = (if b = 0 then Panicked else Ret (a div b))"

definition get_amount_out :: "u256 \<Rightarrow> u256 \<Rightarrow> u256 \<Rightarrow> u256 option outcome" where
  "get_amount_out amount_in reserve_in reserve_out =
     (if reserve_in = 0 \<or> reserve_out = 0 then Ret None
      else
        let amount_in_with_fee = amount_in * 997;
            numerator = amount_in_with_fee * reserve_out;
            denominator = reserve_in * 1000 + amount_in_with_fee
        in bindO (u256_div numerator denominator) (\<lambda>q. Ret (Some q)))"

fun pow10_loop :: "nat \<Rightarrow> u256 \<Rightarrow> u256" where
  "pow10_loop 0 v = v"
| "pow10_loop (Suc n) v = pow10_loop n (v * 10)"

definition u256_pow10 :: "nat \<Rightarrow> u256" where
  "u256_pow10 n = pow10_loop n 1"

definition get_spot_price :: "u256 \<Rightarrow> u256 \<Rightarrow> u256 option outcome" where
  "get_spot_price reserve_in reserve_out =
     (if reserve_in = 0 then Ret None
      else
        let scale = u256_pow10 18
        in bindO (u256_div (reserve_out * scale) reserve_in) (\<lambda>q. Ret (Some q)))"

definition calculate_profit :: "u256 \<Rightarrow> u256 \<Rightarrow> u256 \<Rightarrow> u256 \<Rightarrow> u256 \<Rightarrow> u256 option outcome" where
  "calculate_profit amount_in reserve_a_in reserve_a_out reserve_b_in reserve_b_out =
     try_opt (get_amount_out amount_in reserve_a_in reserve_a_out) (\<lambda>mid_amount.
     try_opt (get_amount_out mid_amount reserve_b_in reserve_b_out) (\<lambda>final_out.
       if amount_in < final_out then Ret (Some (final_out - amount_in)) else Ret None))"

text \<open>
  The contract: Solidity 0.8 arithmetic reverts on overflow, \<open>None\<close> here.
\<close>

definition sol_mul :: "u256 \<Rightarrow> u256 \<Rightarrow> u256 option" where
  "sol_mul a b = (if unat a * unat b < 2 ^ 256 then Some (a * b) else None)"

definition sol_add :: "u256 \<Rightarrow> u256 \<Rightarrow> u256 option" where
  "sol_add a b = (if unat a + unat b < 2 ^ 256 then Some (a + b) else None)"

definition sol_getAmountOut :: "u256 \<Rightarrow> u256 \<Rightarrow> u256 \<Rightarrow> u256 option" where
  "sol_getAmountOut amountIn reserveIn reserveOut =
     (if \<not> (0 < reserveIn \<and> 0 < reserveOut) then None
      else do {
        amountInWithFee \<leftarrow> sol_mul amountIn 997;
        numerator \<leftarrow> sol_mul amountInWithFee reserveOut;
        scaled \<leftarrow> sol_mul reserveIn 1000;
        denominator \<leftarrow> sol_add scaled amountInWithFee;
        (if denominator = 0 then None else Some (numerator div denominator))
      })"

section \<open>The mathematical swap\<close>

definition swap_out :: "nat \<Rightarrow> nat \<Rightarrow> nat \<Rightarrow> nat" where
  "swap_out a x y = (997 * a * y) div (1000 * x + 997 * a)"

definition swap_fits :: "nat \<Rightarrow> nat \<Rightarrow> nat \<Rightarrow> bool" where
  "swap_fits a x y \<longleftrightarrow> 997 * a * y < 2 ^ 256 \<and> 1000 * x + 997 * a < 2 ^ 256"

lemma swap_fits_anti: "a \<le> b \<Longrightarrow> swap_fits b x y \<Longrightarrow> swap_fits a x y"
  unfolding swap_fits_def by (meson add_le_mono le_less_trans mult_le_mono order_refl)

lemma swap_out_le: "swap_out a x y * (1000 * x + 997 * a) \<le> 997 * a * y"
  unfolding swap_out_def by (rule div_times_less_eq_dividend)

lemma swap_out_below:
  assumes "0 < x" "0 < y"
  shows "swap_out a x y < y"
proof -
  have "997 * a * y < y * (1000 * x + 997 * a)" using assms by (simp add: algebra_simps)
  then show ?thesis
    unfolding swap_out_def by (subst div_less_iff_less_mult) (use assms in \<open>simp_all add: mult.commute\<close>)
qed

lemma swap_out_mono:
  assumes x: "0 < x" and y: "0 < y" and le: "a \<le> b"
  shows "swap_out a x y \<le> swap_out b x y"
proof -
  obtain c where b: "b = a + c" using le by (auto simp: le_iff_add)
  let ?o = "swap_out a x y"
  have "?o * (1000 * x + 997 * b) = ?o * (1000 * x + 997 * a) + 997 * c * ?o"
    by (simp add: b algebra_simps)
  also have "\<dots> \<le> 997 * a * y + 997 * c * y"
    using swap_out_le [of a x y] swap_out_below [OF x y, of a] by (intro add_mono mult_le_mono2) auto
  also have "\<dots> = 997 * b * y" by (simp add: b algebra_simps)
  finally show ?thesis
    unfolding swap_out_def [of b] using x by (subst less_eq_div_iff_mult_less_eq) simp_all
qed

lemma swap_product:
  assumes "0 < x" "0 < y"
  shows "x * y \<le> (x + a) * (y - swap_out a x y)"
proof -
  let ?o = "swap_out a x y"
  have o: "?o \<le> y" using swap_out_below [OF assms, of a] by simp
  have "1000 * (?o * (x + a)) = ?o * (1000 * x + 997 * a) + 3 * (a * ?o)" by (simp add: algebra_simps)
  also have "\<dots> \<le> 997 * a * y + 3 * (a * y)" using swap_out_le [of a x y] o by (intro add_mono) auto
  finally have "?o * (x + a) \<le> a * y" by simp
  then have "x * y + ?o * (x + a) \<le> (x + a) * y" by (simp add: algebra_simps)
  then show ?thesis by (simp add: diff_mult_distrib2 algebra_simps)
qed

lemma round_trip_gap:
  assumes gain: "a < swap_out (swap_out a xa ya) xb yb" and pos: "0 < xa" "0 < xb"
  shows "1000 * 1000 * (xa * xb) < 997 * 997 * (ya * yb)"
proof -
  let ?m = "swap_out a xa ya"
  let ?f = "swap_out ?m xb yb"
  have m: "?m * (1000 * xa) \<le> 997 * a * ya" using swap_out_le [of a xa ya] by (simp add: algebra_simps)
  have f: "?f * (1000 * xb) \<le> 997 * ?m * yb" using swap_out_le [of ?m xb yb] by (simp add: algebra_simps)
  have a: "0 < a" using gain by (cases "a = 0") (simp_all add: swap_out_def)
  have "a * (1000 * 1000 * (xa * xb)) < ?f * (1000 * 1000 * (xa * xb))" using gain pos by simp
  also have "\<dots> = (?f * (1000 * xb)) * (1000 * xa)" by (simp add: algebra_simps)
  also have "\<dots> \<le> (997 * ?m * yb) * (1000 * xa)" using f by (rule mult_le_mono1)
  also have "\<dots> = (?m * (1000 * xa)) * (997 * yb)" by (simp add: algebra_simps)
  also have "\<dots> \<le> (997 * a * ya) * (997 * yb)" using m by (rule mult_le_mono1)
  also have "\<dots> = a * (997 * 997 * (ya * yb))" by (simp add: algebra_simps)
  finally show ?thesis using a by simp
qed

section \<open>The word arithmetic computes the mathematical swap\<close>

lemma unat_mult_fits: "unat (a :: 'a::len word) * unat b < 2 ^ LENGTH('a) \<Longrightarrow> unat (a * b) = unat a * unat b"
  by (simp add: unat_word_ariths)

lemma unat_add_fits: "unat (a :: 'a::len word) + unat b < 2 ^ LENGTH('a) \<Longrightarrow> unat (a + b) = unat a + unat b"
  by (simp add: unat_word_ariths)

lemma word_div_nat: "(a :: 'a::len word) div b = word_of_nat (unat a div unat b)"
  by (simp flip: unat_div_distrib)

lemma swap_fits_words:
  assumes "swap_fits (unat a) (unat x) (unat y)" "x \<noteq> 0" "y \<noteq> (0::u256)"
  shows "unat (a * 997) = 997 * unat a"
    and "unat (a * 997 * y) = 997 * unat a * unat y"
    and "unat (x * 1000) = 1000 * unat x"
    and "unat (x * 1000 + a * 997) = 1000 * unat x + 997 * unat a"
    and "x * 1000 + a * 997 \<noteq> 0"
proof -
  have b: "1000 * unat x + 997 * unat a < 2 ^ 256" "997 * unat a * unat y < 2 ^ 256"
    using assms(1) by (simp_all add: swap_fits_def)
  show a: "unat (a * 997) = 997 * unat a" using b by (subst unat_mult_fits) simp_all
  show "unat (a * 997 * y) = 997 * unat a * unat y" using b a by (subst unat_mult_fits) simp_all
  show x: "unat (x * 1000) = 1000 * unat x" using b by (subst unat_mult_fits) simp_all
  show d: "unat (x * 1000 + a * 997) = 1000 * unat x + 997 * unat a"
    using b a x by (subst unat_add_fits) simp_all
  have "0 < unat x" using assms(2) by (simp add: unat_gt_0)
  then show "x * 1000 + a * 997 \<noteq> 0" using d by (metis add_is_0 mult_is_0 not_gr_zero unat_0 zero_neq_numeral)
qed

lemma get_amount_out_swap:
  assumes "swap_fits (unat a) (unat x) (unat y)" "x \<noteq> 0" "y \<noteq> 0"
  shows "get_amount_out a x y = Ret (Some (word_of_nat (swap_out (unat a) (unat x) (unat y))))"
proof -
  note W = swap_fits_words [OF assms]
  have "a * 997 * y div (x * 1000 + a * 997) = word_of_nat (swap_out (unat a) (unat x) (unat y))"
    by (simp add: word_div_nat swap_out_def flip: W(2,4))
  then show ?thesis
    using assms W(5) by (simp add: get_amount_out_def u256_div_def Let_def)
qed

lemma unat_swap_out:
  assumes "x \<noteq> 0" "y \<noteq> (0::u256)"
  shows "unat (word_of_nat (swap_out a (unat x) (unat y)) :: u256) = swap_out a (unat x) (unat y)"
proof -
  have "swap_out a (unat x) (unat y) < unat y"
    using assms by (intro swap_out_below) (simp_all add: unat_gt_0)
  then have "swap_out a (unat x) (unat y) < 2 ^ 256"
    using unsigned_less [of y, where 'a = nat] by simp
  then show ?thesis by (simp add: unsigned_of_nat take_bit_nat_eq_self)
qed

lemma uint112_fits: "a < 2 ^ 128 \<Longrightarrow> x < 2 ^ 112 \<Longrightarrow> y < 2 ^ 112 \<Longrightarrow> swap_fits a x y"
proof -
  assume "a < 2 ^ 128" "x < 2 ^ 112" "y < 2 ^ 112"
  then have "a * y \<le> 2 ^ 128 * 2 ^ 112" by (intro mult_le_mono) simp_all
  then show ?thesis
    using \<open>a < 2 ^ 128\<close> \<open>x < 2 ^ 112\<close> by (simp add: swap_fits_def)
qed

lemma pow10_loop_eq: "pow10_loop n v = v * 10 ^ n"
  by (induction n arbitrary: v) (simp_all add: mult.assoc)

lemma u256_pow10_eq: "u256_pow10 n = 10 ^ n"
  by (simp add: u256_pow10_def pow10_loop_eq)

lemma sol_getAmountOut_Some:
  assumes "sol_getAmountOut a x y = Some v"
  shows "swap_fits (unat a) (unat x) (unat y) \<and> x \<noteq> 0 \<and> y \<noteq> 0 \<and>
         v = word_of_nat (swap_out (unat a) (unat x) (unat y))"
proof -
  have nz: "x \<noteq> 0" "y \<noteq> 0"
    using assms by (auto simp: sol_getAmountOut_def word_gt_0 split: if_splits)
  have b: "unat a * 997 < 2 ^ 256" "unat (a * 997) * unat y < 2 ^ 256" "unat x * 1000 < 2 ^ 256"
      "unat (x * 1000) + unat (a * 997) < 2 ^ 256"
      and v: "v = a * 997 * y div (x * 1000 + a * 997)"
    using assms by (auto simp: sol_getAmountOut_def sol_mul_def sol_add_def split: if_splits bind_splits)
  have "unat (a * 997) = 997 * unat a" "unat (x * 1000) = 1000 * unat x"
    using b by (subst unat_mult_fits; simp)+
  then have fits: "swap_fits (unat a) (unat x) (unat y)" using b by (simp add: swap_fits_def mult.commute)
  note W = swap_fits_words [OF fits nz]
  have "v = word_of_nat (swap_out (unat a) (unat x) (unat y))"
    by (simp add: v word_div_nat swap_out_def flip: W(2,4))
  with fits nz show ?thesis by simp
qed

section \<open>Properties\<close>



text \<open>
  A larger input never buys less: the quote is monotone in the amount (within the range in
  which the words do not wrap).
\<close>

theorem get_amount_out_mono:
  assumes "a \<le> b" "swap_fits (unat b) (unat x) (unat y)" "x \<noteq> 0" "y \<noteq> 0"
  shows "\<exists>p q. get_amount_out a x y = Ret (Some p) \<and> get_amount_out b x y = Ret (Some q) \<and> p \<le> q"
proof -
  have ab: "unat a \<le> unat b" using assms(1) by (simp add: word_le_nat_alt)
  then have fa: "swap_fits (unat a) (unat x) (unat y)"
    using assms(2) by (rule swap_fits_anti)
  have "swap_out (unat a) (unat x) (unat y) \<le> swap_out (unat b) (unat x) (unat y)"
    using assms ab by (intro swap_out_mono) (simp_all add: unat_gt_0)
  then show ?thesis
    using get_amount_out_swap [OF fa assms(3,4)] get_amount_out_swap [OF assms(2-4)]
    by (simp add: word_le_nat_alt unat_swap_out assms)
qed

theorem get_amount_out_mono_witness:
  "\<exists>p q. get_amount_out 100 10000 20000 = Ret (Some p) \<and> get_amount_out 200 10000 20000 = Ret (Some q) \<and> p \<le> q"
  by (rule get_amount_out_mono) (simp_all add: swap_fits_def)

lemma calculate_profit_Some:
  assumes "calculate_profit a xa ya xb yb = Ret (Some p)"
    and "swap_fits (unat a) (unat xa) (unat ya)"
    and "swap_fits (swap_out (unat a) (unat xa) (unat ya)) (unat xb) (unat yb)"
  shows "xa \<noteq> 0 \<and> ya \<noteq> 0 \<and> xb \<noteq> 0 \<and> yb \<noteq> 0 \<and>
    unat p = swap_out (swap_out (unat a) (unat xa) (unat ya)) (unat xb) (unat yb) - unat a \<and>
    unat a < swap_out (swap_out (unat a) (unat xa) (unat ya)) (unat xb) (unat yb)"
proof -
  from assms(1) have nz: "xa \<noteq> 0" "ya \<noteq> 0" "xb \<noteq> 0" "yb \<noteq> 0"
    by (auto simp: calculate_profit_def try_opt_Some_iff get_amount_out_def split: if_splits)
  let ?m = "swap_out (unat a) (unat xa) (unat ya)"
  let ?f = "swap_out ?m (unat xb) (unat yb)"
  have m: "get_amount_out a xa ya = Ret (Some (word_of_nat ?m))"
    by (rule get_amount_out_swap [OF assms(2) nz(1,2)])
  have um: "unat (word_of_nat ?m :: u256) = ?m" by (rule unat_swap_out [OF nz(1,2)])
  have f: "get_amount_out (word_of_nat ?m) xb yb = Ret (Some (word_of_nat ?f))"
    using get_amount_out_swap [of "word_of_nat ?m" xb yb] assms(3) nz(3,4) by (simp add: um)
  have uf: "unat (word_of_nat ?f :: u256) = ?f" by (rule unat_swap_out [OF nz(3,4)])
  from assms(1) have gain: "a < word_of_nat ?f" and p: "p = word_of_nat ?f - a"
    by (auto simp: calculate_profit_def m f split: if_splits)
  have "unat p = ?f - unat a" using gain by (simp add: p unat_sub less_imp_le uf)
  then show ?thesis using gain nz by (simp add: word_less_nat_alt uf)
qed

text \<open>
  A positive result of \<open>calculate_profit\<close> is exactly the surplus of the two chained swaps over
  the input, and it appears only when the two pools' prices differ by more than both fees:
  997^2 times the product of the out-reserves exceeds 1000^2 times the product of the in-reserves.
\<close>

theorem calculate_profit_gap:
  assumes "calculate_profit a xa ya xb yb = Ret (Some p)"
    and "swap_fits (unat a) (unat xa) (unat ya)"
    and "swap_fits (swap_out (unat a) (unat xa) (unat ya)) (unat xb) (unat yb)"
  shows "unat p = swap_out (swap_out (unat a) (unat xa) (unat ya)) (unat xb) (unat yb) - unat a \<and>
         0 < unat p \<and>
         1000 * 1000 * (unat xa * unat xb) < 997 * 997 * (unat ya * unat yb)"
  using calculate_profit_Some [OF assms] round_trip_gap [of "unat a" "unat xa" "unat ya" "unat xb" "unat yb"]
  by (simp add: unat_gt_0)

theorem calculate_profit_gap_witness:
  "\<exists>p. calculate_profit 100 10000 20000 10000 25000 = Ret (Some p) \<and> 0 < unat p \<and>
     1000 * 1000 * (unat (10000::u256) * unat (10000::u256)) < 997 * 997 * (unat (20000::u256) * unat (25000::u256))"
proof -
  have c: "calculate_profit 100 10000 20000 10000 25000 = Ret (Some 381)"
    by (simp add: calculate_profit_def get_amount_out_def u256_div_def)
  have "swap_fits (unat (100::u256)) (unat (10000::u256)) (unat (20000::u256))"
    by (simp add: swap_fits_def)
  moreover have "swap_fits (swap_out (unat (100::u256)) (unat (10000::u256)) (unat (20000::u256)))
      (unat (10000::u256)) (unat (25000::u256))"
    by (simp add: swap_fits_def swap_out_def)
  ultimately show ?thesis using calculate_profit_gap [OF c] c by blast
qed

lemma calculate_profit_total:
  assumes "swap_fits (unat a) (unat xa) (unat ya)"
    and "swap_fits (swap_out (unat a) (unat xa) (unat ya)) (unat xb) (unat yb)"
  shows "\<exists>r. calculate_profit a xa ya xb yb = Ret r"
proof (cases "xa = 0 \<or> ya = 0 \<or> xb = 0 \<or> yb = 0")
  case True
  then show ?thesis
    using get_amount_out_swap [OF assms(1)]
    by (cases "xa = 0 \<or> ya = 0") (auto simp: calculate_profit_def get_amount_out_def)
next
  case False
  then show ?thesis
    using get_amount_out_swap [OF assms(1)] unat_swap_out [of xa ya "unat a"] assms(2)
      get_amount_out_swap [of "word_of_nat (swap_out (unat a) (unat xa) (unat ya))" xb yb]
    by (simp add: calculate_profit_def)
qed

text \<open>
  Trading into a pool and back out of a pool at the same reserves is never reported as a
  profit, and the call returns (the general form of the unit test on equal prices).
\<close>

theorem calculate_profit_same_pool:
  assumes "swap_fits (unat a) (unat x) (unat y)"
    and "swap_fits (swap_out (unat a) (unat x) (unat y)) (unat y) (unat x)"
  shows "calculate_profit a x y y x = Ret None"
proof -
  obtain r where r: "calculate_profit a x y y x = Ret r"
    using calculate_profit_total [OF assms] by blast
  have "r = None"
  proof (rule ccontr)
    assume "r \<noteq> None"
    then obtain p where p: "calculate_profit a x y y x = Ret (Some p)" using r by auto
    from p have nz: "x \<noteq> 0" "y \<noteq> 0"
      by (auto simp: calculate_profit_def try_opt_Some_iff get_amount_out_def split: if_splits)
    have f: "get_amount_out (word_of_nat (swap_out (unat a) (unat x) (unat y))) y x =
        Ret (Some (word_of_nat (swap_out (swap_out (unat a) (unat x) (unat y)) (unat y) (unat x))))"
      using get_amount_out_swap [of "word_of_nat (swap_out (unat a) (unat x) (unat y))" y x] assms(2) nz
      by (simp add: unat_swap_out)
    have "unat a < swap_out (swap_out (unat a) (unat x) (unat y)) (unat y) (unat x)"
      using p get_amount_out_swap [OF assms(1) nz] f nz
      by (auto simp: calculate_profit_def word_less_nat_alt unat_swap_out split: if_splits)
    then have "1000 * 1000 * (unat x * unat y) < 997 * 997 * (unat y * unat x)"
      using nz by (intro round_trip_gap) (simp_all add: unat_gt_0)
    then show False by (simp add: mult.commute)
  qed
  then show ?thesis using r by simp
qed

theorem calculate_profit_same_pool_witness: "calculate_profit 1000 10000 10000 10000 10000 = Ret None"
  by (rule calculate_profit_same_pool) (simp_all add: swap_fits_def swap_out_def)

text \<open>
  C2: whenever the contract's \<^verbatim>\<open>_getAmountOut\<close> returns, the bot's quote is the same number: the
  off-chain estimate and the on-chain computation agree on every swap that does not revert.
\<close>

theorem bot_quote_matches_contract:
  assumes "sol_getAmountOut a x y = Some v"
  shows "get_amount_out a x y = Ret (Some v)"
  using sol_getAmountOut_Some [OF assms] by (simp add: get_amount_out_swap)

theorem bot_quote_matches_contract_witness: "get_amount_out 100 10000 20000 = Ret (Some 197)"
  by (rule bot_quote_matches_contract) (simp add: sol_getAmountOut_def sol_mul_def sol_add_def word_gt_0)


text \<open>
  The spot price is the out-reserve scaled by 10^18 and divided by the in-reserve, rounded
  down, whenever the scaled reserve fits 256 bits; a zero in-reserve gives no price.
\<close>

theorem get_spot_price_exact:
  assumes "unat y * 10 ^ 18 < 2 ^ 256"
  shows "get_spot_price x y =
    Ret (if x = 0 then None else Some (word_of_nat (unat y * 10 ^ 18 div unat x)))"
proof -
  have "unat (y * 10 ^ 18) = unat y * 10 ^ 18"
    using assms by (subst unat_mult_fits) (simp_all)
  then show ?thesis
    by (simp add: get_spot_price_def u256_div_def u256_pow10_eq Let_def word_div_nat)
qed

theorem get_spot_price_exact_witness: "get_spot_price 2 3 = Ret (Some 1500000000000000000)"
  using get_spot_price_exact [of 3 2] by simp

end
