(* ===== verification/Alloy_Lib.thy ===== *)
theory Alloy_Lib
  imports Zelvex_Types
begin

text \<open>
  The functions of \<^verbatim>\<open>alloy-primitives\<close> that the code calls to move between bytes, text and
  numbers. They are not part of the repository: a value of the record \<open>alloy\<close> is an argument of
  every definition that uses one of them, and the predicates below state the documented behaviour
  the code relies on. \<open>alloy_ref\<close> is a concrete instance that has all of it.
\<close>

record alloy =
  from_be_slice :: "bytes \<Rightarrow> u256"
  u256_to_string :: "u256 \<Rightarrow> string"
  u256_from_str_radix :: "string \<Rightarrow> nat \<Rightarrow> u256 option"
  address_hex :: "address \<Rightarrow> string"
  address_parse :: "string \<Rightarrow> address option"
  b256_hex :: "b256 \<Rightarrow> string"
  b256_parse :: "string \<Rightarrow> b256 option"

section \<open>Printing and parsing as an interface\<close>

locale text_codec =
  fixes print :: "'a \<Rightarrow> string"
    and parse :: "string \<Rightarrow> 'a option"
  assumes parse_print: "parse (print x) = Some x"
begin

lemma print_inj: "print x = print y \<longleftrightarrow> x = y"
  by (metis option.inject parse_print)

lemma parse_all: "map parse (map print xs) = map Some xs"
  by (simp add: parse_print)

end

interpretation u64_text: text_codec "\<lambda>w :: u64. dec_string (unat w)" parse_u64
  by unfold_locales simp

section \<open>Big-endian bytes\<close>

definition be_value :: "bytes \<Rightarrow> nat" where
  "be_value bs = foldl (\<lambda>a b. 256 * a + unat b) 0 bs"

fun be_bytes :: "nat \<Rightarrow> nat \<Rightarrow> bytes" where
  "be_bytes 0 n = []"
| "be_bytes (Suc k) n = be_bytes k (n div 256) @ [word_of_nat (n mod 256)]"

lemma length_be_bytes [simp]: "length (be_bytes k n) = k"
  by (induction k arbitrary: n) simp_all

lemma be_value_snoc: "be_value (bs @ [b]) = 256 * be_value bs + unat b"
  by (simp add: be_value_def)

lemma be_value_be_bytes: "be_value (be_bytes k n) = n mod 256 ^ k"
proof (induction k arbitrary: n)
  case 0
  then show ?case by (simp add: be_value_def)
next
  case (Suc k)
  have "unat (word_of_nat (n mod 256) :: u8) = n mod 256"
    by (simp add: unsigned_of_nat take_bit_nat_def)
  then have "be_value (be_bytes (Suc k) n) = 256 * (n div 256 mod 256 ^ k) + n mod 256"
    by (simp add: be_value_snoc Suc.IH)
  also have "\<dots> = n mod (256 * 256 ^ k)" by (subst mod_mult2_eq) simp
  finally show ?case by simp
qed

section \<open>Documented behaviour\<close>

definition be_slice_ok :: "alloy \<Rightarrow> bool" where
  "be_slice_ok L \<longleftrightarrow> (\<forall>bs. length bs = 32 \<longrightarrow> from_be_slice L bs = word_of_nat (be_value bs))"

definition u256_text_ok :: "alloy \<Rightarrow> bool" where
  "u256_text_ok L \<longleftrightarrow>
     (\<forall>v. u256_to_string L v = dec_string (unat v)) \<and>
     (\<forall>v. u256_from_str_radix L (dec_string (unat v)) 10 = Some v)"

definition address_text_ok :: "alloy \<Rightarrow> bool" where
  "address_text_ok L \<longleftrightarrow> (\<forall>a. address_parse L (address_hex L a) = Some a)"

definition b256_text_ok :: "alloy \<Rightarrow> bool" where
  "b256_text_ok L \<longleftrightarrow> (\<forall>h. b256_parse L (b256_hex L h) = Some h)"

section \<open>A concrete instance\<close>

fun hex_digits :: "nat \<Rightarrow> nat \<Rightarrow> string" where
  "hex_digits 0 n = []"
| "hex_digits (Suc k) n = hex_digits k (n div 16) @ [digit_char (n mod 16)]"

definition hex_val :: "char \<Rightarrow> nat" where
  "hex_val c = (let n = of_char c in if n \<le> 57 then n - 48 else n - 87)"

definition hex_value :: "string \<Rightarrow> nat" where
  "hex_value s = foldl (\<lambda>a c. 16 * a + hex_val c) 0 s"

lemma hex_val_digit: "d < 16 \<Longrightarrow> hex_val (digit_char d) = d"
proof -
  assume "d < 16"
  then have "(of_char (digit_char d) :: nat) = (if d < 10 then 48 + d else 87 + d)"
    by (simp add: digit_char_def)
  then show ?thesis using \<open>d < 16\<close> by (simp add: hex_val_def Let_def)
qed

lemma hex_value_digits: "hex_value (hex_digits k n) = n mod 16 ^ k"
proof (induction k arbitrary: n)
  case 0
  then show ?case by (simp add: hex_value_def)
next
  case (Suc k)
  have "hex_value (hex_digits (Suc k) n) = 16 * (n div 16 mod 16 ^ k) + n mod 16"
    using Suc.IH [of "n div 16"] by (simp add: hex_value_def hex_val_digit)
  also have "\<dots> = n mod (16 * 16 ^ k)" by (subst mod_mult2_eq) simp
  finally show ?case by simp
qed

definition alloy_ref :: alloy where
  "alloy_ref = \<lparr>
     from_be_slice = (\<lambda>bs. word_of_nat (be_value bs)),
     u256_to_string = (\<lambda>v. dec_string (unat v)),
     u256_from_str_radix = (\<lambda>s r. map_option word_of_nat (parse_dec s)),
     address_hex = (\<lambda>a. ''0x'' @ hex_digits 40 (unat a)),
     address_parse = (\<lambda>s. Some (word_of_nat (hex_value (drop 2 s)))),
     b256_hex = (\<lambda>h. ''0x'' @ hex_digits 64 (unat h)),
     b256_parse = (\<lambda>s. Some (word_of_nat (hex_value (drop 2 s))))\<rparr>"

lemma hex_roundtrip:
  "word_of_nat (hex_value (hex_digits 40 (unat a))) = (a :: address)"
  "word_of_nat (hex_value (hex_digits 64 (unat h))) = (h :: b256)"
proof -
  have "unat a < 16 ^ 40" using unsigned_less [of a, where 'a = nat] by simp
  then show "word_of_nat (hex_value (hex_digits 40 (unat a))) = a" by (simp add: hex_value_digits)
  have "unat h < 16 ^ 64" using unsigned_less [of h, where 'a = nat] by simp
  then show "word_of_nat (hex_value (hex_digits 64 (unat h))) = h" by (simp add: hex_value_digits)
qed

lemma alloy_ref_ok [simp]:
  "be_slice_ok alloy_ref" "u256_text_ok alloy_ref" "address_text_ok alloy_ref" "b256_text_ok alloy_ref"
  by (simp_all add: alloy_ref_def be_slice_ok_def u256_text_ok_def address_text_ok_def b256_text_ok_def
      hex_roundtrip)

end
