(* ===== verification/Retry.thy ===== *)
theory Retry
  imports Zelvex_Prelude
begin

text \<open>
  The reconnect loop that \<^verbatim>\<open>run_sync_subscription\<close> and \<^verbatim>\<open>run_gas_sampler\<close> share: run a session,
  and on an error sleep and try again with a doubled delay, up to ten sessions.
\<close>

text \<open>A \<open>Duration\<close> is a number of nanoseconds, at most \<open>Duration::MAX\<close>.\<close>

definition duration_max :: nat where
  "duration_max = (2 ^ 64 - 1) * 10 ^ 9 + 999999999"

definition duration_secs :: "nat \<Rightarrow> nat" where
  "duration_secs s = s * 10 ^ 9"

definition saturating_mul_duration :: "nat \<Rightarrow> nat \<Rightarrow> nat" where
  "saturating_mul_duration d k = min (d * k) duration_max"

text \<open>
  \<open>retry once attempts backoff s\<close>: \<open>once i\<close> is the session of attempt \<open>i\<close>. The result holds the final
  \<open>Ok\<close> or \<open>Err\<close>, the state, and the sleeps that were made, in order.
\<close>

function retry :: "(nat \<Rightarrow> ('s, 'e, 'a) io) \<Rightarrow> nat \<Rightarrow> nat \<Rightarrow> 's \<Rightarrow> ('e + 'a) \<times> 's \<times> nat list" where
  "retry once attempts backoff s =
     (case once attempts s of
        (Inr a, s') \<Rightarrow> (Inr a, s', [])
      | (Inl e, s') \<Rightarrow>
          (if 10 \<le> attempts + 1 then (Inl e, s', [])
           else case retry once (attempts + 1) (saturating_mul_duration backoff 2) s' of
                  (r, s'', sleeps) \<Rightarrow> (r, s'', backoff # sleeps)))"
  by pat_completeness auto
termination
  by (relation "measure (\<lambda>(once, attempts, backoff, s). 10 - attempts)") auto

declare retry.simps [simp del]

text \<open>The state after \<open>n\<close> failing sessions, and the error of the last one.\<close>

fun retry_states :: "(nat \<Rightarrow> ('s, 'e, 'a) io) \<Rightarrow> nat \<Rightarrow> nat \<Rightarrow> 's \<Rightarrow> 's" where
  "retry_states once i 0 s = s"
| "retry_states once i (Suc n) s = retry_states once (Suc i) n (snd (once i s))"

lemma retry_states_Suc: "retry_states once j (Suc n) s = snd (once (j + n) (retry_states once j n s))"
  by (induction n arbitrary: j s) simp_all

lemma retry_sleeps:
  assumes "retry once attempts backoff s = (r, t, sleeps)" "attempts < 10"
  shows "length sleeps \<le> 9 - attempts \<and>
    (\<forall>i < length sleeps. backoff * 2 ^ i \<le> duration_max \<longrightarrow> sleeps ! i = backoff * 2 ^ i)"
  using assms
proof (induction once attempts backoff s arbitrary: r t sleeps rule: retry.induct)
  case (1 once attempts backoff s)
  show ?case
  proof (cases "once attempts s")
    case (Pair res s')
    show ?thesis
    proof (cases res)
      case (Inr a)
      then show ?thesis using "1.prems" Pair by (simp add: retry.simps [of once attempts])
    next
      case (Inl e)
      show ?thesis
      proof (cases "10 \<le> attempts + 1")
        case True
        then show ?thesis using "1.prems" Pair Inl by (simp add: retry.simps [of once attempts])
      next
        case False
        obtain r' t' sl where rec:
          "retry once (attempts + 1) (saturating_mul_duration backoff 2) s' = (r', t', sl)"
          by (metis prod_cases3)
        have sleeps: "sleeps = backoff # sl"
          using "1.prems" Pair Inl False rec by (simp add: retry.simps [of once attempts])
        note IH = "1.IH" [OF Pair [unfolded Inl, symmetric] refl False rec]
        have "length sl \<le> 9 - (attempts + 1)" using IH False by simp
        moreover have "sleeps ! i = backoff * 2 ^ i"
          if i: "i < length sleeps" "backoff * 2 ^ i \<le> duration_max" for i
        proof (cases i)
          case 0
          then show ?thesis by (simp add: sleeps)
        next
          case (Suc j)
          have "backoff * 2 \<le> backoff * 2 ^ i" by (simp add: Suc)
          then have sat: "saturating_mul_duration backoff 2 = backoff * 2"
            using i(2) unfolding saturating_mul_duration_def by (intro min_absorb1) (rule le_trans)
          then show ?thesis using IH i Suc False by (simp add: sleeps)
        qed
        ultimately show ?thesis using False by (auto simp: sleeps)
      qed
    qed
  qed
qed

text \<open>When every session fails, the loop stops after the tenth with that session's error.\<close>

lemma retry_all_fail:
  assumes fail: "\<And>i s. \<exists>e. fst (once i s) = Inl e" and "attempts + k = 9"
  shows "\<exists>sleeps. retry once attempts backoff s =
    (fst (once 9 (retry_states once attempts k s)), snd (once 9 (retry_states once attempts k s)), sleeps) \<and>
    length sleeps = k"
  using assms(2)
proof (induction k arbitrary: attempts backoff s)
  case 0
  obtain e s' where "once 9 s = (Inl e, s')" using fail [of 9 s] by (metis prod.collapse)
  then show ?case using 0 by (simp add: retry.simps [of once 9])
next
  case (Suc k)
  obtain e s' where o: "once attempts s = (Inl e, s')" using fail [of attempts s] by (metis prod.collapse)
  have "Suc attempts + k = 9" using Suc.prems by simp
  from Suc.IH [OF this, of "saturating_mul_duration backoff 2" s'] obtain sl where
    "retry once (Suc attempts) (saturating_mul_duration backoff 2) s' =
      (fst (once 9 (retry_states once (Suc attempts) k s')),
       snd (once 9 (retry_states once (Suc attempts) k s')), sl)" "length sl = k" by blast
  then show ?case using o Suc.prems by (simp add: retry.simps [of once attempts])
qed

text \<open>The ten-session run from a one-second delay: nine sleeps of 1, 2, 4, ..., 256 seconds.\<close>

lemma retry_schedule:
  assumes fail: "\<And>i s. \<exists>e. fst (once i s) = Inl e"
  shows "retry once 0 (duration_secs 1) s =
    (fst (once 9 (retry_states once 0 9 s)), retry_states once 0 10 s,
     map (\<lambda>i. duration_secs (2 ^ i)) [0..<9])"
proof -
  obtain sl where sl: "retry once 0 (duration_secs 1) s =
      (fst (once 9 (retry_states once 0 9 s)), snd (once 9 (retry_states once 0 9 s)), sl)" "length sl = 9"
    using retry_all_fail [where once = once and attempts = 0 and k = 9 and backoff = "duration_secs 1" and s = s, OF fail]
    by auto
  have "sl ! i = duration_secs (2 ^ i)" if "i < 9" for i
  proof -
    have "(2::nat) ^ i \<le> 2 ^ 9" using that by (intro power_increasing) auto
    then have "duration_secs 1 * 2 ^ i \<le> duration_max" by (simp add: duration_secs_def duration_max_def)
    then show ?thesis using retry_sleeps [OF sl(1)] sl(2) that by (simp add: duration_secs_def)
  qed
  then have "sl = map (\<lambda>i. duration_secs (2 ^ i)) [0..<9]"
    using sl(2) by (intro nth_equalityI) simp_all
  moreover have "retry_states once 0 10 s = snd (once 9 (retry_states once 0 9 s))"
    using retry_states_Suc [of once 0 9 s] by simp
  ultimately show ?thesis using sl(1) by simp
qed

end
