(* ===== verification/Pool_Store.thy ===== *)
theory Pool_Store
  imports Alloy_Lib Retry
begin

text \<open>
  The pool store and the Sync-event subscription: \<^verbatim>\<open>zelvex-core/src/sync.rs\<close>,
  \<^verbatim>\<open>sync_subscriber.rs\<close> and \<^verbatim>\<open>node.rs\<close>. A log is the part of alloy's \<open>Log\<close> the code reads. The
  websocket's answers (connection, subscription, the logs the stream yields before it ends) are
  arguments; so is \<open>try_send\<close> of the bounded update channel.
\<close>

section \<open>sync.rs\<close>

definition SYNC_TOPIC :: b256 where
  "SYNC_TOPIC = 0x1c411e9a96e071241c2f21f7726b17ae89e3cab4c78be50e062b03a9fffbbad1"

record log =
  log_address :: address
  log_topics :: "b256 list"
  log_data :: bytes
  log_block_number :: "u64 option"

definition decode_sync_reserves :: "alloy \<Rightarrow> bytes \<Rightarrow> (u256 \<times> u256) option" where
  "decode_sync_reserves L data =
     (if length data \<noteq> 64 then None
      else Some (from_be_slice L (take 32 data), from_be_slice L (take 32 (drop 32 data))))"

definition decode_sync_log :: "alloy \<Rightarrow> log \<Rightarrow> (address \<times> u256 \<times> u256 \<times> u64) option" where
  "decode_sync_log L lg =
     (case log_topics lg of
        [] \<Rightarrow> None
      | topic0 # _ \<Rightarrow>
          if topic0 \<noteq> SYNC_TOPIC then None
          else
            let block_number = (case log_block_number lg of None \<Rightarrow> 0 | Some b \<Rightarrow> b)
            in case decode_sync_reserves L (log_data lg) of
                 None \<Rightarrow> None
               | Some (r0, r1) \<Rightarrow> Some (log_address lg, r0, r1, block_number))"

record pool_store =
  pools :: "address \<rightharpoonup> pool"

definition PoolStore_new :: pool_store where
  "PoolStore_new = \<lparr>pools = Map.empty\<rparr>"

definition upsert_pool :: "pool \<Rightarrow> pool_store \<Rightarrow> pool_store" where
  "upsert_pool p st = st\<lparr>pools := (pools st)(pool_address p \<mapsto> p)\<rparr>"

definition apply_sync :: "address \<Rightarrow> u256 \<Rightarrow> u256 \<Rightarrow> u64 \<Rightarrow> pool_store \<Rightarrow> pool_store" where
  "apply_sync a r0 r1 block st =
     (case pools st a of
        None \<Rightarrow> st
      | Some p \<Rightarrow>
          st\<lparr>pools := (pools st)(a \<mapsto> p\<lparr>reserve0 := r0, reserve1 := r1, block_updated := block\<rparr>)\<rparr>)"

definition store_get :: "pool_store \<Rightarrow> address \<Rightarrow> pool option" where
  "store_get st a = pools st a"

section \<open>sync_subscriber.rs\<close>

datatype node_error = ConnectionFailed string

text \<open>One log taken from the stream: the body of the \<open>while let\<close> loop.\<close>

definition sync_event :: "alloy \<Rightarrow> ('c \<Rightarrow> 'c) \<Rightarrow> log \<Rightarrow> pool_store \<times> 'c \<Rightarrow> pool_store \<times> 'c" where
  "sync_event L try_send lg s =
     (case decode_sync_log L lg of
        None \<Rightarrow> s
      | Some (a, r0, r1, block) \<Rightarrow> (apply_sync a r0 r1 block (fst s), try_send (snd s)))"

fun sync_events :: "alloy \<Rightarrow> ('c \<Rightarrow> 'c) \<Rightarrow> log list \<Rightarrow> pool_store \<times> 'c \<Rightarrow> pool_store \<times> 'c" where
  "sync_events L try_send [] s = s"
| "sync_events L try_send (lg # lgs) s = sync_events L try_send lgs (sync_event L try_send lg s)"

text \<open>A websocket session: what connecting, subscribing and reading the stream give.\<close>

record 'a ws_session =
  ws_connect :: "string + unit"
  ws_subscribe :: "string + unit"
  ws_stream :: "'a list"

definition subscribe_sync_events ::
  "alloy \<Rightarrow> ('c \<Rightarrow> 'c) \<Rightarrow> log ws_session \<Rightarrow> (pool_store \<times> 'c, node_error, unit) io" where
  "subscribe_sync_events L try_send ws s =
     (case ws_connect ws of
        Inl e \<Rightarrow> (Inl (ConnectionFailed e), s)
      | Inr _ \<Rightarrow>
          (case ws_subscribe ws of
             Inl e \<Rightarrow> (Inl (ConnectionFailed e), s)
           | Inr _ \<Rightarrow>
               (Inl (ConnectionFailed ''subscription ended''),
                sync_events L try_send (ws_stream ws) s)))"

definition run_sync_subscription ::
  "alloy \<Rightarrow> ('c \<Rightarrow> 'c) \<Rightarrow> (nat \<Rightarrow> log ws_session) \<Rightarrow> pool_store \<times> 'c \<Rightarrow>
     (node_error + unit) \<times> (pool_store \<times> 'c) \<times> nat list" where
  "run_sync_subscription L try_send ws s =
     retry (\<lambda>i. subscribe_sync_events L try_send (ws i)) 0 (duration_secs 1) s"

definition WETH :: address where "WETH = 0xC02aaA39b223FE8D0A0e5C4F27eAD9083C756Cc2"
definition USDC :: address where "USDC = 0xA0b86991c6218b36c1d19D4a2e9Eb0cE3606eB48"
definition DAI :: address where "DAI = 0x6B175474E89094C44Da98b954EedeAC495271d0F"

definition default_test_pools :: "address list" where
  "default_test_pools =
     [0xB4e16d0168e52d35CaCD2c6185b44281Ec28C9Dc,
      0xA478c2975Ab1Ea89e8196811F51A7B7Ade33eB11,
      0x397FF1542f962076d0BFE58eA045FfA2d347ACa0,
      0xC3D03e4F041Fd4cD388c549Ee2A29a9E5075882f]"

definition default_test_pool_metadata :: "pool list" where
  "default_test_pool_metadata =
     map (\<lambda>a.
       let (t0, t1) =
         (if a = 0xA478c2975Ab1Ea89e8196811F51A7B7Ade33eB11 then (DAI, WETH)
          else if a = 0xC3D03e4F041Fd4cD388c549Ee2A29a9E5075882f then (DAI, WETH)
          else (USDC, WETH))
       in \<lparr>pool_address = a, token0 = t0, token1 = t1, reserve0 = 0, reserve1 = 0, block_updated = 0\<rparr>)
     default_test_pools"

section \<open>node.rs\<close>

record block_header =
  bh_number :: u64
  bh_timestamp :: u64
  bh_base_fee_per_gas :: "u128 option"

definition get_next_head :: "block_header ws_session \<Rightarrow> node_error + (u64 \<times> u64 \<times> u128 option)" where
  "get_next_head ws =
     (case ws_connect ws of
        Inl e \<Rightarrow> Inl (ConnectionFailed e)
      | Inr _ \<Rightarrow>
          (case ws_subscribe ws of
             Inl e \<Rightarrow> Inl (ConnectionFailed e)
           | Inr _ \<Rightarrow>
               (case ws_stream ws of
                  [] \<Rightarrow> Inl (ConnectionFailed ''subscription ended'')
                | h # _ \<Rightarrow> Inr (bh_number h, bh_timestamp h, bh_base_fee_per_gas h))))"

section \<open>The store as a keyed collection\<close>

text \<open>
  What the scanner relies on: looking a pool up after an insert or a Sync event. An event changes
  the reserves and the block of a pool that is there and nothing else; it never adds a pool.
\<close>

locale reserve_store =
  fixes empty :: 's
    and put :: "pool \<Rightarrow> 's \<Rightarrow> 's"
    and sync :: "address \<Rightarrow> u256 \<Rightarrow> u256 \<Rightarrow> u64 \<Rightarrow> 's \<Rightarrow> 's"
    and look :: "'s \<Rightarrow> address \<Rightarrow> pool option"
  assumes look_empty: "look empty a = None"
    and look_put: "look (put p s) a = (if a = pool_address p then Some p else look s a)"
    and look_sync: "look (sync b r0 r1 blk s) a =
      (if a = b then map_option (\<lambda>p. p\<lparr>reserve0 := r0, reserve1 := r1, block_updated := blk\<rparr>) (look s a)
       else look s a)"
begin

definition keyed :: "'s \<Rightarrow> bool" where
  "keyed s \<longleftrightarrow> (\<forall>a p. look s a = Some p \<longrightarrow> pool_address p = a)"

lemma keyed_empty: "keyed empty"
  by (simp add: keyed_def look_empty)

lemma keyed_put: "keyed s \<Longrightarrow> keyed (put p s)"
  by (simp add: keyed_def look_put)

lemma keyed_sync: "keyed s \<Longrightarrow> keyed (sync b r0 r1 blk s)"
  by (auto simp: keyed_def look_sync)

lemma sync_known: "look (sync b r0 r1 blk s) a = None \<longleftrightarrow> look s a = None"
  by (simp add: look_sync)

lemma sync_last_wins: "look (sync b r0 r1 blk (sync b q0 q1 bl s)) a = look (sync b r0 r1 blk s) a"
  by (cases "look s a") (auto simp: look_sync)

lemma sync_commute:
  "a \<noteq> b \<Longrightarrow> look (sync a r0 r1 blk (sync b q0 q1 bl s)) c = look (sync b q0 q1 bl (sync a r0 r1 blk s)) c"
  by (auto simp: look_sync)

lemma look_fold_put:
  "look (fold put ps s) a =
     (case find (\<lambda>p. pool_address p = a) (rev ps) of None \<Rightarrow> look s a | Some p \<Rightarrow> Some p)"
  by (induction ps rule: rev_induct) (auto simp: look_put)

lemma keyed_fold_put: "keyed s \<Longrightarrow> keyed (fold put ps s)"
  by (induction ps arbitrary: s) (simp_all add: keyed_put)

end

interpretation store: reserve_store PoolStore_new upsert_pool apply_sync store_get
  by unfold_locales
    (auto simp: PoolStore_new_def upsert_pool_def apply_sync_def store_get_def split: option.splits)

section \<open>What a stream of logs does to the store\<close>

text \<open>The last Sync event of a stream for a pool, in stream order.\<close>

fun last_sync :: "alloy \<Rightarrow> log list \<Rightarrow> address \<Rightarrow> (u256 \<times> u256 \<times> u64) option" where
  "last_sync L [] a = None"
| "last_sync L (lg # lgs) a =
     (case last_sync L lgs a of
        Some v \<Rightarrow> Some v
      | None \<Rightarrow>
          (case decode_sync_log L lg of
             None \<Rightarrow> None
           | Some (b, r0, r1, block) \<Rightarrow> if b = a then Some (r0, r1, block) else None))"

definition with_reserves :: "(u256 \<times> u256 \<times> u64) option \<Rightarrow> pool \<Rightarrow> pool" where
  "with_reserves v p = (case v of None \<Rightarrow> p
     | Some (r0, r1, block) \<Rightarrow> p\<lparr>reserve0 := r0, reserve1 := r1, block_updated := block\<rparr>)"

lemma with_reserves_fields [simp]:
  "pool_address (with_reserves v p) = pool_address p"
  "token0 (with_reserves v p) = token0 p" "token1 (with_reserves v p) = token1 p"
  by (auto simp: with_reserves_def split: option.splits prod.splits)

lemma sync_event_get:
  "store_get (fst (sync_event L ts lg s)) a =
     map_option (with_reserves (last_sync L [lg] a)) (store_get (fst s) a)"
  by (cases "store_get (fst s) a")
    (auto simp: sync_event_def store.look_sync with_reserves_def split: option.splits prod.splits)

lemma sync_events_get:
  "store_get (fst (sync_events L ts lgs s)) a =
     map_option (with_reserves (last_sync L lgs a)) (store_get (fst s) a)"
proof (induction lgs arbitrary: s)
  case Nil
  then show ?case by (cases "store_get (fst s) a") (simp_all add: with_reserves_def)
next
  case (Cons lg lgs)
  have "with_reserves (last_sync L lgs a) (with_reserves (last_sync L [lg] a) p) =
      with_reserves (last_sync L (lg # lgs) a) p" for p
    by (auto simp: with_reserves_def split: option.splits prod.splits)
  then show ?case
    by (simp add: Cons.IH sync_event_get option.map_comp comp_def)
qed

lemma sync_events_sends:
  "snd (sync_events L ts lgs s) = (ts ^^ length (filter (\<lambda>lg. decode_sync_log L lg \<noteq> None) lgs)) (snd s)"
proof (induction lgs arbitrary: s)
  case (Cons lg lgs)
  then show ?case
    by (cases "decode_sync_log L lg") (auto simp: sync_event_def funpow_swap1)
qed simp

lemma subscribe_always_fails: "\<exists>e. fst (subscribe_sync_events L ts ws s) = Inl e"
  by (auto simp: subscribe_sync_events_def split: sum.splits)

lemma subscribe_keeps_tokens:
  assumes "store_get (fst s) a = Some p"
  shows "\<exists>q. store_get (fst (snd (subscribe_sync_events L ts ws s))) a = Some q \<and>
     pool_address q = pool_address p \<and> token0 q = token0 p \<and> token1 q = token1 p"
  using assms by (auto simp: subscribe_sync_events_def sync_events_get split: sum.splits)

section \<open>Properties\<close>

text \<open>
  Decoding is the inverse of the ABI encoding of the two reserves as 32-byte big-endian words,
  and data of any other length than 64 bytes is rejected.
\<close>

theorem decode_sync_reserves_roundtrip:
  assumes "be_slice_ok L"
  shows "decode_sync_reserves L (be_bytes 32 (unat r0) @ be_bytes 32 (unat r1)) = Some (r0, r1) \<and>
         (\<forall>data. decode_sync_reserves L data = None \<longleftrightarrow> length data \<noteq> 64)"
proof -
  have "word_of_nat (be_value (be_bytes 32 (unat r))) = r" for r :: u256
  proof -
    have "unat r < 256 ^ 32" using unsigned_less [of r, where 'a = nat] by simp
    then show ?thesis by (simp add: be_value_be_bytes)
  qed
  then show ?thesis using assms by (simp add: decode_sync_reserves_def be_slice_ok_def)
qed

theorem decode_sync_reserves_roundtrip_witness:
  "decode_sync_reserves alloy_ref (be_bytes 32 (unat (123::u256)) @ be_bytes 32 (unat (456::u256))) = Some (123, 456) \<and>
   (\<forall>data. decode_sync_reserves alloy_ref data = None \<longleftrightarrow> length data \<noteq> 64)"
  by (rule decode_sync_reserves_roundtrip) simp

text \<open>
  C23: after any stream of logs the store holds, for every pool it knew, the reserves and block of
  the last Sync event for that pool (its old ones if there was none) with the same address and
  tokens; it knows no other pool; and the update channel was signalled once per decoded event.
\<close>

theorem sync_stream_refines:
  "store_get (fst (sync_events L ts lgs (st, c))) a =
     map_option (with_reserves (last_sync L lgs a)) (store_get st a) \<and>
   snd (sync_events L ts lgs (st, c)) =
     (ts ^^ length (filter (\<lambda>lg. decode_sync_log L lg \<noteq> None) lgs)) c"
  by (simp add: sync_events_get sync_events_sends)

text \<open>
  C28: the subscription task never ends with \<open>Ok\<close>: it runs exactly ten sessions, sleeps 1, 2, 4, ...,
  256 seconds between them, and returns the tenth session's error.
\<close>

theorem run_sync_subscription_ten_sessions:
  "\<exists>e st. run_sync_subscription L ts ws s = (Inl e, st, map (\<lambda>i. duration_secs (2 ^ i)) [0..<9]) \<and>
     st = retry_states (\<lambda>i. subscribe_sync_events L ts (ws i)) 0 10 s \<and>
     fst (subscribe_sync_events L ts (ws 9)
            (retry_states (\<lambda>i. subscribe_sync_events L ts (ws i)) 0 9 s)) = Inl e"
proof -
  have "\<exists>e. fst (subscribe_sync_events L ts (ws i) s) = Inl e" for i s
    by (rule subscribe_always_fails)
  then show ?thesis
    unfolding run_sync_subscription_def by (subst retry_schedule) auto
qed

text \<open>
  A store built by \<open>upsert_pool\<close> files every pool under its own address, and Sync events keep it
  so: the address a lookup is made with is the address of the pool it returns.
\<close>

theorem store_keyed:
  "store_get (fst (sync_events L ts lgs (fold upsert_pool ps PoolStore_new, c))) a = Some p \<Longrightarrow>
   pool_address p = a"
  using store.keyed_fold_put [OF store.keyed_empty, of ps]
  by (auto simp: sync_events_get store.keyed_def)

theorem store_keyed_witness:
  "\<exists>p. store_get (fst (sync_events alloy_ref (\<lambda>c. c) []
         (fold upsert_pool default_test_pool_metadata PoolStore_new, ()))) 0xA478c2975Ab1Ea89e8196811F51A7B7Ade33eB11
       = Some p \<and> pool_address p = 0xA478c2975Ab1Ea89e8196811F51A7B7Ade33eB11"
proof -
  obtain p where p: "store_get (fst (sync_events alloy_ref (\<lambda>c. c) []
         (fold upsert_pool default_test_pool_metadata PoolStore_new, ()))) 0xA478c2975Ab1Ea89e8196811F51A7B7Ade33eB11
       = Some p"
    by (simp add: store.look_put default_test_pool_metadata_def default_test_pools_def)
  then show ?thesis using store_keyed [OF p] by blast
qed

end
