(* ===== verification/Gas_Oracle.thy ===== *)
theory Gas_Oracle
  imports Zelvex_Types "HOL-Library.Multiset"
begin

text \<open>
  The gas oracle of \<^verbatim>\<open>zelvex-gas/src/lib.rs\<close>: two ring buffers of the last 100 samples, the last
  fees, a 90th-percentile priority fee over the last 20 samples, and the estimates derived from
  them in double arithmetic.
\<close>

section \<open>Definitions\<close>

record gas_oracle =
  base_fee_history_wei :: "u128 list"
  priority_fee_history_wei :: "u128 list"
  last_base_fee_wei :: u128
  last_priority_fee_wei :: u128

definition GasOracle_new :: gas_oracle where
  "GasOracle_new = \<lparr>base_fee_history_wei = [], priority_fee_history_wei = [],
     last_base_fee_wei = 0, last_priority_fee_wei = 0\<rparr>"

definition push_sample :: "u128 \<Rightarrow> u128 \<Rightarrow> gas_oracle \<Rightarrow> gas_oracle" where
  "push_sample base_fee_wei priority_fee_wei o1 =
     (let o2 = o1\<lparr>last_base_fee_wei := base_fee_wei, last_priority_fee_wei := priority_fee_wei\<rparr>;
          o3 = (if length (base_fee_history_wei o2) = 100
                then o2\<lparr>base_fee_history_wei := tl (base_fee_history_wei o2)\<rparr> else o2);
          o4 = (if length (priority_fee_history_wei o3) = 100
                then o3\<lparr>priority_fee_history_wei := tl (priority_fee_history_wei o3)\<rparr> else o3)
      in o4\<lparr>base_fee_history_wei := base_fee_history_wei o4 @ [base_fee_wei],
            priority_fee_history_wei := priority_fee_history_wei o4 @ [priority_fee_wei]\<rparr>)"

definition u128_to_u64_saturating :: "u128 \<Rightarrow> u64" where
  "u128_to_u64_saturating value = (if value > ucast (- 1 :: u64) then - 1 else ucast value)"

definition get_current_base_fee :: "gas_oracle \<Rightarrow> u64" where
  "get_current_base_fee o1 = u128_to_u64_saturating (last_base_fee_wei o1)"

text \<open>\<open>((n - 1) as f64 * 0.90).round() as usize\<close>\<close>

definition p90_index :: "nat \<Rightarrow> nat" where
  "p90_index n =
     f64_as_usize (f64_round_away (f64_mul (f64_of_int (int (n - 1))) (f64_round False 9 10)))"

definition get_recommended_priority_fee :: "gas_oracle \<Rightarrow> u64 outcome" where
  "get_recommended_priority_fee o1 =
     (let samples = take 20 (rev (priority_fee_history_wei o1))
      in if samples = [] then Ret (u128_to_u64_saturating (last_priority_fee_wei o1))
         else
           let sorted_samples = sort samples;
               idx = p90_index (length samples)
           in if idx < length sorted_samples
              then Ret (u128_to_u64_saturating (sorted_samples ! idx))
              else Panicked)"

definition u128_saturating_add :: "u128 \<Rightarrow> u128 \<Rightarrow> u128" where
  "u128_saturating_add a b = (if unat a + unat b < 2 ^ 128 then a + b else - 1)"

definition f64_of_word :: "'a::len word \<Rightarrow> f64" where
  "f64_of_word w = f64_of_int (uint w)"

definition get_current_gas_estimate :: "gas_oracle \<Rightarrow> gas_estimate outcome" where
  "get_current_gas_estimate o1 =
     bindO (get_recommended_priority_fee o1) (\<lambda>p.
       let priority_wei = (ucast p :: u128);
           total_wei = u128_saturating_add (last_base_fee_wei o1) priority_wei
       in Ret \<lparr>base_fee_gwei = f64_div (f64_of_word (last_base_fee_wei o1)) (f64_of_int 1000000000),
               priority_fee_gwei = f64_div (f64_of_word priority_wei) (f64_of_int 1000000000),
               recommended_total_gwei = f64_div (f64_of_word total_wei) (f64_of_int 1000000000)\<rparr>)"

definition estimate_gas_cost_usd :: "u64 \<Rightarrow> f64 \<Rightarrow> gas_oracle \<Rightarrow> f64 outcome" where
  "estimate_gas_cost_usd gas_units eth_price_usd o1 =
     bindO (get_recommended_priority_fee o1) (\<lambda>p.
       let priority_wei = (ucast p :: u128);
           total_wei = f64_of_word (u128_saturating_add (last_base_fee_wei o1) priority_wei);
           eth_cost = f64_div (f64_mul (f64_of_word gas_units) total_wei) (f64_of_int 1000000000000000000)
       in Ret (f64_mul eth_cost eth_price_usd))"

section \<open>The ring buffers keep the last 100 samples\<close>

text \<open>The abstract oracle is the list of all samples; \<open>oracle_of\<close> is what the code keeps of it.\<close>

definition oracle_of :: "(u128 \<times> u128) list \<Rightarrow> gas_oracle" where
  "oracle_of xs = \<lparr>base_fee_history_wei = lastn 100 (map fst xs),
     priority_fee_history_wei = lastn 100 (map snd xs),
     last_base_fee_wei = (if xs = [] then 0 else fst (last xs)),
     last_priority_fee_wei = (if xs = [] then 0 else snd (last xs))\<rparr>"

definition push_all :: "(u128 \<times> u128) list \<Rightarrow> gas_oracle \<Rightarrow> gas_oracle" where
  "push_all xs o1 = fold (\<lambda>(b, p). push_sample b p) xs o1"

lemma push_sample_oracle_of: "push_sample b p (oracle_of xs) = oracle_of (xs @ [(b, p)])"
  using lastn_snoc [of 100 "map fst xs" b] lastn_snoc [of 100 "map snd xs" p]
  by (simp add: push_sample_def oracle_of_def Let_def del: length_lastn)

lemma push_all_new: "push_all xs GasOracle_new = oracle_of xs"
proof (induction xs rule: rev_induct)
  case Nil
  then show ?case by (simp add: push_all_def GasOracle_new_def oracle_of_def)
next
  case (snoc x xs)
  then show ?case by (cases x) (simp add: push_all_def push_sample_oracle_of)
qed

section \<open>The percentile index\<close>

lemma p90_value: "1 \<le> n \<Longrightarrow> n \<le> 20 \<Longrightarrow> p90_index n = (9 * (n - 1) + 5) div 10"
proof -
  assume n: "1 \<le> n" "n \<le> 20"
  have "\<forall>k \<in> set [1..<21]. p90_index k = (9 * (k - 1) + 5) div 10" by code_simp
  then show ?thesis using n by simp
qed

lemma p90_bound: "1 \<le> n \<Longrightarrow> n \<le> 20 \<Longrightarrow> p90_index n < n"
  by (subst p90_value) linarith+

lemma sorted_nth_count_le:
  assumes "sorted xs" "i < length xs"
  shows "i < length (filter (\<lambda>x. x \<le> xs ! i) xs)"
proof -
  have "take (Suc i) xs = filter (\<lambda>x. x \<le> xs ! i) (take (Suc i) xs)"
    using assms by (intro filter_True [symmetric]) (auto simp: in_set_conv_nth sorted_nth_mono)
  moreover have "length (filter (\<lambda>x. x \<le> xs ! i) (take (Suc i) xs)) \<le> length (filter (\<lambda>x. x \<le> xs ! i) xs)"
    by (metis append_take_drop_id filter_append le_add1 length_append)
  ultimately show ?thesis using assms(2) by (metis Suc_le_eq length_take min.absorb2 Suc_leI)
qed

lemma filter_sort_length: "length (filter P (sort xs)) = length (filter P xs)"
  by (metis mset_filter mset_sort size_mset)

section \<open>The estimates\<close>

lemma recommended_total:
  "\<exists>r. get_recommended_priority_fee o1 = Ret r"
  using p90_bound [of "length (take 20 (rev (priority_fee_history_wei o1)))"]
  by (auto simp: get_recommended_priority_fee_def Let_def Suc_le_eq)

lemma u128_saturating_add_ge: "uint a \<le> uint (u128_saturating_add a b)" "uint b \<le> uint (u128_saturating_add a b)"
proof -
  have "unat a \<le> unat (u128_saturating_add a b) \<and> unat b \<le> unat (u128_saturating_add a b)"
  proof (cases "unat a + unat b < 2 ^ 128")
    case True
    then have "unat (a + b) = unat a + unat b" by (simp add: unat_word_ariths)
    then show ?thesis using True by (simp add: u128_saturating_add_def)
  next
    case False
    then have "u128_saturating_add a b = - 1" by (simp add: u128_saturating_add_def)
    moreover have "a \<le> - 1" "b \<le> - 1" by simp_all
    ultimately show ?thesis by (metis word_le_nat_alt)
  qed
  then show "uint a \<le> uint (u128_saturating_add a b)" "uint b \<le> uint (u128_saturating_add a b)"
    by (simp_all flip: word_le_def add: word_le_nat_alt)
qed

lemma gwei_divisor:
  "f64_wf (f64_of_int 1000000000)" "f64_is_finite (f64_of_int 1000000000)"
  "f64_val (f64_of_int 1000000000) = 1000000000"
proof -
  show w: "f64_wf (f64_of_int 1000000000)" using f64_of_int_correct by blast
  show v: "f64_val (f64_of_int 1000000000) = 1000000000" using f64_of_int_exact [of 1000000000] by simp
  have "f64_below 53 (f64_of_int 1000000000)" using f64_below_of_int [of 1000000000 53] by simp
  then show "f64_is_finite (f64_of_int 1000000000)" by (simp add: f64_below_def)
qed

lemma gwei_mono:
  "uint a \<le> uint b \<Longrightarrow>
   f64_le (f64_div (f64_of_word (a :: 'a::len word)) (f64_of_int 1000000000))
          (f64_div (f64_of_word (b :: 'b::len word)) (f64_of_int 1000000000))"
  using f64_of_int_correct gwei_divisor
  by (intro f64_div_mono) (auto simp: f64_of_word_def f64_of_int_mono)

lemma f64_below_u128: "f64_below 128 (f64_of_word (w :: u128))"
proof -
  have "\<bar>uint w\<bar> \<le> 2 ^ 128" using uint_lt2p [of w] by simp
  then show ?thesis using f64_below_of_int [of "uint w" 128] by (simp add: f64_of_word_def)
qed

section \<open>Properties\<close>

text \<open>
  C25: whatever the sequence of samples, the oracle holds exactly the last 100 base fees and the last
  100 priority fees, in order and aligned, and the fees of the last sample.
\<close>

theorem push_sample_keeps_last_100:
  "fold (\<lambda>(b, p). push_sample b p) xs GasOracle_new =
     \<lparr>base_fee_history_wei = lastn 100 (map fst xs),
      priority_fee_history_wei = lastn 100 (map snd xs),
      last_base_fee_wei = (if xs = [] then 0 else fst (last xs)),
      last_priority_fee_wei = (if xs = [] then 0 else snd (last xs))\<rparr>"
  using push_all_new [of xs] by (simp add: push_all_def oracle_of_def)



text \<open>
  C27: the gas estimate is always produced, its three figures are finite doubles, and the recommended
  total is at least the base fee and at least the priority fee, in spite of saturation and rounding.
\<close>

theorem gas_estimate_total_covers:
  "\<exists>g. get_current_gas_estimate o1 = Ret g \<and>
     f64_le (base_fee_gwei g) (recommended_total_gwei g) \<and>
     f64_le (priority_fee_gwei g) (recommended_total_gwei g) \<and>
     f64_is_finite (base_fee_gwei g) \<and> f64_is_finite (priority_fee_gwei g) \<and>
     f64_is_finite (recommended_total_gwei g)"
proof -
  obtain p where p: "get_recommended_priority_fee o1 = Ret p" using recommended_total by blast
  have fin: "f64_is_finite (f64_div (f64_of_word (w :: u128)) (f64_of_int 1000000000))" for w
    using f64_below_div [OF f64_below_u128 gwei_divisor(1,2), of w] gwei_divisor(3)
    by (simp add: f64_below_def)
  show ?thesis
    using gwei_mono [OF u128_saturating_add_ge(1)] gwei_mono [OF u128_saturating_add_ge(2)]
    by (simp add: get_current_gas_estimate_def p Let_def fin)
qed

end
