(* ===== verification/Database.thy ===== *)
theory Database
  imports Alloy_Lib "HOL-Library.Multiset"
begin

text \<open>
  The persistence layer of \<^verbatim>\<open>zelvex-db/src/lib.rs\<close> with the schema of its migrations. The database
  is a record of tables; each query helper is an operation on it with the meaning of its SQL
  statement under the schema's constraints (\<^verbatim>\<open>UNIQUE\<close>, \<^verbatim>\<open>CHECK\<close>, \<^verbatim>\<open>NOT NULL\<close>, \<^verbatim>\<open>REFERENCES\<close>,
  \<^verbatim>\<open>AUTOINCREMENT\<close>). What SQLite and sqlx decide themselves is the argument \<open>E\<close>: whether a statement
  fails for a reason outside the data, the clock, how \<^verbatim>\<open>SUM\<close> adds doubles, and the order of rows
  that \<^verbatim>\<open>ORDER BY\<close> leaves open.
\<close>

section \<open>Rows, tables, engine\<close>

datatype sqlx_error = SqlxDatabase string | SqlxOther string

datatype db_error =
    DbSqlx sqlx_error
  | InvalidU256 string
  | InvalidAddress string
  | InvalidTxHash string

record user =
  user_id :: i64
  username :: string
  password_hash :: string
  created_at :: i64

record trade_row =
  t_id :: i64
  t_tx_hash :: string
  t_route :: string
  t_pool_a :: string
  t_pool_b :: string
  t_input_amount :: string
  t_output_amount :: "string option"
  t_gross_profit :: "string option"
  t_gas_cost_usd :: f64
  t_net_profit_usd :: "f64 option"
  t_gas_used :: "i64 option"
  t_status :: string
  t_block_number :: i64
  t_timestamp :: i64

record opportunity_row =
  o_id :: i64
  o_pool_a :: string
  o_pool_b :: string
  o_token_in :: string
  o_token_out :: string
  o_spread_bps :: i64
  o_input_amount :: string
  o_estimated_profit :: f64
  o_gas_estimate_usd :: f64
  o_decision :: string
  o_no_go_reason :: "string option"
  o_trade_id :: "i64 option"
  o_timestamp :: i64

record gas_row =
  g_id :: i64
  g_block_number :: i64
  g_base_fee_gwei :: f64
  g_priority_fee_gwei :: f64
  g_timestamp :: i64

record database =
  users :: "user list"
  users_seq :: i64
  trades :: "trade_row list"
  trades_seq :: i64
  opportunities :: "opportunity_row list"
  opportunities_seq :: i64
  gas_history :: "gas_row list"
  gas_seq :: i64
  bot_state :: "string \<rightharpoonup> string"
  stmt_no :: nat

record sqlite =
  stmt_fault :: "nat \<Rightarrow> sqlx_error option"
  unixepoch :: "nat \<Rightarrow> i64"
  sql_sum :: "f64 list \<Rightarrow> f64"
  order_by_timestamp_desc :: "trade_row list \<Rightarrow> trade_row list"

text \<open>
  What the queries rely on of \<^verbatim>\<open>ORDER BY timestamp DESC\<close>: the same rows, later timestamps first.
\<close>

definition order_ok :: "sqlite \<Rightarrow> bool" where
  "order_ok E \<longleftrightarrow> (\<forall>rs. mset (order_by_timestamp_desc E rs) = mset rs \<and>
     sorted_wrt (\<lambda>a b. t_timestamp b \<le> t_timestamp a) (order_by_timestamp_desc E rs))"

type_synonym 'a db_io = "(database, sqlx_error, 'a) io"

text \<open>One statement: it may fail on its own account, otherwise it does what its SQL says.\<close>

definition stmt :: "sqlite \<Rightarrow> 'a db_io \<Rightarrow> 'a db_io" where
  "stmt E f d =
     (case stmt_fault E (stmt_no d) of
        Some e \<Rightarrow> (Inl e, d\<lparr>stmt_no := Suc (stmt_no d)\<rparr>)
      | None \<Rightarrow> f (d\<lparr>stmt_no := Suc (stmt_no d)\<rparr>))"

definition now_of :: "sqlite \<Rightarrow> database \<Rightarrow> i64" where
  "now_of E d = unixepoch E (stmt_no d)"

text \<open>
  \<^verbatim>\<open>AUTOINCREMENT\<close>: one more than any id ever used, and an error once the largest \<open>i64\<close> is taken. A
  NaN is bound as NULL, and a negative zero is stored as zero.
\<close>

definition with_rowid :: "(database \<Rightarrow> i64) \<Rightarrow> (i64 \<Rightarrow> 'a db_io) \<Rightarrow> 'a db_io" where
  "with_rowid seq f d =
     (if seq d < i64_max then f (seq d + 1) d else (Inl (SqlxDatabase ''database or disk is full''), d))"

definition bind_real :: "f64 \<Rightarrow> f64 option" where
  "bind_real x = (case x of F64_NaN \<Rightarrow> None | F64_Zero s \<Rightarrow> Some (F64_Zero False) | _ \<Rightarrow> Some x)"

definition not_null :: "string \<Rightarrow> 'b option \<Rightarrow> ('b \<Rightarrow> 'a db_io) \<Rightarrow> 'a db_io" where
  "not_null col v f =
     (case v of None \<Rightarrow> errE (SqlxDatabase (''NOT NULL constraint failed: '' @ col)) | Some x \<Rightarrow> f x)"

definition check :: "bool \<Rightarrow> string \<Rightarrow> 'a db_io \<Rightarrow> 'a db_io" where
  "check ok msg f = (if ok then f else errE (SqlxDatabase msg))"

text \<open>The writes to the tables.\<close>

definition add_user :: "user \<Rightarrow> database \<Rightarrow> database" where
  "add_user r d = d\<lparr>users := users d @ [r], users_seq := user_id r\<rparr>"

definition add_trade :: "trade_row \<Rightarrow> database \<Rightarrow> database" where
  "add_trade r d = d\<lparr>trades := trades d @ [r], trades_seq := t_id r\<rparr>"

definition add_opportunity :: "opportunity_row \<Rightarrow> database \<Rightarrow> database" where
  "add_opportunity r d = d\<lparr>opportunities := opportunities d @ [r], opportunities_seq := o_id r\<rparr>"

definition replace_gas :: "gas_row \<Rightarrow> database \<Rightarrow> database" where
  "replace_gas r d =
     d\<lparr>gas_history := filter (\<lambda>q. g_block_number q \<noteq> g_block_number r) (gas_history d) @ [r],
       gas_seq := g_id r\<rparr>"

definition put_state :: "string \<Rightarrow> string \<Rightarrow> database \<Rightarrow> database" where
  "put_state key value d = d\<lparr>bot_state := (bot_state d)(key \<mapsto> value)\<rparr>"

definition nocase :: "string \<Rightarrow> string" where
  "nocase s = map to_lower s"

text \<open>The state after the migrations have run on a new file.\<close>

definition migrated_database :: database where
  "migrated_database = \<lparr>users = [], users_seq = 0, trades = [], trades_seq = 0,
     opportunities = [], opportunities_seq = 0, gas_history = [], gas_seq = 0,
     bot_state = [''running'' \<mapsto> ''false'', ''last_block'' \<mapsto> ''0'', ''min_profit_usd'' \<mapsto> ''5.00'',
                  ''max_gas_gwei'' \<mapsto> ''50'', ''pools_monitored'' \<mapsto> ''0''],
     stmt_no = 0\<rparr>"

section \<open>Text columns\<close>

definition trade_status_to_db :: "trade_status \<Rightarrow> string" where
  "trade_status_to_db s = (case s of
     Success \<Rightarrow> ''success'' | Failed \<Rightarrow> ''failed'' | Reverted \<Rightarrow> ''reverted'' | Simulated \<Rightarrow> ''simulated'')"

definition trade_status_from_db :: "string \<Rightarrow> trade_status" where
  "trade_status_from_db s =
     (if s = ''success'' then Success
      else if s = ''failed'' then Failed
      else if s = ''reverted'' then Reverted
      else if s = ''simulated'' then Simulated
      else Failed)"

definition u256_to_dec :: "alloy \<Rightarrow> u256 \<Rightarrow> string" where
  "u256_to_dec L value = u256_to_string L value"

definition parse_u256 :: "alloy \<Rightarrow> string \<Rightarrow> db_error + u256" where
  "parse_u256 L value =
     (case u256_from_str_radix L value 10 of None \<Rightarrow> Inl (InvalidU256 value) | Some v \<Rightarrow> Inr v)"

definition parse_u256_required :: "alloy \<Rightarrow> string \<Rightarrow> db_error + u256" where
  "parse_u256_required L value = parse_u256 L value"

definition parse_u256_opt :: "alloy \<Rightarrow> string option \<Rightarrow> db_error + u256 option" where
  "parse_u256_opt L value =
     (case value of
        None \<Rightarrow> Inr None
      | Some v \<Rightarrow> (case parse_u256 L v of Inl e \<Rightarrow> Inl e | Inr x \<Rightarrow> Inr (Some x)))"

definition parse_address :: "alloy \<Rightarrow> string \<Rightarrow> db_error + address" where
  "parse_address L value =
     (case address_parse L value of None \<Rightarrow> Inl (InvalidAddress value) | Some a \<Rightarrow> Inr a)"

definition parse_tx_hash :: "alloy \<Rightarrow> string \<Rightarrow> db_error + b256" where
  "parse_tx_hash L value =
     (case b256_parse L value of None \<Rightarrow> Inl (InvalidTxHash value) | Some h \<Rightarrow> Inr h)"

section \<open>Users\<close>

definition insert_user :: "sqlite \<Rightarrow> string \<Rightarrow> string \<Rightarrow> i64 db_io" where
  "insert_user E name hash = stmt E (with_rowid users_seq (\<lambda>rid d.
     check (\<forall>u \<in> set (users d). nocase (username u) \<noteq> nocase name)
       ''UNIQUE constraint failed: users.username''
     (\<lambda>d. (Inr rid, add_user \<lparr>user_id = rid, username = name, password_hash = hash,
                              created_at = now_of E d\<rparr> d)) d))"

definition get_user_by_username :: "sqlite \<Rightarrow> string \<Rightarrow> user option db_io" where
  "get_user_by_username E name = stmt E (\<lambda>d.
     (Inr (find (\<lambda>u. nocase (username u) = nocase name) (users d)), d))"

definition get_user_count :: "sqlite \<Rightarrow> i64 db_io" where
  "get_user_count E = stmt E (\<lambda>d. (Inr (int (length (users d))), d))"

section \<open>Trades and opportunities\<close>

definition insert_trade :: "alloy \<Rightarrow> sqlite \<Rightarrow> trade_result \<Rightarrow> i64 db_io" where
  "insert_trade L E trade =
     (let input_amount = u256_to_dec L (tr_input_amount trade);
          output_amount = map_option (u256_to_dec L) (tr_output_amount trade);
          gross_profit = map_option (u256_to_dec L) (tr_gross_profit trade);
          status = trade_status_to_db (tr_status trade);
          hash = b256_hex L (tr_tx_hash trade)
      in stmt E (with_rowid trades_seq (\<lambda>rid.
         not_null ''trades.gas_cost_usd'' (bind_real (tr_gas_cost_usd trade)) (\<lambda>gas_cost.
         check (status \<in> {''success'', ''failed'', ''reverted'', ''simulated''})
           ''CHECK constraint failed: status'' (\<lambda>d.
         check (\<forall>r \<in> set (trades d). t_tx_hash r \<noteq> hash) ''UNIQUE constraint failed: trades.tx_hash'' (\<lambda>d.
           (Inr rid, add_trade
             \<lparr>t_id = rid, t_tx_hash = hash, t_route = tr_route trade,
              t_pool_a = address_hex L (tr_pool_a trade), t_pool_b = address_hex L (tr_pool_b trade),
              t_input_amount = input_amount, t_output_amount = output_amount, t_gross_profit = gross_profit,
              t_gas_cost_usd = gas_cost, t_net_profit_usd = Option.bind (tr_net_profit_usd trade) bind_real,
              t_gas_used = map_option u64_as_i64 (tr_gas_used trade), t_status = status,
              t_block_number = u64_as_i64 (tr_block_number trade), t_timestamp = tr_timestamp trade\<rparr> d)) d)))))"

definition insert_opportunity ::
  "alloy \<Rightarrow> sqlite \<Rightarrow> arbitrage_opportunity \<Rightarrow> string \<Rightarrow> string option \<Rightarrow> i64 option \<Rightarrow> i64 db_io" where
  "insert_opportunity L E opp decision no_go_reason trade_id =
     (let input_amount = u256_to_dec L (opp_input_amount opp)
      in stmt E (with_rowid opportunities_seq (\<lambda>rid.
         not_null ''opportunities.estimated_profit'' (bind_real (opp_estimated_profit_usd opp)) (\<lambda>profit.
         not_null ''opportunities.gas_estimate_usd'' (bind_real (opp_gas_estimate_usd opp)) (\<lambda>gas.
         check (decision \<in> {''go'', ''no-go''}) ''CHECK constraint failed: decision'' (\<lambda>d.
         check (case trade_id of None \<Rightarrow> True | Some t \<Rightarrow> t \<in> t_id ` set (trades d))
           ''FOREIGN KEY constraint failed'' (\<lambda>d.
           (Inr rid, add_opportunity
             \<lparr>o_id = rid, o_pool_a = address_hex L (opp_pool_a opp), o_pool_b = address_hex L (opp_pool_b opp),
              o_token_in = address_hex L (opp_token_in opp), o_token_out = address_hex L (opp_token_out opp),
              o_spread_bps = opp_spread_bps opp, o_input_amount = input_amount,
              o_estimated_profit = profit, o_gas_estimate_usd = gas, o_decision = decision,
              o_no_go_reason = no_go_reason, o_trade_id = trade_id, o_timestamp = now_of E d\<rparr> d)) d))))))"

definition trade_of_row :: "alloy \<Rightarrow> trade_row \<Rightarrow> db_error + trade_result" where
  "trade_of_row L r =
     (case parse_tx_hash L (t_tx_hash r) of Inl e \<Rightarrow> Inl e | Inr tx_hash \<Rightarrow>
     (case parse_address L (t_pool_a r) of Inl e \<Rightarrow> Inl e | Inr pool_a \<Rightarrow>
     (case parse_address L (t_pool_b r) of Inl e \<Rightarrow> Inl e | Inr pool_b \<Rightarrow>
     (case parse_u256_required L (t_input_amount r) of Inl e \<Rightarrow> Inl e | Inr input_amount \<Rightarrow>
     (case parse_u256_opt L (t_output_amount r) of Inl e \<Rightarrow> Inl e | Inr output_amount \<Rightarrow>
     (case parse_u256_opt L (t_gross_profit r) of Inl e \<Rightarrow> Inl e | Inr gross_profit \<Rightarrow>
       Inr \<lparr>tr_tx_hash = tx_hash, tr_route = t_route r, tr_pool_a = pool_a, tr_pool_b = pool_b,
            tr_input_amount = input_amount, tr_output_amount = output_amount, tr_gross_profit = gross_profit,
            tr_gas_cost_usd = t_gas_cost_usd r, tr_net_profit_usd = t_net_profit_usd r,
            tr_gas_used = map_option i64_as_u64 (t_gas_used r), tr_status = trade_status_from_db (t_status r),
            tr_block_number = i64_as_u64 (t_block_number r), tr_timestamp = t_timestamp r\<rparr>))))))"

fun trades_of_rows :: "alloy \<Rightarrow> trade_row list \<Rightarrow> db_error + trade_result list" where
  "trades_of_rows L [] = Inr []"
| "trades_of_rows L (r # rs) =
     (case trade_of_row L r of
        Inl e \<Rightarrow> Inl e
      | Inr t \<Rightarrow> (case trades_of_rows L rs of Inl e \<Rightarrow> Inl e | Inr ts \<Rightarrow> Inr (t # ts)))"

definition select_trades :: "sqlite \<Rightarrow> u32 \<Rightarrow> u32 \<Rightarrow> trade_row list db_io" where
  "select_trades E limit offset = stmt E (\<lambda>d.
     (Inr (take (unat limit) (drop (unat offset) (order_by_timestamp_desc E (trades d)))), d))"

definition get_trades_page ::
  "alloy \<Rightarrow> sqlite \<Rightarrow> u32 \<Rightarrow> u32 \<Rightarrow> (database, db_error, trade_result list) io" where
  "get_trades_page L E limit offset =
     bindE (mapErr DbSqlx (select_trades E limit offset)) (\<lambda>rows d. (trades_of_rows L rows, d))"

definition get_recent_trades :: "alloy \<Rightarrow> sqlite \<Rightarrow> u32 \<Rightarrow> (database, db_error, trade_result list) io" where
  "get_recent_trades L E limit = get_trades_page L E limit 0"

definition get_trade_count :: "sqlite \<Rightarrow> i64 db_io" where
  "get_trade_count E = stmt E (\<lambda>d. (Inr (int (length (trades d))), d))"

definition record_of_opportunity :: "opportunity_row \<Rightarrow> opportunity_record" where
  "record_of_opportunity r =
     \<lparr>or_id = o_id r, or_estimated_profit_usd = o_estimated_profit r,
      or_gas_estimate_usd = o_gas_estimate_usd r, or_spread_bps = o_spread_bps r,
      or_original_decision = o_decision r, or_original_no_go_reason = o_no_go_reason r,
      or_timestamp = o_timestamp r\<rparr>"

definition get_opportunities_for_backtest :: "sqlite \<Rightarrow> u32 \<Rightarrow> u32 \<Rightarrow> opportunity_record list db_io" where
  "get_opportunities_for_backtest E limit offset = stmt E (\<lambda>d.
     (Inr (map record_of_opportunity
            (take (unat limit) (drop (unat offset)
              (sort_key o_timestamp (sort_key o_id (opportunities d)))))), d))"

section \<open>Profit summary, gas history, bot state\<close>

record pnl_summary =
  today_usd :: f64
  week_usd :: f64
  alltime_usd :: f64
  today_trades :: i64
  week_trades :: i64

text \<open>\<^verbatim>\<open>SUM\<close> over a nullable column: NULL when no row has a value or the sum is a NaN.\<close>

definition sum_column :: "sqlite \<Rightarrow> f64 option list \<Rightarrow> f64 option" where
  "sum_column E vs =
     (let xs = List.map_filter (\<lambda>v. v) vs in if xs = [] then None else bind_real (sql_sum E xs))"

text \<open>\<^verbatim>\<open>date(t, 'unixepoch')\<close>: the UTC day, NULL outside the years 0 to 9999.\<close>

definition sql_date :: "i64 \<Rightarrow> int option" where
  "sql_date t = (if - 62167219200 \<le> t \<and> t \<le> 253402300799 then Some (t div 86400) else None)"

definition same_day :: "i64 \<Rightarrow> i64 \<Rightarrow> bool" where
  "same_day a b \<longleftrightarrow> sql_date a \<noteq> None \<and> sql_date a = sql_date b"

definition get_pnl_summary :: "sqlite \<Rightarrow> pnl_summary db_io" where
  "get_pnl_summary E =
     bindE (stmt E (\<lambda>d. (Inr (sum_column E (map t_net_profit_usd
              (filter (\<lambda>r. t_status r = ''success'') (trades d)))), d))) (\<lambda>alltime.
     bindE (stmt E (\<lambda>d.
              let rs = filter (\<lambda>r. t_status r = ''success'' \<and> same_day (t_timestamp r) (now_of E d)) (trades d)
              in (Inr (sum_column E (map t_net_profit_usd rs), int (length rs)), d))) (\<lambda>(today, today_n).
     bindE (stmt E (\<lambda>d.
              let rs = filter (\<lambda>r. t_status r = ''success'' \<and> now_of E d - 7 * 86400 \<le> t_timestamp r) (trades d)
              in (Inr (sum_column E (map t_net_profit_usd rs), int (length rs)), d))) (\<lambda>(week, week_n).
     okE \<lparr>today_usd = (case today of None \<Rightarrow> F64_Zero False | Some x \<Rightarrow> x),
          week_usd = (case week of None \<Rightarrow> F64_Zero False | Some x \<Rightarrow> x),
          alltime_usd = (case alltime of None \<Rightarrow> F64_Zero False | Some x \<Rightarrow> x),
          today_trades = today_n, week_trades = week_n\<rparr>)))"

definition insert_gas_sample :: "sqlite \<Rightarrow> u64 \<Rightarrow> f64 \<Rightarrow> f64 \<Rightarrow> unit db_io" where
  "insert_gas_sample E block base priority = stmt E (with_rowid gas_seq (\<lambda>rid.
     not_null ''gas_history.base_fee_gwei'' (bind_real base) (\<lambda>b.
     not_null ''gas_history.priority_fee_gwei'' (bind_real priority) (\<lambda>p d.
       (Inr (), replace_gas \<lparr>g_id = rid, g_block_number = u64_as_i64 block, g_base_fee_gwei = b,
                             g_priority_fee_gwei = p, g_timestamp = now_of E d\<rparr> d)))))"

definition get_bot_state :: "sqlite \<Rightarrow> string \<Rightarrow> string option db_io" where
  "get_bot_state E key = stmt E (\<lambda>d. (Inr (bot_state d key), d))"

definition set_bot_state :: "sqlite \<Rightarrow> string \<Rightarrow> string \<Rightarrow> unit db_io" where
  "set_bot_state E key value = stmt E (\<lambda>d. (Inr (), put_state key value d))"

section \<open>What a statement can do\<close>

text \<open>
  A statement leaves the tables alone or does the write its guards allow. The elimination rules give
  the write and the guards for a changed database; they carry every proof about the operations.
\<close>

lemmas db_guard_defs = stmt_def with_rowid_def not_null_def check_def errE_def

abbreviation tick :: "database \<Rightarrow> database" where
  "tick d \<equiv> d\<lparr>stmt_no := Suc (stmt_no d)\<rparr>"

lemma insert_user_cases:
  assumes "insert_user E name hash d = (r, d')"
  obtains (fail) e where "r = Inl e" "d' = tick d"
  | (ok) rid clock where "r = Inr rid" "rid = users_seq d + 1" "users_seq d < i64_max"
      "\<forall>u \<in> set (users d). nocase (username u) \<noteq> nocase name"
      "d' = add_user \<lparr>user_id = rid, username = name, password_hash = hash, created_at = clock\<rparr> (tick d)"
  using assms by (auto simp: insert_user_def db_guard_defs split: option.splits if_splits)

definition row_of_trade :: "alloy \<Rightarrow> i64 \<Rightarrow> f64 \<Rightarrow> trade_result \<Rightarrow> trade_row" where
  "row_of_trade L rid gas_cost t =
     \<lparr>t_id = rid, t_tx_hash = b256_hex L (tr_tx_hash t), t_route = tr_route t,
      t_pool_a = address_hex L (tr_pool_a t), t_pool_b = address_hex L (tr_pool_b t),
      t_input_amount = u256_to_dec L (tr_input_amount t),
      t_output_amount = map_option (u256_to_dec L) (tr_output_amount t),
      t_gross_profit = map_option (u256_to_dec L) (tr_gross_profit t),
      t_gas_cost_usd = gas_cost, t_net_profit_usd = Option.bind (tr_net_profit_usd t) bind_real,
      t_gas_used = map_option u64_as_i64 (tr_gas_used t), t_status = trade_status_to_db (tr_status t),
      t_block_number = u64_as_i64 (tr_block_number t), t_timestamp = tr_timestamp t\<rparr>"

lemma insert_trade_cases:
  assumes "insert_trade L E t d = (r, d')"
  obtains (fail) e where "r = Inl e" "d' = tick d"
  | (ok) rid g where "r = Inr rid" "rid = trades_seq d + 1" "trades_seq d < i64_max"
      "bind_real (tr_gas_cost_usd t) = Some g"
      "\<forall>q \<in> set (trades d). t_tx_hash q \<noteq> b256_hex L (tr_tx_hash t)"
      "d' = add_trade (row_of_trade L rid g t) (tick d)"
  using assms
  by (auto simp: insert_trade_def row_of_trade_def db_guard_defs Let_def split: option.splits if_splits)

lemma insert_opportunity_cases:
  assumes "insert_opportunity L E opp dec why tid d = (r, d')"
  obtains (fail) e where "r = Inl e" "d' = tick d"
  | (ok) row where "r = Inr (o_id row)" "o_id row = opportunities_seq d + 1" "opportunities_seq d < i64_max"
      "bind_real (opp_estimated_profit_usd opp) = Some (o_estimated_profit row)"
      "bind_real (opp_gas_estimate_usd opp) = Some (o_gas_estimate_usd row)"
      "o_decision row = dec" "dec \<in> {''go'', ''no-go''}" "o_no_go_reason row = why"
      "o_trade_id row = tid" "\<And>t. tid = Some t \<Longrightarrow> t \<in> t_id ` set (trades d)"
      "o_spread_bps row = opp_spread_bps opp"
      "d' = add_opportunity row (tick d)"
proof -
  note split = option.splits if_splits
  show thesis
  proof (cases r)
    case (Inl e)
    then have "d' = tick d"
      using assms by (auto simp: insert_opportunity_def db_guard_defs Let_def split: split)
    then show thesis using fail Inl by blast
  next
    case (Inr rid)
    let ?row = "\<lparr>o_id = rid, o_pool_a = address_hex L (opp_pool_a opp), o_pool_b = address_hex L (opp_pool_b opp),
              o_token_in = address_hex L (opp_token_in opp), o_token_out = address_hex L (opp_token_out opp),
              o_spread_bps = opp_spread_bps opp, o_input_amount = u256_to_dec L (opp_input_amount opp),
              o_estimated_profit = the (bind_real (opp_estimated_profit_usd opp)),
              o_gas_estimate_usd = the (bind_real (opp_gas_estimate_usd opp)), o_decision = dec,
              o_no_go_reason = why, o_trade_id = tid, o_timestamp = now_of E (tick d)\<rparr>"
    show thesis
      by (rule ok [of ?row])
        (use assms Inr in \<open>auto simp: insert_opportunity_def db_guard_defs Let_def split: split\<close>)
  qed
qed

lemma insert_gas_sample_cases:
  assumes "insert_gas_sample E block base priority d = (r, d')"
  obtains (fail) e where "r = Inl e" "d' = tick d"
  | (ok) b p clock where "r = Inr ()" "gas_seq d < i64_max" "bind_real base = Some b" "bind_real priority = Some p"
      "d' = replace_gas \<lparr>g_id = gas_seq d + 1, g_block_number = u64_as_i64 block, g_base_fee_gwei = b,
                          g_priority_fee_gwei = p, g_timestamp = clock\<rparr> (tick d)"
  using assms by (auto simp: insert_gas_sample_def db_guard_defs split: option.splits if_splits)

lemma set_bot_state_cases:
  assumes "set_bot_state E k v d = (r, d')"
  obtains (fail) e where "r = Inl e" "d' = tick d" | (ok) "r = Inr ()" "d' = put_state k v (tick d)"
  using assms by (auto simp: set_bot_state_def db_guard_defs split: option.splits)

section \<open>Interfaces of the tables\<close>

text \<open>
  A table with an autoincrement key: rows are appended, the sequence is the id of the last one. Under
  these laws the ids stay distinct, increasing and within \<open>i64\<close>.
\<close>

locale auto_table =
  fixes rows :: "'s \<Rightarrow> 'r list"
    and rid :: "'r \<Rightarrow> i64"
    and seq :: "'s \<Rightarrow> i64"
    and add :: "'r \<Rightarrow> 's \<Rightarrow> 's"
  assumes rows_add: "rows (add r s) = rows s @ [r]"
    and seq_add: "seq (add r s) = rid r"
begin

definition ids_ok :: "'s \<Rightarrow> bool" where
  "ids_ok s \<longleftrightarrow> sorted_wrt (<) (map rid (rows s)) \<and>
     (\<forall>r \<in> set (rows s). 1 \<le> rid r \<and> rid r \<le> seq s) \<and> 0 \<le> seq s \<and> seq s \<le> i64_max"

lemma ids_ok_add:
  assumes "ids_ok s" "seq s < i64_max" "rid r = seq s + 1"
  shows "ids_ok (add r s)"
  using assms by (fastforce simp: ids_ok_def rows_add seq_add sorted_wrt_append)

lemma ids_ok_distinct: "ids_ok s \<Longrightarrow> distinct (map rid (rows s))"
  unfolding ids_ok_def using strict_sorted_iff by blast

lemma added_is_found:
  assumes "ids_ok s" "rid r = seq s + 1"
  shows "find (\<lambda>q. rid q = rid r) (rows (add r s)) = Some r"
proof -
  have "find (\<lambda>q. rid q = rid r) (rows s) = None"
    using assms by (fastforce simp: find_None_iff ids_ok_def)
  moreover have "find P (xs @ [x]) = (if find P xs = None \<and> P x then Some x else find P xs)"
    for P :: "'r \<Rightarrow> bool" and xs x by (induction xs) auto
  ultimately show ?thesis by (simp add: rows_add)
qed

end

interpretation users_table: auto_table users user_id users_seq add_user
  by unfold_locales (simp_all add: add_user_def)

interpretation trades_table: auto_table trades t_id trades_seq add_trade
  by unfold_locales (simp_all add: add_trade_def)

interpretation opportunities_table: auto_table opportunities o_id opportunities_seq add_opportunity
  by unfold_locales (simp_all add: add_opportunity_def)

text \<open>
  A table written with \<^verbatim>\<open>INSERT OR REPLACE\<close>: one value per key, the last one written.
\<close>

locale upsert_table =
  fixes look :: "'s \<Rightarrow> 'k \<Rightarrow> 'v option"
    and put :: "'k \<Rightarrow> 'v \<Rightarrow> 's \<Rightarrow> 's"
  assumes look_put: "look (put k v s) k' = (if k' = k then Some v else look s k')"
begin

lemma look_fold_put:
  "look (fold (\<lambda>(k, v). put k v) kvs s) k = (case map_of (rev kvs) k of None \<Rightarrow> look s k | Some v \<Rightarrow> Some v)"
proof (induction kvs rule: rev_induct)
  case (snoc kv kvs)
  then show ?case by (cases kv) (simp add: look_put)
qed simp

lemma put_other: "k' \<noteq> k \<Longrightarrow> look (put k v s) k' = look s k'"
  by (simp add: look_put)

end

interpretation state_table: upsert_table bot_state put_state
  by unfold_locales (simp add: put_state_def)

definition gas_at :: "database \<Rightarrow> i64 \<Rightarrow> (i64 \<times> f64 \<times> f64 \<times> i64) option" where
  "gas_at d b = map_option (\<lambda>r. (g_id r, g_base_fee_gwei r, g_priority_fee_gwei r, g_timestamp r))
     (find (\<lambda>r. g_block_number r = b) (gas_history d))"

fun gas_row_of :: "i64 \<Rightarrow> i64 \<times> f64 \<times> f64 \<times> i64 \<Rightarrow> gas_row" where
  "gas_row_of b (i, base, priority, clock) = \<lparr>g_id = i, g_block_number = b, g_base_fee_gwei = base,
     g_priority_fee_gwei = priority, g_timestamp = clock\<rparr>"

lemma find_append: "find P (xs @ ys) = (case find P xs of None \<Rightarrow> find P ys | Some x \<Rightarrow> Some x)"
  by (induction xs) simp_all

lemma find_filter_other: "find (\<lambda>r. f r = a) (filter (\<lambda>r. f r \<noteq> b) xs) = (if a = b then None else find (\<lambda>r. f r = a) xs)"
  by (induction xs) auto

interpretation gas_table: upsert_table gas_at "\<lambda>b v. replace_gas (gas_row_of b v)"
proof unfold_locales
  fix k k' s and v :: "i64 \<times> f64 \<times> f64 \<times> i64"
  show "gas_at (replace_gas (gas_row_of k v) s) k' = (if k' = k then Some v else gas_at s k')"
    by (cases v; cases "find (\<lambda>r. g_block_number r = k') (gas_history s)")
      (simp_all add: gas_at_def replace_gas_def find_append find_filter_other)
qed

section \<open>The schema as an invariant\<close>

definition users_ok :: "database \<Rightarrow> bool" where
  "users_ok d \<longleftrightarrow> users_table.ids_ok d \<and> distinct (map (\<lambda>u. nocase (username u)) (users d))"

definition trades_ok :: "database \<Rightarrow> bool" where
  "trades_ok d \<longleftrightarrow> trades_table.ids_ok d \<and> distinct (map t_tx_hash (trades d)) \<and>
     (\<forall>r \<in> set (trades d). t_status r \<in> trade_status_to_db ` UNIV)"

definition opportunities_ok :: "database \<Rightarrow> bool" where
  "opportunities_ok d \<longleftrightarrow> opportunities_table.ids_ok d \<and>
     (\<forall>r \<in> set (opportunities d). o_decision r \<in> {''go'', ''no-go''} \<and>
        (\<forall>t. o_trade_id r = Some t \<longrightarrow> t \<in> t_id ` set (trades d)))"

definition gas_ok :: "database \<Rightarrow> bool" where
  "gas_ok d \<longleftrightarrow> distinct (map g_block_number (gas_history d)) \<and> 0 \<le> gas_seq d \<and> gas_seq d \<le> i64_max \<and>
     (\<forall>r \<in> set (gas_history d). 1 \<le> g_id r \<and> g_id r \<le> gas_seq d)"

definition db_inv :: "database \<Rightarrow> bool" where
  "db_inv d \<longleftrightarrow> users_ok d \<and> trades_ok d \<and> opportunities_ok d \<and> gas_ok d"

text \<open>Every call the program makes on the database, whatever it answers.\<close>

inductive db_step :: "alloy \<Rightarrow> sqlite \<Rightarrow> database \<Rightarrow> database \<Rightarrow> bool" for L E where
  step_user: "insert_user E name hash d = (r, d') \<Longrightarrow> db_step L E d d'"
| step_trade: "insert_trade L E t d = (r, d') \<Longrightarrow> db_step L E d d'"
| step_opportunity: "insert_opportunity L E opp dec why tid d = (r, d') \<Longrightarrow> db_step L E d d'"
| step_gas: "insert_gas_sample E block base priority d = (r, d') \<Longrightarrow> db_step L E d d'"
| step_set: "set_bot_state E k v d = (r, d') \<Longrightarrow> db_step L E d d'"
| step_read: "db_step L E d (tick d)"

definition db_reachable :: "alloy \<Rightarrow> sqlite \<Rightarrow> database \<Rightarrow> bool" where
  "db_reachable L E d \<longleftrightarrow> (db_step L E)\<^sup>*\<^sup>* migrated_database d"

lemmas ids_ok_defs = users_table.ids_ok_def trades_table.ids_ok_def opportunities_table.ids_ok_def
lemmas db_ok_defs = users_ok_def trades_ok_def opportunities_ok_def gas_ok_def

lemma db_inv_tick: "db_inv (tick d) = db_inv d"
  by (simp add: db_inv_def db_ok_defs ids_ok_defs)

lemma db_inv_add_user:
  assumes "db_inv d" "users_seq d < i64_max" "user_id u = users_seq d + 1"
    "\<forall>v \<in> set (users d). nocase (username v) \<noteq> nocase (username u)"
  shows "db_inv (add_user u d)"
proof -
  have "users_table.ids_ok (add_user u d)"
    using assms users_table.ids_ok_add by (simp add: db_inv_def users_ok_def)
  then show ?thesis using assms by (auto simp: db_inv_def db_ok_defs ids_ok_defs add_user_def)
qed

lemma db_inv_add_trade:
  assumes "db_inv d" "trades_seq d < i64_max" "t_id r = trades_seq d + 1"
    "\<forall>q \<in> set (trades d). t_tx_hash q \<noteq> t_tx_hash r" "t_status r \<in> trade_status_to_db ` UNIV"
  shows "db_inv (add_trade r d)"
proof -
  have "trades_table.ids_ok (add_trade r d)"
    using assms trades_table.ids_ok_add by (simp add: db_inv_def trades_ok_def)
  then show ?thesis using assms by (auto simp: db_inv_def db_ok_defs ids_ok_defs add_trade_def)
qed

lemma db_inv_add_opportunity:
  assumes "db_inv d" "opportunities_seq d < i64_max" "o_id r = opportunities_seq d + 1"
    "o_decision r \<in> {''go'', ''no-go''}" "\<And>t. o_trade_id r = Some t \<Longrightarrow> t \<in> t_id ` set (trades d)"
  shows "db_inv (add_opportunity r d)"
proof -
  have "opportunities_table.ids_ok (add_opportunity r d)"
    using assms opportunities_table.ids_ok_add by (simp add: db_inv_def opportunities_ok_def)
  then show ?thesis using assms by (auto simp: db_inv_def db_ok_defs ids_ok_defs add_opportunity_def)
qed

lemma db_inv_replace_gas:
  assumes "db_inv d" "gas_seq d < i64_max" "g_id r = gas_seq d + 1"
  shows "db_inv (replace_gas r d)"
proof -
  have "distinct (map g_block_number (filter (\<lambda>q. g_block_number q \<noteq> g_block_number r) (gas_history d)))"
    using assms(1) by (simp add: db_inv_def gas_ok_def distinct_map_filter)
  then have "gas_ok (replace_gas r d)"
    using assms by (fastforce simp: db_inv_def gas_ok_def replace_gas_def)
  then show ?thesis using assms(1) by (simp add: db_inv_def db_ok_defs ids_ok_defs replace_gas_def)
qed

lemma db_step_inv: "db_step L E d d' \<Longrightarrow> db_inv d \<Longrightarrow> db_inv d'"
proof (induction rule: db_step.induct)
  case (step_user name hash d r d')
  then show ?case
    by (cases rule: insert_user_cases) (simp_all add: db_inv_tick db_inv_add_user)
next
  case (step_trade t d r d')
  then show ?case
    by (cases rule: insert_trade_cases) (simp_all add: db_inv_tick db_inv_add_trade row_of_trade_def)
next
  case (step_opportunity opp dec why tid d r d')
  then show ?case
    by (cases rule: insert_opportunity_cases) (auto simp: db_inv_tick intro!: db_inv_add_opportunity)
next
  case (step_gas block base priority d r d')
  then show ?case
    by (cases rule: insert_gas_sample_cases) (simp_all add: db_inv_tick db_inv_replace_gas)
next
  case (step_set k v d r d')
  then show ?case
    by (cases rule: set_bot_state_cases)
      (simp_all add: put_state_def db_inv_def db_ok_defs ids_ok_defs)
qed (simp add: db_inv_tick)

lemma db_inv_migrated: "db_inv migrated_database"
  by (simp add: migrated_database_def db_inv_def db_ok_defs ids_ok_defs i64_max_def)

lemma db_reachable_inv: "db_reachable L E d \<Longrightarrow> db_inv d"
  unfolding db_reachable_def
  by (induction rule: rtranclp_induct) (simp_all add: db_inv_migrated db_step_inv)

section \<open>Rows read back\<close>

interpretation status_text: text_codec trade_status_to_db "\<lambda>s. Some (trade_status_from_db s)"
proof unfold_locales
  fix st show "Some (trade_status_from_db (trade_status_to_db st)) = Some st"
    by (cases st) (simp_all add: trade_status_to_db_def trade_status_from_db_def)
qed

lemma trade_status_roundtrip [simp]: "trade_status_from_db (trade_status_to_db st) = st"
  using status_text.parse_print [of st] by simp

definition alloy_text_ok :: "alloy \<Rightarrow> bool" where
  "alloy_text_ok L \<longleftrightarrow> u256_text_ok L \<and> address_text_ok L \<and> b256_text_ok L"

lemma alloy_text_ok_ref [simp]: "alloy_text_ok alloy_ref"
  by (simp add: alloy_text_ok_def)

lemma text_parsers [simp]:
  assumes "alloy_text_ok L"
  shows "parse_u256 L (u256_to_dec L v) = Inr v" "parse_address L (address_hex L a) = Inr a"
    "parse_tx_hash L (b256_hex L h) = Inr h" "parse_u256_opt L (map_option (u256_to_dec L) w) = Inr w"
proof -
  show v: "parse_u256 L (u256_to_dec L v) = Inr v" for v
    using assms by (simp add: alloy_text_ok_def u256_text_ok_def parse_u256_def u256_to_dec_def)
  show "parse_address L (address_hex L a) = Inr a"
    using assms by (simp add: alloy_text_ok_def address_text_ok_def parse_address_def)
  show "parse_tx_hash L (b256_hex L h) = Inr h"
    using assms by (simp add: alloy_text_ok_def b256_text_ok_def parse_tx_hash_def)
  show "parse_u256_opt L (map_option (u256_to_dec L) w) = Inr w"
    by (cases w) (simp_all add: parse_u256_opt_def v)
qed

text \<open>What SQLite keeps of a trade: a NaN profit is NULL, a negative zero is zero.\<close>

definition stored_trade :: "f64 \<Rightarrow> trade_result \<Rightarrow> trade_result" where
  "stored_trade g t = t\<lparr>tr_gas_cost_usd := g, tr_net_profit_usd := Option.bind (tr_net_profit_usd t) bind_real\<rparr>"

lemma trade_of_row_of_trade:
  assumes "alloy_text_ok L"
  shows "trade_of_row L (row_of_trade L rid g t) = Inr (stored_trade g t)"
  using assms
  by (cases t; cases "tr_gas_used t")
    (simp_all add: trade_of_row_def row_of_trade_def stored_trade_def parse_u256_required_def)

definition rows_readable :: "alloy \<Rightarrow> database \<Rightarrow> bool" where
  "rows_readable L d \<longleftrightarrow>
     (\<forall>r \<in> set (trades d). \<exists>t. trade_of_row L r = Inr t \<and> tr_timestamp t = t_timestamp r)"

lemma db_step_readable:
  assumes "alloy_text_ok L"
  shows "db_step L E d d' \<Longrightarrow> rows_readable L d \<Longrightarrow> rows_readable L d'"
proof (induction rule: db_step.induct)
  case (step_user name hash d r d')
  then show ?case by (cases rule: insert_user_cases) (simp_all add: rows_readable_def add_user_def)
next
  case (step_trade t d r d')
  from step_trade(1) show ?case
  proof (cases rule: insert_trade_cases)
    case (ok rid g)
    have "trade_of_row L (row_of_trade L rid g t) = Inr (stored_trade g t)"
      using trade_of_row_of_trade [OF assms] .
    moreover have "tr_timestamp (stored_trade g t) = t_timestamp (row_of_trade L rid g t)"
      by (simp add: stored_trade_def row_of_trade_def)
    ultimately show ?thesis using ok step_trade(2) by (auto simp: rows_readable_def add_trade_def)
  qed (use step_trade(2) in \<open>simp add: rows_readable_def\<close>)
next
  case (step_opportunity opp dec why tid d r d')
  then show ?case by (cases rule: insert_opportunity_cases) (simp_all add: rows_readable_def add_opportunity_def)
next
  case (step_gas block base priority d r d')
  then show ?case by (cases rule: insert_gas_sample_cases) (simp_all add: rows_readable_def replace_gas_def)
next
  case (step_set k v d r d')
  then show ?case by (cases rule: set_bot_state_cases) (simp_all add: rows_readable_def put_state_def)
qed (simp add: rows_readable_def)

lemma db_reachable_readable:
  assumes "alloy_text_ok L" "db_reachable L E d"
  shows "rows_readable L d"
  using assms(2) unfolding db_reachable_def
proof (induction rule: rtranclp_induct)
  case base
  show ?case by (simp add: rows_readable_def migrated_database_def)
qed (use db_step_readable [OF assms(1)] in blast)

lemma trades_of_rows_list_all2:
  assumes "\<forall>r \<in> set rs. \<exists>t. trade_of_row L r = Inr t \<and> tr_timestamp t = t_timestamp r"
  shows "\<exists>ts. trades_of_rows L rs = Inr ts \<and>
    list_all2 (\<lambda>r t. trade_of_row L r = Inr t) rs ts \<and> map tr_timestamp ts = map t_timestamp rs"
  using assms
proof (induction rs)
  case (Cons r rs)
  then obtain t ts where "trade_of_row L r = Inr t" "tr_timestamp t = t_timestamp r"
    "trades_of_rows L rs = Inr ts" "list_all2 (\<lambda>r t. trade_of_row L r = Inr t) rs ts"
    "map tr_timestamp ts = map t_timestamp rs" by auto
  then show ?case by (intro exI [of _ "t # ts"]) simp
qed simp

lemma stmt_Inl: "stmt_fault E (stmt_no d) = Some e \<Longrightarrow> stmt E f d = (Inl e, tick d)"
  by (simp add: stmt_def)

lemma stmt_run: "stmt_fault E (stmt_no d) = None \<Longrightarrow> stmt E f d = f (tick d)"
  by (simp add: stmt_def)

text \<open>A concrete engine without faults, for the witnesses.\<close>

definition sqlite_ref :: sqlite where
  "sqlite_ref = \<lparr>stmt_fault = (\<lambda>n. None), unixepoch = (\<lambda>n. 1700000000 + int n),
     sql_sum = (\<lambda>xs. foldl f64_add (F64_Zero False) xs),
     order_by_timestamp_desc = (\<lambda>rs. rev (sort_key t_timestamp rs))\<rparr>"

lemma sqlite_ref_faultless [simp]: "stmt_fault sqlite_ref n = None"
  by (simp add: sqlite_ref_def)

lemma sqlite_ref_order [simp]: "order_ok sqlite_ref"
proof -
  have "sorted_wrt (\<lambda>a b. t_timestamp a \<le> t_timestamp b) (sort_key t_timestamp rs)"
    for rs :: "trade_row list"
    using sorted_sort_key [of t_timestamp rs] by (simp add: sorted_map)
  then show ?thesis by (simp add: order_ok_def sqlite_ref_def sorted_wrt_rev)
qed

section \<open>Properties\<close>

text \<open>
  C21: in every state the program can bring the database to, usernames are distinct up to ASCII case,
  transaction hashes and ids are distinct, every trade status is one \<open>trade_status_from_db\<close> knows,
  every decision is \<open>go\<close> or \<open>no-go\<close>, every trade an opportunity refers to exists, and the gas history
  has one row per block.
\<close>

theorem db_reachable_schema:
  assumes "db_reachable L E d"
  shows "distinct (map (\<lambda>u. nocase (username u)) (users d)) \<and> distinct (map user_id (users d)) \<and>
     distinct (map t_tx_hash (trades d)) \<and> distinct (map t_id (trades d)) \<and>
     (\<forall>r \<in> set (trades d). \<exists>st. t_status r = trade_status_to_db st) \<and>
     distinct (map o_id (opportunities d)) \<and>
     (\<forall>r \<in> set (opportunities d). o_decision r \<in> {''go'', ''no-go''} \<and>
        (\<forall>t. o_trade_id r = Some t \<longrightarrow> t \<in> t_id ` set (trades d))) \<and>
     distinct (map g_block_number (gas_history d))"
proof -
  have inv: "users_ok d" "trades_ok d" "opportunities_ok d" "gas_ok d"
    using db_reachable_inv [OF assms] by (simp_all add: db_inv_def)
  show ?thesis
    using inv users_table.ids_ok_distinct [of d] trades_table.ids_ok_distinct [of d]
      opportunities_table.ids_ok_distinct [of d]
    by (auto simp: db_ok_defs)
qed

definition demo_db :: database where
  "demo_db = snd (insert_user sqlite_ref ''Alice'' ''h'' migrated_database)"

lemma demo_db_reachable: "db_reachable alloy_ref sqlite_ref demo_db"
proof -
  have "db_step alloy_ref sqlite_ref migrated_database demo_db"
    unfolding demo_db_def by (rule db_step.step_user) (rule prod.collapse [symmetric])
  then show ?thesis by (simp add: db_reachable_def)
qed

theorem db_reachable_schema_witness:
  "db_reachable alloy_ref sqlite_ref demo_db \<and> map username (users demo_db) = [''Alice''] \<and>
   distinct (map (\<lambda>u. nocase (username u)) (users demo_db)) \<and> distinct (map user_id (users demo_db)) \<and>
   distinct (map t_tx_hash (trades demo_db)) \<and> distinct (map t_id (trades demo_db)) \<and>
   distinct (map o_id (opportunities demo_db)) \<and> distinct (map g_block_number (gas_history demo_db))"
proof -
  have "map username (users demo_db) = [''Alice'']"
    by (simp add: demo_db_def insert_user_def db_guard_defs migrated_database_def i64_max_def add_user_def)
  then show ?thesis using db_reachable_schema [OF demo_db_reachable] demo_db_reachable by blast
qed

text \<open>
  C22: a trade that was inserted reads back as it was: hash, route, addresses, all 256-bit amounts, gas
  used and block number (through \<open>i64\<close> columns), status and timestamp; of the two doubles SQLite
  keeps NULL for a NaN and zero for a negative zero. An insert that succeeds adds that one row.
\<close>

theorem insert_trade_roundtrip:
  assumes "alloy_text_ok L" "insert_trade L E t d = (Inr rid, d')"
  shows "\<exists>r g. trades d' = trades d @ [r] \<and> t_id r = rid \<and> bind_real (tr_gas_cost_usd t) = Some g \<and>
     trade_of_row L r =
       Inr (t\<lparr>tr_gas_cost_usd := g, tr_net_profit_usd := Option.bind (tr_net_profit_usd t) bind_real\<rparr>)"
  using assms(2)
proof (cases rule: insert_trade_cases)
  case (ok rid' g)
  then show ?thesis
    using trade_of_row_of_trade [OF assms(1), of rid' g t]
    by (auto simp: add_trade_def stored_trade_def row_of_trade_def)
qed simp

definition demo_trade :: trade_result where
  "demo_trade = \<lparr>tr_tx_hash = 7, tr_route = ''a->b'', tr_pool_a = 1, tr_pool_b = 2, tr_input_amount = 10 ^ 18,
     tr_output_amount = Some 5, tr_gross_profit = None, tr_gas_cost_usd = f64_of_int 4,
     tr_net_profit_usd = Some F64_NaN, tr_gas_used = Some (- 1), tr_status = Simulated,
     tr_block_number = - 1, tr_timestamp = 1700000000\<rparr>"

lemma demo_trade_inserted: "\<exists>d'. insert_trade alloy_ref sqlite_ref demo_trade migrated_database = (Inr 1, d')"
proof -
  have "bind_real (tr_gas_cost_usd demo_trade) = Some (f64_of_int 4)"
    unfolding demo_trade_def bind_real_def by code_simp
  moreover have "tr_status demo_trade = Simulated" by (simp add: demo_trade_def)
  ultimately show ?thesis
    by (simp add: insert_trade_def db_guard_defs migrated_database_def trade_status_to_db_def i64_max_def
        Let_def)
qed

theorem insert_trade_roundtrip_witness:
  "\<exists>d' r g. insert_trade alloy_ref sqlite_ref demo_trade migrated_database = (Inr 1, d') \<and>
     trades d' = [r] \<and> t_id r = 1 \<and> bind_real (tr_gas_cost_usd demo_trade) = Some g \<and>
     trade_of_row alloy_ref r = Inr (demo_trade\<lparr>tr_gas_cost_usd := g,
       tr_net_profit_usd := Option.bind (tr_net_profit_usd demo_trade) bind_real\<rparr>)"
proof -
  obtain d' where d': "insert_trade alloy_ref sqlite_ref demo_trade migrated_database = (Inr 1, d')"
    using demo_trade_inserted by blast
  show ?thesis
    using insert_trade_roundtrip [OF alloy_text_ok_ref d'] d' by (auto simp: migrated_database_def)
qed

text \<open>
  Reading a page of trades from a reachable database never fails on the text columns: the only
  error is one of SQLite itself. Otherwise the page is the rows at positions \<open>offset\<close> to
  \<open>offset + limit\<close> of the table ordered by timestamp, newest first, each decoded.
\<close>

theorem get_trades_page_reads:
  assumes "alloy_text_ok L" "order_ok E" "db_reachable L E d"
  shows "\<exists>ts. get_trades_page L E limit offset d =
       ((case stmt_fault E (stmt_no d) of Some e \<Rightarrow> Inl (DbSqlx e) | None \<Rightarrow> Inr ts),
        d\<lparr>stmt_no := Suc (stmt_no d)\<rparr>) \<and>
     list_all2 (\<lambda>r t. trade_of_row L r = Inr t)
       (take (unat limit) (drop (unat offset) (order_by_timestamp_desc E (trades d)))) ts \<and>
     length ts = min (unat limit) (length (trades d) - unat offset) \<and>
     sorted_wrt (\<lambda>a b. tr_timestamp b \<le> tr_timestamp a) ts"
proof -
  let ?all = "order_by_timestamp_desc E (trades d)"
  let ?page = "take (unat limit) (drop (unat offset) ?all)"
  have ord: "mset ?all = mset (trades d)" "sorted_wrt (\<lambda>a b. t_timestamp b \<le> t_timestamp a) ?all"
    using assms(2) by (simp_all add: order_ok_def)
  have "set ?page \<subseteq> set (trades d)"
    using ord(1) by (metis (no_types) mset_eq_setD set_drop_subset set_take_subset subset_trans)
  then have "\<forall>r \<in> set ?page. \<exists>t. trade_of_row L r = Inr t \<and> tr_timestamp t = t_timestamp r"
    using db_reachable_readable [OF assms(1,3)] unfolding rows_readable_def by blast
  then obtain ts where ts: "trades_of_rows L ?page = Inr ts"
    "list_all2 (\<lambda>r t. trade_of_row L r = Inr t) ?page ts" "map tr_timestamp ts = map t_timestamp ?page"
    using trades_of_rows_list_all2 by blast
  have "sorted_wrt (\<lambda>a b. t_timestamp b \<le> t_timestamp a) ?page"
    using ord(2) by (simp add: sorted_wrt_drop sorted_wrt_take)
  then have "sorted_wrt (\<lambda>a b. b \<le> a) (map tr_timestamp ts)" unfolding ts(3) by (simp add: sorted_wrt_map)
  then have "sorted_wrt (\<lambda>a b. tr_timestamp b \<le> tr_timestamp a) ts" by (simp add: sorted_wrt_map)
  moreover have "length ts = min (unat limit) (length (trades d) - unat offset)"
    using list_all2_lengthD [OF ts(2)] mset_eq_length [OF ord(1)] by simp
  moreover have "get_trades_page L E limit offset d =
      ((case stmt_fault E (stmt_no d) of Some e \<Rightarrow> Inl (DbSqlx e) | None \<Rightarrow> Inr ts), tick d)"
    using ts(1)
    by (simp add: get_trades_page_def select_trades_def stmt_def bindE_def mapErr_def split: option.splits)
  ultimately show ?thesis using ts(2) by blast
qed

theorem get_trades_page_reads_witness:
  "\<exists>ts. get_trades_page alloy_ref sqlite_ref 50 0 demo_db =
       ((case stmt_fault sqlite_ref (stmt_no demo_db) of Some e \<Rightarrow> Inl (DbSqlx e) | None \<Rightarrow> Inr ts),
        demo_db\<lparr>stmt_no := Suc (stmt_no demo_db)\<rparr>) \<and>
     list_all2 (\<lambda>r t. trade_of_row alloy_ref r = Inr t)
       (take (unat (50 :: u32)) (drop (unat (0 :: u32)) (order_by_timestamp_desc sqlite_ref (trades demo_db)))) ts \<and>
     length ts = min (unat (50 :: u32)) (length (trades demo_db) - unat (0 :: u32)) \<and>
     sorted_wrt (\<lambda>a b. tr_timestamp b \<le> tr_timestamp a) ts"
  by (rule get_trades_page_reads) (simp_all add: demo_db_reachable)

text \<open>
  After a user was inserted, looking up any spelling of the name that differs in ASCII case only
  gives that user, and inserting such a spelling again is refused with the uniqueness error and
  changes no table.
\<close>

theorem insert_user_unique:
  assumes "insert_user E name hash d = (Inr rid, d')" "nocase name' = nocase name"
    "stmt_fault E (stmt_no d') = None" "users_seq d' < i64_max"
  shows "(\<exists>u. get_user_by_username E name' d' = (Inr (Some u), d'\<lparr>stmt_no := Suc (stmt_no d')\<rparr>) \<and>
            user_id u = rid \<and> username u = name \<and> password_hash u = hash) \<and>
         insert_user E name' hash' d' =
           (Inl (SqlxDatabase ''UNIQUE constraint failed: users.username''), d'\<lparr>stmt_no := Suc (stmt_no d')\<rparr>)"
  using assms(1)
proof (cases rule: insert_user_cases)
  case (ok rid' clock)
  let ?u = "\<lparr>user_id = rid', username = name, password_hash = hash, created_at = clock\<rparr>"
  have users: "users d' = users d @ [?u]" using ok by (simp add: add_user_def)
  have "find (\<lambda>u. nocase (username u) = nocase name) (users d) = None"
    using ok(4) by (simp add: find_None_iff)
  then have "find (\<lambda>u. nocase (username u) = nocase name') (users d') = Some ?u"
    using assms(2) by (simp add: users find_append)
  moreover have "\<exists>u \<in> set (users d'). nocase (username u) = nocase name'"
    using assms(2) by (simp add: users)
  ultimately show ?thesis
    using ok(1,2) assms(3,4)
    by (simp add: get_user_by_username_def insert_user_def db_guard_defs)
qed simp

theorem insert_user_unique_witness:
  "(\<exists>u. get_user_by_username sqlite_ref ''ALICE'' demo_db =
          (Inr (Some u), demo_db\<lparr>stmt_no := Suc (stmt_no demo_db)\<rparr>) \<and>
        user_id u = 1 \<and> username u = ''Alice'' \<and> password_hash u = ''h'') \<and>
   insert_user sqlite_ref ''ALICE'' ''other'' demo_db =
     (Inl (SqlxDatabase ''UNIQUE constraint failed: users.username''), demo_db\<lparr>stmt_no := Suc (stmt_no demo_db)\<rparr>)"
proof (rule insert_user_unique)
  show "insert_user sqlite_ref ''Alice'' ''h'' migrated_database = (Inr 1, demo_db)"
    by (simp add: demo_db_def insert_user_def db_guard_defs migrated_database_def i64_max_def)
  show "nocase ''ALICE'' = nocase ''Alice''" by code_simp
qed (simp_all add: demo_db_def insert_user_def db_guard_defs migrated_database_def i64_max_def add_user_def)

text \<open>
  A stored gas sample is the one its block has from then on, the samples of all other blocks are
  unchanged, and a repeated block replaces its row instead of adding one.
\<close>

theorem insert_gas_sample_last_wins:
  assumes "insert_gas_sample E block base priority d = (Inr (), d')"
  shows "\<exists>i b p clock. bind_real base = Some b \<and> bind_real priority = Some p \<and>
      gas_at d' (u64_as_i64 block) = Some (i, b, p, clock) \<and>
      (\<forall>other. other \<noteq> block \<longrightarrow> gas_at d' (u64_as_i64 other) = gas_at d (u64_as_i64 other)) \<and>
      g_block_number ` set (gas_history d') = insert (u64_as_i64 block) (g_block_number ` set (gas_history d))"
  using assms
proof (cases rule: insert_gas_sample_cases)
  case (ok b p clock)
  let ?v = "(gas_seq d + 1, b, p, clock)"
  have d': "d' = replace_gas (gas_row_of (u64_as_i64 block) ?v) (tick d)" using ok by simp
  have inj: "u64_as_i64 other = u64_as_i64 block \<longleftrightarrow> other = block" for other
    by (metis i64_as_u64_as_i64)
  have "gas_at d' k = (if k = u64_as_i64 block then Some ?v else gas_at d k)" for k
    using gas_table.look_put [of "u64_as_i64 block" ?v "tick d" k] by (simp only: d') (simp add: gas_at_def)
  moreover have "g_block_number ` set (gas_history d') =
      insert (u64_as_i64 block) (g_block_number ` set (gas_history d))"
    by (auto simp: d' replace_gas_def)
  ultimately show ?thesis using ok(3,4) by (auto simp: inj)
qed simp

theorem insert_gas_sample_last_wins_witness:
  "\<exists>d'. insert_gas_sample sqlite_ref 19 (F64_Zero False) (F64_Zero False) demo_db = (Inr (), d') \<and>
   (\<exists>i b p clock. bind_real (F64_Zero False) = Some b \<and> bind_real (F64_Zero False) = Some p \<and>
     gas_at d' (u64_as_i64 19) = Some (i, b, p, clock) \<and>
     (\<forall>other. other \<noteq> 19 \<longrightarrow> gas_at d' (u64_as_i64 other) = gas_at demo_db (u64_as_i64 other)) \<and>
     g_block_number ` set (gas_history d') = insert (u64_as_i64 19) (g_block_number ` set (gas_history demo_db)))"
proof -
  have "gas_seq demo_db < i64_max"
    by (simp add: demo_db_def insert_user_def db_guard_defs migrated_database_def i64_max_def add_user_def)
  then obtain d' where d': "insert_gas_sample sqlite_ref 19 (F64_Zero False) (F64_Zero False) demo_db = (Inr (), d')"
    by (simp add: insert_gas_sample_def db_guard_defs bind_real_def)
  show ?thesis by (intro exI [of _ d'] conjI d') (rule insert_gas_sample_last_wins [OF d'])
qed

section \<open>Types of the columns\<close>

text \<open>What a REAL column can hold: SQLite stores NaN as NULL and negative zero as zero.\<close>

definition real_column :: "f64 \<Rightarrow> bool" where
  "real_column x \<longleftrightarrow> \<not> f64_is_nan x \<and> x \<noteq> F64_Zero True"

definition rows_typed :: "alloy \<Rightarrow> database \<Rightarrow> bool" where
  "rows_typed L d \<longleftrightarrow>
     (\<forall>r \<in> set (trades d). real_column (t_gas_cost_usd r) \<and> (\<forall>x. t_net_profit_usd r = Some x \<longrightarrow> real_column x) \<and>
        (\<exists>t. trade_of_row L r = Inr t \<and> row_of_trade L (t_id r) (tr_gas_cost_usd t) t = r)) \<and>
     (\<forall>r \<in> set (opportunities d). real_column (o_estimated_profit r) \<and> real_column (o_gas_estimate_usd r)) \<and>
     (\<forall>r \<in> set (gas_history d). real_column (g_base_fee_gwei r) \<and> real_column (g_priority_fee_gwei r))"

lemma bind_real_column: "bind_real x = Some y \<Longrightarrow> real_column y \<and> bind_real y = Some y"
  by (cases x) (auto simp: bind_real_def real_column_def)

lemma row_of_stored_trade: "row_of_trade L rid g (stored_trade g t) = row_of_trade L rid g t"
  by (cases "tr_net_profit_usd t")
    (auto simp: row_of_trade_def stored_trade_def bind_real_def split: f64.splits)

lemma db_step_typed:
  assumes "alloy_text_ok L"
  shows "db_step L E d d' \<Longrightarrow> rows_typed L d \<Longrightarrow> rows_typed L d'"
proof (induction rule: db_step.induct)
  case (step_user name hash d r d')
  then show ?case by (cases rule: insert_user_cases) (simp_all add: rows_typed_def add_user_def)
next
  case (step_trade t d r d')
  from step_trade(1) show ?case
  proof (cases rule: insert_trade_cases)
    case (ok rid g)
    let ?r = "row_of_trade L rid g t"
    have "trade_of_row L ?r = Inr (stored_trade g t)" "row_of_trade L (t_id ?r) (tr_gas_cost_usd (stored_trade g t)) (stored_trade g t) = ?r"
      using trade_of_row_of_trade [OF assms] row_of_stored_trade [of L rid g t] by (simp_all add: stored_trade_def row_of_trade_def)
    moreover have "real_column (t_gas_cost_usd ?r)" "\<And>x. t_net_profit_usd ?r = Some x \<Longrightarrow> real_column x"
      using bind_real_column ok(4) by (auto simp: row_of_trade_def bind_eq_Some_conv)
    ultimately show ?thesis using ok(6) step_trade(2) by (fastforce simp: rows_typed_def add_trade_def)
  qed (use step_trade(2) in \<open>simp add: rows_typed_def\<close>)
next
  case (step_opportunity opp dec why tid d r d')
  from step_opportunity(1) show ?case
  proof (cases rule: insert_opportunity_cases)
    case (ok row)
    then show ?thesis using step_opportunity(2) bind_real_column by (fastforce simp: rows_typed_def add_opportunity_def)
  qed (use step_opportunity(2) in \<open>simp add: rows_typed_def\<close>)
next
  case (step_gas block base priority d r d')
  from step_gas(1) show ?case
  proof (cases rule: insert_gas_sample_cases)
    case (ok b p clock)
    then show ?thesis using step_gas(2) bind_real_column by (fastforce simp: rows_typed_def replace_gas_def)
  qed (use step_gas(2) in \<open>simp add: rows_typed_def\<close>)
next
  case (step_set k v d r d')
  then show ?case by (cases rule: set_bot_state_cases) (simp_all add: rows_typed_def put_state_def)
qed (simp add: rows_typed_def)

lemma db_reachable_typed:
  assumes "alloy_text_ok L" "db_reachable L E d"
  shows "rows_typed L d"
  using assms(2) unfolding db_reachable_def
proof (induction rule: rtranclp_induct)
  case base
  show ?case by (simp add: rows_typed_def migrated_database_def)
qed (use db_step_typed [OF assms(1)] in blast)

end
