(* ===== verification/Gas_Sampler.thy ===== *)
theory Gas_Sampler
  imports Gas_Oracle Pool_Store Database
begin

text \<open>
  The sampler task of \<^verbatim>\<open>zelvex-gas/src/lib.rs\<close>: for every block of the node's stream it feeds the gas
  oracle, stores the sample and the block number in the database, and on any error starts over with
  the reconnect loop of \<open>Retry\<close>. A stream element is the header with the node's answer to the
  priority-fee request made for it.
\<close>

datatype gas_sampler_error = SamplerConnectionFailed | SamplerDb sqlx_error

definition wei_to_gwei :: "u128 \<Rightarrow> f64" where
  "wei_to_gwei fee = f64_div (f64_of_word fee) (f64_of_int 1000000000)"

type_synonym sampler_state = "gas_oracle \<times> database"

definition on_sampler_db :: "'a db_io \<Rightarrow> (sampler_state, sqlx_error, 'a) io" where
  "on_sampler_db f s = (case f (snd s) of (r, d) \<Rightarrow> (r, (fst s, d)))"

definition feed_oracle :: "u128 \<Rightarrow> u128 \<Rightarrow> (sampler_state, 'e, unit) io" where
  "feed_oracle b p s = (Inr (), (push_sample b p (fst s), snd s))"

definition sample_block ::
  "sqlite \<Rightarrow> block_header \<times> (unit + u128) \<Rightarrow> (sampler_state, gas_sampler_error, unit) io" where
  "sample_block E hp =
     (let block_number = bh_number (fst hp);
          base_fee_wei = (case bh_base_fee_per_gas (fst hp) of None \<Rightarrow> 0 | Some b \<Rightarrow> b)
      in case snd hp of
           Inl _ \<Rightarrow> errE SamplerConnectionFailed
         | Inr priority_fee_wei \<Rightarrow>
             bindE (feed_oracle base_fee_wei priority_fee_wei) (\<lambda>_.
             bindE (mapErr SamplerDb (on_sampler_db
               (insert_gas_sample E block_number (wei_to_gwei base_fee_wei) (wei_to_gwei priority_fee_wei)))) (\<lambda>_.
             mapErr SamplerDb (on_sampler_db (set_bot_state E ''last_block'' (dec_string (unat block_number)))))))"

fun sample_blocks ::
  "sqlite \<Rightarrow> (block_header \<times> (unit + u128)) list \<Rightarrow> (sampler_state, gas_sampler_error, unit) io" where
  "sample_blocks E [] = errE SamplerConnectionFailed"
| "sample_blocks E (hp # hps) = bindE (sample_block E hp) (\<lambda>_. sample_blocks E hps)"

definition run_gas_sampler_once ::
  "sqlite \<Rightarrow> (block_header \<times> (unit + u128)) ws_session \<Rightarrow> (sampler_state, gas_sampler_error, unit) io" where
  "run_gas_sampler_once E ws =
     (case ws_connect ws of
        Inl _ \<Rightarrow> errE SamplerConnectionFailed
      | Inr _ \<Rightarrow>
          (case ws_subscribe ws of
             Inl _ \<Rightarrow> errE SamplerConnectionFailed
           | Inr _ \<Rightarrow> sample_blocks E (ws_stream ws)))"

definition run_gas_sampler ::
  "sqlite \<Rightarrow> (nat \<Rightarrow> (block_header \<times> (unit + u128)) ws_session) \<Rightarrow> sampler_state \<Rightarrow>
     (gas_sampler_error + unit) \<times> sampler_state \<times> nat list" where
  "run_gas_sampler E ws s = retry (\<lambda>i. run_gas_sampler_once E (ws i)) 0 (duration_secs 1) s"

section \<open>Sessions\<close>

lemma sample_blocks_fails: "\<exists>e. fst (sample_blocks E hps s) = Inl e"
  by (induction hps arbitrary: s) (auto simp: errE_def bindE_def split: prod.splits sum.splits)

lemma sampler_session_fails: "\<exists>e. fst (run_gas_sampler_once E ws s) = Inl e"
  using sample_blocks_fails [of E "ws_stream ws" s]
  by (auto simp: run_gas_sampler_once_def errE_def split: sum.splits)

lemma wei_to_gwei_real: "\<exists>g. bind_real (wei_to_gwei w) = Some g"
proof -
  have "f64_is_finite (wei_to_gwei w)"
    using f64_below_div [OF f64_below_u128 gwei_divisor(1,2), of w] gwei_divisor(3)
    by (simp add: f64_below_def wei_to_gwei_def)
  then show ?thesis by (cases "wei_to_gwei w") (simp_all add: bind_real_def)
qed

definition base_fee_of :: "block_header \<Rightarrow> u128" where
  "base_fee_of h = (case bh_base_fee_per_gas h of None \<Rightarrow> 0 | Some b \<Rightarrow> b)"

lemma sample_block_ok:
  assumes "\<And>n. stmt_fault E n = None" "gas_seq d < i64_max"
  shows "\<exists>d'. sample_block E (h, Inr p) (o1, d) = (Inr (), (push_sample (base_fee_of h) p o1, d')) \<and>
     bot_state d' = (bot_state d)(''last_block'' \<mapsto> dec_string (unat (bh_number h))) \<and>
     gas_seq d' = gas_seq d + 1 \<and>
     (\<forall>k. (gas_at d' k \<noteq> None) = (k = u64_as_i64 (bh_number h) \<or> gas_at d k \<noteq> None)) \<and>
     (\<exists>i b q c. gas_at d' (u64_as_i64 (bh_number h)) = Some (i, b, q, c) \<and>
        bind_real (wei_to_gwei (base_fee_of h)) = Some b \<and> bind_real (wei_to_gwei p) = Some q)"
proof -
  obtain b q where bq: "bind_real (wei_to_gwei (base_fee_of h)) = Some b" "bind_real (wei_to_gwei p) = Some q"
    using wei_to_gwei_real by metis
  let ?v = "(gas_seq d + 1, b, q, now_of E (tick d))"
  let ?d1 = "replace_gas (gas_row_of (u64_as_i64 (bh_number h)) ?v) (tick d)"
  let ?d2 = "put_state ''last_block'' (dec_string (unat (bh_number h))) (tick ?d1)"
  have "insert_gas_sample E (bh_number h) (wei_to_gwei (base_fee_of h)) (wei_to_gwei p) d = (Inr (), ?d1)"
    using assms bq by (simp add: insert_gas_sample_def db_guard_defs)
  then have "sample_block E (h, Inr p) (o1, d) = (Inr (), (push_sample (base_fee_of h) p o1, ?d2))"
    using assms(1)
    by (simp add: sample_block_def base_fee_of_def bindE_def feed_oracle_def mapErr_def on_sampler_db_def
        set_bot_state_def stmt_def Let_def)
  moreover have "gas_at ?d2 k = (if k = u64_as_i64 (bh_number h) then Some ?v else gas_at d k)" for k
  proof -
    have "gas_at ?d2 k = gas_at ?d1 k" "gas_at (tick d) k = gas_at d k" by (simp_all add: gas_at_def put_state_def)
    then show ?thesis using gas_table.look_put [of "u64_as_i64 (bh_number h)" ?v "tick d" k] by simp
  qed
  ultimately show ?thesis using bq by (intro exI [of _ ?d2]) (simp add: put_state_def replace_gas_def)
qed

lemma sample_blocks_ok:
  assumes "\<And>n. stmt_fault E n = None" "gas_seq d + int (length hps) \<le> i64_max"
  shows "\<exists>d'. sample_blocks E (map (\<lambda>(h, p). (h, Inr p)) hps) (o1, d) =
       (Inl SamplerConnectionFailed, (fold (\<lambda>(h, p). push_sample (base_fee_of h) p) hps o1, d')) \<and>
     bot_state d' ''last_block'' =
       (if hps = [] then bot_state d ''last_block'' else Some (dec_string (unat (bh_number (fst (last hps)))))) \<and>
     (\<forall>k. (gas_at d' k \<noteq> None) = (k \<in> (\<lambda>(h, p). u64_as_i64 (bh_number h)) ` set hps \<or> gas_at d k \<noteq> None))"
  using assms(2)
proof (induction hps arbitrary: d o1)
  case Nil
  then show ?case by (simp add: errE_def)
next
  case (Cons hp hps)
  obtain h p where hp: "hp = (h, p)" by fastforce
  have "gas_seq d < i64_max" using Cons.prems by simp
  from sample_block_ok [OF assms(1) this, of h p o1] obtain d1 where d1:
    "sample_block E (h, Inr p) (o1, d) = (Inr (), (push_sample (base_fee_of h) p o1, d1))"
    "bot_state d1 = (bot_state d)(''last_block'' \<mapsto> dec_string (unat (bh_number h)))"
    "gas_seq d1 = gas_seq d + 1"
    "\<forall>k. (gas_at d1 k \<noteq> None) = (k = u64_as_i64 (bh_number h) \<or> gas_at d k \<noteq> None)" by blast
  have "gas_seq d1 + int (length hps) \<le> i64_max" using Cons.prems d1(3) by simp
  from Cons.IH [OF this, of "push_sample (base_fee_of h) p o1"] obtain d' where d':
    "sample_blocks E (map (\<lambda>(h, p). (h, Inr p)) hps) (push_sample (base_fee_of h) p o1, d1) =
       (Inl SamplerConnectionFailed,
        (fold (\<lambda>(h, p). push_sample (base_fee_of h) p) hps (push_sample (base_fee_of h) p o1), d'))"
    "bot_state d' ''last_block'' =
       (if hps = [] then bot_state d1 ''last_block'' else Some (dec_string (unat (bh_number (fst (last hps))))))"
    "\<forall>k. (gas_at d' k \<noteq> None) = (k \<in> (\<lambda>(h, p). u64_as_i64 (bh_number h)) ` set hps \<or> gas_at d1 k \<noteq> None)"
    by blast
  have "sample_blocks E (map (\<lambda>(h, p). (h, Inr p)) (hp # hps)) (o1, d) =
       (Inl SamplerConnectionFailed, (fold (\<lambda>(h, p). push_sample (base_fee_of h) p) (hp # hps) o1, d'))"
    using d1(1) d'(1) by (simp add: hp bindE_def)
  then show ?case using d'(2,3) d1(2,4) by (intro exI [of _ d']) (auto simp: hp)
qed

section \<open>Properties\<close>

text \<open>
  The sampler never returns \<open>Ok\<close>: after exactly ten sessions, with sleeps of 1, 2, 4, ..., 256 seconds
  between them, it returns the error of the tenth, and oracle and database are as that session left
  them.
\<close>

theorem run_gas_sampler_ten_sessions:
  "\<exists>e. run_gas_sampler E ws s =
     (Inl e, retry_states (\<lambda>i. run_gas_sampler_once E (ws i)) 0 10 s, map (\<lambda>i. duration_secs (2 ^ i)) [0..<9]) \<and>
   fst (run_gas_sampler_once E (ws 9) (retry_states (\<lambda>i. run_gas_sampler_once E (ws i)) 0 9 s)) = Inl e"
proof -
  have "\<exists>e. fst (run_gas_sampler_once E (ws i) s) = Inl e" for i s by (rule sampler_session_fails)
  then show ?thesis unfolding run_gas_sampler_def by (subst retry_schedule) auto
qed

text \<open>
  C31: a session in which every priority-fee request is answered and the database does not fail feeds the
  oracle every block of the stream in order, leaves the number of the last block in \<open>bot_state\<close>, and
  the gas history then has a row exactly for the blocks it had before and those of the stream.
\<close>

theorem gas_session_records:
  assumes "\<And>n. stmt_fault E n = None" "gas_seq d + int (length hps) \<le> i64_max" "hps \<noteq> []"
    "ws = \<lparr>ws_connect = Inr (), ws_subscribe = Inr (), ws_stream = map (\<lambda>(h, p). (h, Inr p)) hps\<rparr>"
  shows "\<exists>d'. run_gas_sampler_once E ws (o1, d) =
       (Inl SamplerConnectionFailed, (fold (\<lambda>(h, p). push_sample (base_fee_of h) p) hps o1, d')) \<and>
     bot_state d' ''last_block'' = Some (dec_string (unat (bh_number (fst (last hps))))) \<and>
     (\<forall>k. (gas_at d' k \<noteq> None) = (k \<in> (\<lambda>(h, p). u64_as_i64 (bh_number h)) ` set hps \<or> gas_at d k \<noteq> None))"
  using sample_blocks_ok [OF assms(1,2), of o1] assms(3,4) by (simp add: run_gas_sampler_once_def)

theorem gas_session_records_witness:
  "\<exists>d'. run_gas_sampler_once sqlite_ref
       \<lparr>ws_connect = Inr (), ws_subscribe = Inr (), ws_stream = map (\<lambda>(h, p). (h, Inr p))
          [(\<lparr>bh_number = 19, bh_timestamp = 0, bh_base_fee_per_gas = Some 30000000000\<rparr>, 1500000000)]\<rparr>
       (GasOracle_new, migrated_database) =
       (Inl SamplerConnectionFailed, (fold (\<lambda>(h, p). push_sample (base_fee_of h) p)
          [(\<lparr>bh_number = 19, bh_timestamp = 0, bh_base_fee_per_gas = Some 30000000000\<rparr>, 1500000000)] GasOracle_new, d')) \<and>
     bot_state d' ''last_block'' = Some (dec_string (unat (bh_number (fst (last
          [(\<lparr>bh_number = 19, bh_timestamp = 0, bh_base_fee_per_gas = Some 30000000000\<rparr>, 1500000000 :: u128)]))))) \<and>
     (\<forall>k. (gas_at d' k \<noteq> None) = (k \<in> (\<lambda>(h, p). u64_as_i64 (bh_number h)) ` set
          [(\<lparr>bh_number = 19, bh_timestamp = 0, bh_base_fee_per_gas = Some 30000000000\<rparr>, 1500000000 :: u128)]
        \<or> gas_at migrated_database k \<noteq> None))"
  by (rule gas_session_records) (simp_all add: migrated_database_def i64_max_def)

end
