(* ===== verification/Profit_Sim.thy ===== *)
theory Profit_Sim
  imports Zelvex_Types
begin

text \<open>
  The profit decision and the backtest of \<^verbatim>\<open>zelvex-sim\<close> (\<^verbatim>\<open>lib.rs\<close>, \<^verbatim>\<open>backtest.rs\<close>), in double
  arithmetic operation by operation.
\<close>

section \<open>lib.rs\<close>

definition gas_cost_usd_of :: "f64 \<Rightarrow> f64 \<Rightarrow> f64" where
  "gas_cost_usd_of total_gwei eth_price_usd =
     (let gas_cost_eth = f64_div (f64_mul total_gwei (f64_of_int 200000)) (f64_of_int 1000000000)
      in f64_mul gas_cost_eth eth_price_usd)"

definition no_go_text :: "f64 \<Rightarrow> f64 \<Rightarrow> string" where
  "no_go_text net min_profit =
     ''net_profit_usd '' @ f64_fmt_fixed 4 net @ '' <= min_profit_usd '' @ f64_fmt_fixed 4 min_profit"

definition evaluate :: "arbitrage_opportunity \<Rightarrow> gas_estimate \<Rightarrow> f64 \<Rightarrow> f64 \<Rightarrow> profit_decision" where
  "evaluate opp gas eth_price_usd min_profit_usd =
     (let gas_cost = gas_cost_usd_of (recommended_total_gwei gas) eth_price_usd;
          net_profit = f64_sub (opp_estimated_profit_usd opp) gas_cost
      in if f64_gt net_profit min_profit_usd
         then Go net_profit gas_cost
         else NoGo (no_go_text net_profit min_profit_usd))"

section \<open>backtest.rs\<close>

record backtest_mismatch =
  bm_opportunity_id :: i64
  bm_original_decision :: string
  bm_recomputed_decision :: string
  bm_original_no_go_reason :: "string option"
  bm_recomputed_no_go_reason :: "string option"
  bm_estimated_profit_usd :: f64
  bm_gas_estimate_usd :: f64
  bm_net_profit_usd :: f64

record backtest_report =
  total :: nat
  matched :: nat
  mismatched :: nat
  match_rate_pct :: f64
  total_estimated_profit_go_usd :: f64
  total_gas_cost_go_usd :: f64
  mismatches :: "backtest_mismatch list"

text \<open>The five \<open>mut\<close> variables of the loop.\<close>

record backtest_acc =
  acc_matched :: nat
  acc_mismatched :: nat
  acc_profit_go :: f64
  acc_gas_go :: f64
  acc_mismatches :: "backtest_mismatch list"

definition recompute :: "opportunity_record \<Rightarrow> f64 \<Rightarrow> string \<times> string option" where
  "recompute row min_profit_usd =
     (let net_profit = f64_sub (or_estimated_profit_usd row) (or_gas_estimate_usd row)
      in if f64_gt net_profit min_profit_usd then (''go'', None)
         else (''no-go'', Some (no_go_text net_profit min_profit_usd)))"

definition backtest_row :: "f64 \<Rightarrow> opportunity_record \<Rightarrow> backtest_acc \<Rightarrow> backtest_acc" where
  "backtest_row min_profit_usd row acc =
     (let net_profit = f64_sub (or_estimated_profit_usd row) (or_gas_estimate_usd row);
          (recomputed_decision, recomputed_no_go_reason) = recompute row min_profit_usd;
          acc1 = (if or_original_decision row = ''go''
                  then acc\<lparr>acc_profit_go := f64_add (acc_profit_go acc) (or_estimated_profit_usd row),
                           acc_gas_go := f64_add (acc_gas_go acc) (or_gas_estimate_usd row)\<rparr>
                  else acc)
      in if or_original_decision row = recomputed_decision
         then acc1\<lparr>acc_matched := acc_matched acc1 + 1\<rparr>
         else acc1\<lparr>acc_mismatched := acc_mismatched acc1 + 1,
                   acc_mismatches := acc_mismatches acc1 @
                     [\<lparr>bm_opportunity_id = or_id row,
                       bm_original_decision = or_original_decision row,
                       bm_recomputed_decision = recomputed_decision,
                       bm_original_no_go_reason = or_original_no_go_reason row,
                       bm_recomputed_no_go_reason = recomputed_no_go_reason,
                       bm_estimated_profit_usd = or_estimated_profit_usd row,
                       bm_gas_estimate_usd = or_gas_estimate_usd row,
                       bm_net_profit_usd = net_profit\<rparr>]\<rparr>)"

definition backtest_init :: backtest_acc where
  "backtest_init = \<lparr>acc_matched = 0, acc_mismatched = 0, acc_profit_go = F64_Zero False,
     acc_gas_go = F64_Zero False, acc_mismatches = []\<rparr>"

definition run_backtest :: "opportunity_record list \<Rightarrow> f64 \<Rightarrow> backtest_report" where
  "run_backtest rows min_profit_usd =
     (let acc = fold (backtest_row min_profit_usd) rows backtest_init;
          n = length rows
      in \<lparr>total = n,
          matched = acc_matched acc,
          mismatched = acc_mismatched acc,
          match_rate_pct =
            (if n = 0 then f64_of_int 100
             else f64_mul (f64_div (f64_of_int (int (acc_matched acc))) (f64_of_int (int n))) (f64_of_int 100)),
          total_estimated_profit_go_usd = acc_profit_go acc,
          total_gas_cost_go_usd = acc_gas_go acc,
          mismatches = acc_mismatches acc\<rparr>)"

section \<open>The loop in closed form\<close>

definition row_matches :: "f64 \<Rightarrow> opportunity_record \<Rightarrow> bool" where
  "row_matches m row \<longleftrightarrow> or_original_decision row = fst (recompute row m)"

definition mismatch_of :: "f64 \<Rightarrow> opportunity_record \<Rightarrow> backtest_mismatch" where
  "mismatch_of m row =
     \<lparr>bm_opportunity_id = or_id row,
      bm_original_decision = or_original_decision row,
      bm_recomputed_decision = fst (recompute row m),
      bm_original_no_go_reason = or_original_no_go_reason row,
      bm_recomputed_no_go_reason = snd (recompute row m),
      bm_estimated_profit_usd = or_estimated_profit_usd row,
      bm_gas_estimate_usd = or_gas_estimate_usd row,
      bm_net_profit_usd = f64_sub (or_estimated_profit_usd row) (or_gas_estimate_usd row)\<rparr>"

definition go_rows :: "opportunity_record list \<Rightarrow> opportunity_record list" where
  "go_rows = filter (\<lambda>r. or_original_decision r = ''go'')"

lemma backtest_row_simp:
  "backtest_row m row acc =
     (let acc1 = (if or_original_decision row = ''go''
                  then acc\<lparr>acc_profit_go := f64_add (acc_profit_go acc) (or_estimated_profit_usd row),
                           acc_gas_go := f64_add (acc_gas_go acc) (or_gas_estimate_usd row)\<rparr>
                  else acc)
      in if row_matches m row then acc1\<lparr>acc_matched := acc_matched acc1 + 1\<rparr>
         else acc1\<lparr>acc_mismatched := acc_mismatched acc1 + 1,
                   acc_mismatches := acc_mismatches acc1 @ [mismatch_of m row]\<rparr>)"
  by (simp add: backtest_row_def row_matches_def mismatch_of_def Let_def split: prod.splits)

lemma backtest_fold:
  "fold (backtest_row m) rows acc =
     \<lparr>acc_matched = acc_matched acc + length (filter (row_matches m) rows),
      acc_mismatched = acc_mismatched acc + length (filter (\<lambda>r. \<not> row_matches m r) rows),
      acc_profit_go = fold (\<lambda>r s. f64_add s (or_estimated_profit_usd r)) (go_rows rows) (acc_profit_go acc),
      acc_gas_go = fold (\<lambda>r s. f64_add s (or_gas_estimate_usd r)) (go_rows rows) (acc_gas_go acc),
      acc_mismatches = acc_mismatches acc @ map (mismatch_of m) (filter (\<lambda>r. \<not> row_matches m r) rows)\<rparr>"
proof (induction rows arbitrary: acc)
  case Nil
  then show ?case by (simp add: go_rows_def)
next
  case (Cons row rows)
  show ?case
    by (simp only: fold_simps Cons.IH) (simp add: backtest_row_simp Let_def go_rows_def)
qed

lemma length_filter_not: "length (filter P xs) + length (filter (\<lambda>x. \<not> P x) xs) = length xs"
  by (simp add: sum_length_filter_compl)

section \<open>Monotonicity of the decision\<close>

lemma f64_of_int_wf [simp]: "f64_wf (f64_of_int i)" "\<not> f64_is_nan (f64_of_int i)"
  using f64_of_int_correct by auto

lemma f64_of_int_pos:
  assumes "0 < i" "i \<le> 2 ^ 53"
  shows "f64_is_finite (f64_of_int i)" "0 < f64_val (f64_of_int i)" "1 \<le> \<bar>f64_val (f64_of_int i)\<bar>"
    "f64_le (F64_Zero False) (f64_of_int i)"
proof -
  have v: "f64_val (f64_of_int i) = of_int i" using assms by (intro f64_of_int_exact) simp
  show "f64_is_finite (f64_of_int i)"
    using f64_below_of_int [of i 53] assms by (simp add: f64_below_def)
  show "0 < f64_val (f64_of_int i)" "1 \<le> \<bar>f64_val (f64_of_int i)\<bar>" using assms by (simp_all add: v)
  show "f64_le (F64_Zero False) (f64_of_int i)" using assms by (simp add: f64_le_val v)
qed

lemma gas_cost_wf [simp]: "f64_wf g \<Longrightarrow> f64_wf p \<Longrightarrow> f64_wf (gas_cost_usd_of g p)"
  by (simp add: gas_cost_usd_of_def Let_def f64_correct)

lemma gas_eth_mono:
  assumes "f64_wf g" "f64_wf h" "f64_le g h"
  shows "f64_le (f64_div (f64_mul g (f64_of_int 200000)) (f64_of_int 1000000000))
                (f64_div (f64_mul h (f64_of_int 200000)) (f64_of_int 1000000000))"
proof -
  have nn: "\<not> f64_is_nan (f64_mul x (f64_of_int 200000))" if "\<not> f64_is_nan x" "f64_wf x" for x
    using that f64_mul_correct(2) [OF that(2) f64_of_int_wf(1), of 200000]
      f64_of_int_pos [of 200000] f64_mul_inf [of _ "f64_of_int 200000"]
    by (cases x rule: f64_cases_finite; cases "f64_of_int 200000") auto
  have "f64_le (f64_mul g (f64_of_int 200000)) (f64_mul h (f64_of_int 200000))"
    using assms f64_of_int_pos [of 200000]
    by (intro f64_mul_mono nn) (auto simp: f64_le_def)
  then show ?thesis
    using assms f64_of_int_pos [of 1000000000] by (intro f64_div_mono) (simp_all add: f64_correct)
qed

lemma gas_cost_mono:
  assumes "f64_wf g" "f64_wf h" "f64_wf p" "f64_le g h" "f64_le (F64_Zero False) p"
    and "\<not> f64_is_nan (gas_cost_usd_of g p)" "\<not> f64_is_nan (gas_cost_usd_of h p)"
  shows "f64_le (gas_cost_usd_of g p) (gas_cost_usd_of h p)"
  using assms unfolding gas_cost_usd_of_def Let_def
  by (intro f64_mul_mono gas_eth_mono) (simp_all add: f64_correct)

lemma gas_cost_below:
  assumes "f64_below 400 g" "f64_below 400 p"
  shows "f64_below 818 (gas_cost_usd_of g p)"
proof -
  have "f64_below 18 (f64_of_int 200000)" using f64_below_of_int [of 200000 18] by simp
  then have "f64_below 418 (f64_mul g (f64_of_int 200000))"
    using f64_below_mul [OF assms(1), of 18] by simp
  then have "f64_below 418 (f64_div (f64_mul g (f64_of_int 200000)) (f64_of_int 1000000000))"
    using f64_of_int_pos [of 1000000000] by (intro f64_below_div) simp_all
  then show ?thesis
    using f64_below_mul [OF _ assms(2), of 418] by (simp add: gas_cost_usd_of_def Let_def)
qed

lemma f64_belowD: "f64_below k x \<Longrightarrow> f64_wf x" "f64_below k x \<Longrightarrow> f64_is_finite x"
    "f64_below k x \<Longrightarrow> \<not> f64_is_nan x"
  by (auto simp: f64_below_def f64_finite_not_nan)

lemma evaluate_go_iff:
  "is_go (evaluate opp gas price m) \<longleftrightarrow>
     f64_lt m (f64_sub (opp_estimated_profit_usd opp) (gas_cost_usd_of (recommended_total_gwei gas) price))"
  by (simp add: evaluate_def Let_def)

lemma f64_lt_not_nan: "f64_lt x y \<Longrightarrow> \<not> f64_is_nan x \<and> \<not> f64_is_nan y"
  by (cases x; cases y) auto

section \<open>Properties\<close>

text \<open>
  C15: a \<open>Go\<close> decision is sound: with a threshold of at least zero, the opportunity's estimated
  profit strictly exceeds the gas cost reported in the decision, the reported net profit exceeds
  the threshold, and the reported figures are the computed ones. Rounding, infinities and NaN do not
  break this.
\<close>

theorem evaluate_go_sound:
  assumes "evaluate opp gas price m = Go n g"
    and "f64_wf (opp_estimated_profit_usd opp)" "f64_wf (recommended_total_gwei gas)" "f64_wf price" "f64_wf m"
    and "f64_le (F64_Zero False) m"
  shows "f64_gt (opp_estimated_profit_usd opp) g \<and> f64_gt n m \<and>
         g = gas_cost_usd_of (recommended_total_gwei gas) price \<and>
         n = f64_sub (opp_estimated_profit_usd opp) g"
proof -
  have g: "g = gas_cost_usd_of (recommended_total_gwei gas) price"
    and n: "n = f64_sub (opp_estimated_profit_usd opp) g" and gt: "f64_gt n m"
    using assms(1) by (auto simp: evaluate_def Let_def split: if_splits)
  have wf: "f64_wf g" using assms by (simp add: g)
  have wn: "f64_wf n" unfolding n using assms(2) wf by (rule f64_sub_correct)
  have "f64_lt (F64_Zero False) n"
    using assms(5) wn by (intro f64_le_lt_trans [OF _ _ _ assms(6) gt]) simp_all
  then have "f64_lt g (opp_estimated_profit_usd opp)"
    unfolding n by (rule f64_sub_pos_imp [OF assms(2) wf])
  with gt g n show ?thesis by blast
qed

theorem evaluate_go_sound_witness:
  "let opp = \<lparr>opp_pool_a = 0, opp_pool_b = 0, opp_token_in = 0, opp_token_out = 0, opp_input_amount = 1,
              opp_estimated_profit_usd = f64_of_int 20, opp_gas_estimate_usd = f64_of_int 2, opp_spread_bps = 10\<rparr>;
       gas = \<lparr>base_fee_gwei = f64_of_int 10, priority_fee_gwei = f64_of_int 1, recommended_total_gwei = f64_of_int 11\<rparr>
   in \<exists>n g. evaluate opp gas (f64_of_int 3000) (f64_of_int 5) = Go n g \<and> f64_gt (f64_of_int 20) g"
proof -
  let ?opp = "\<lparr>opp_pool_a = 0, opp_pool_b = 0, opp_token_in = 0, opp_token_out = 0, opp_input_amount = 1,
              opp_estimated_profit_usd = f64_of_int 20, opp_gas_estimate_usd = f64_of_int 2, opp_spread_bps = 10\<rparr>"
  let ?gas = "\<lparr>base_fee_gwei = f64_of_int 10, priority_fee_gwei = f64_of_int 1, recommended_total_gwei = f64_of_int 11\<rparr>"
  have "is_go (evaluate ?opp ?gas (f64_of_int 3000) (f64_of_int 5))" by code_simp
  then obtain n g where e: "evaluate ?opp ?gas (f64_of_int 3000) (f64_of_int 5) = Go n g"
    by (cases "evaluate ?opp ?gas (f64_of_int 3000) (f64_of_int 5)") auto
  show ?thesis
    unfolding Let_def using evaluate_go_sound [OF e] e f64_of_int_pos(4) [of 5] by auto
qed

text \<open>
  C24: the decision is monotone: an opportunity that is \<open>Go\<close> stays \<open>Go\<close> when its estimated profit is
  higher, gas is cheaper and the threshold is lower, at the same non-negative ETH price. Magnitudes
  up to 2^400 are covered, far beyond what the oracle and the price feed can produce.
\<close>

theorem evaluate_mono:
  assumes "is_go (evaluate opp gas price m)"
    and "f64_le (opp_estimated_profit_usd opp) (opp_estimated_profit_usd opp')"
    and "f64_le (recommended_total_gwei gas') (recommended_total_gwei gas)"
    and "f64_le m' m" "f64_le (F64_Zero False) price"
    and "f64_below 400 (recommended_total_gwei gas)" "f64_below 400 (recommended_total_gwei gas')"
    and "f64_below 400 price" "f64_below 400 (opp_estimated_profit_usd opp)"
    and "f64_below 400 (opp_estimated_profit_usd opp')" "f64_wf m" "f64_wf m'"
  shows "is_go (evaluate opp' gas' price m')"
proof -
  let ?g = "gas_cost_usd_of (recommended_total_gwei gas) price"
  let ?g' = "gas_cost_usd_of (recommended_total_gwei gas') price"
  let ?e = "opp_estimated_profit_usd opp" and ?e' = "opp_estimated_profit_usd opp'"
  note g = gas_cost_below [OF assms(6,8)] and g' = gas_cost_below [OF assms(7,8)]
  note wf = f64_belowD(1) [OF assms(9)] f64_belowD(1) [OF assms(10)] f64_belowD(1) [OF g] f64_belowD(1) [OF g']
  note fin = f64_belowD(2) [OF assms(9)] f64_belowD(2) [OF assms(10)] f64_belowD(2) [OF g] f64_belowD(2) [OF g']
  have sub: "\<not> f64_is_nan (f64_sub x y)" if "f64_wf x" "f64_wf y" "f64_is_finite x" "f64_is_finite y" for x y
    using f64_sub_correct(2) [OF that] by blast
  have gg: "f64_le ?g' ?g"
    using assms(3,5-8) g g' by (intro gas_cost_mono) (auto dest: f64_belowD)
  have "f64_le (f64_sub ?e ?g) (f64_sub ?e ?g')"
    using wf fin gg by (intro f64_sub_anti sub) auto
  moreover have "f64_le (f64_sub ?e ?g') (f64_sub ?e' ?g')"
    using wf fin assms(2) by (intro f64_sub_mono sub) auto
  ultimately have "f64_le (f64_sub ?e ?g) (f64_sub ?e' ?g')"
    using wf by (meson f64_le_trans f64_sub_correct(1))
  moreover have "f64_lt m (f64_sub ?e ?g)" using assms(1) by (simp add: evaluate_go_iff)
  ultimately have "f64_lt m' (f64_sub ?e' ?g')"
    using wf assms(4,11,12) by (meson f64_le_lt_trans f64_lt_le_trans f64_sub_correct(1))
  then show ?thesis by (simp add: evaluate_go_iff)
qed

theorem evaluate_mono_witness:
  "let opp = \<lparr>opp_pool_a = 0, opp_pool_b = 0, opp_token_in = 0, opp_token_out = 0, opp_input_amount = 1,
              opp_estimated_profit_usd = f64_of_int 20, opp_gas_estimate_usd = f64_of_int 2, opp_spread_bps = 10\<rparr>;
       gas = (\<lambda>n. \<lparr>base_fee_gwei = f64_of_int 9, priority_fee_gwei = f64_of_int 1, recommended_total_gwei = f64_of_int n\<rparr>)
   in is_go (evaluate (opp\<lparr>opp_estimated_profit_usd := f64_of_int 30\<rparr>) (gas 10) (f64_of_int 3000) (f64_of_int 4))"
proof -
  let ?opp = "\<lparr>opp_pool_a = 0, opp_pool_b = 0, opp_token_in = 0, opp_token_out = 0, opp_input_amount = 1,
              opp_estimated_profit_usd = f64_of_int 20, opp_gas_estimate_usd = f64_of_int 2, opp_spread_bps = 10\<rparr>"
  let ?gas = "\<lambda>n. \<lparr>base_fee_gwei = f64_of_int 9, priority_fee_gwei = f64_of_int 1, recommended_total_gwei = f64_of_int n\<rparr>"
  have go: "is_go (evaluate ?opp (?gas 11) (f64_of_int 3000) (f64_of_int 5))" by code_simp
  have below: "f64_below 400 (f64_of_int i)" if "\<bar>i\<bar> \<le> 2 ^ 53" for i
    using f64_below_of_int [OF that] by (auto intro: f64_below_mono)
  show ?thesis
    unfolding Let_def
    by (rule evaluate_mono [OF go]) (simp_all add: f64_of_int_mono below f64_of_int_pos)
qed

text \<open>
  The backtest counts every row once: the report's total is the number of rows, matched and
  mismatched rows add up to it, the mismatch list holds exactly the rows whose recorded decision
  differs from the recomputed one, in order, and the two sums add up the rows recorded as go.
\<close>

theorem run_backtest_report:
  "total (run_backtest rows m) = length rows \<and>
   matched (run_backtest rows m) + mismatched (run_backtest rows m) = length rows \<and>
   mismatches (run_backtest rows m) =
     map (mismatch_of m) (filter (\<lambda>r. or_original_decision r \<noteq> fst (recompute r m)) rows) \<and>
   mismatched (run_backtest rows m) = length (mismatches (run_backtest rows m)) \<and>
   total_estimated_profit_go_usd (run_backtest rows m) =
     fold (\<lambda>r s. f64_add s (or_estimated_profit_usd r)) (filter (\<lambda>r. or_original_decision r = ''go'') rows)
       (F64_Zero False) \<and>
   total_gas_cost_go_usd (run_backtest rows m) =
     fold (\<lambda>r s. f64_add s (or_gas_estimate_usd r)) (filter (\<lambda>r. or_original_decision r = ''go'') rows)
       (F64_Zero False)"
  using length_filter_not [of "row_matches m" rows]
  by (simp add: run_backtest_def backtest_fold backtest_init_def Let_def go_rows_def row_matches_def)

lemma run_backtest_counts:
  "matched (run_backtest rows m) = length (filter (row_matches m) rows)"
  "match_rate_pct (run_backtest rows m) =
     (if rows = [] then f64_of_int 100
      else f64_mul (f64_div (f64_of_int (int (length (filter (row_matches m) rows)))) (f64_of_int (int (length rows))))
             (f64_of_int 100))"
  by (simp_all add: run_backtest_def backtest_fold backtest_init_def Let_def)

lemma f64_ratio_pct:
  assumes "a \<le> b" "0 < b" "b \<le> 2 ^ 53"
  shows "f64_val (f64_mul (f64_div (f64_of_int (int a)) (f64_of_int (int b))) (f64_of_int 100)) =
           RN (RN (real a / real b) * 100) \<and>
         f64_wf (f64_mul (f64_div (f64_of_int (int a)) (f64_of_int (int b))) (f64_of_int 100)) \<and>
         \<not> f64_is_nan (f64_mul (f64_div (f64_of_int (int a)) (f64_of_int (int b))) (f64_of_int 100))"
proof -
  let ?a = "f64_of_int (int a)" and ?b = "f64_of_int (int b)"
  have bb: "int b \<le> 2 ^ 53" "int a \<le> 2 ^ 53" using assms by simp_all
  have va: "f64_val ?a = real a" "f64_val ?b = real b"
    using bb f64_of_int_exact [of "int a"] f64_of_int_exact [of "int b"] by simp_all
  have fb: "f64_is_finite ?b" using f64_of_int_pos [of "int b"] assms bb by simp
  have a53: "f64_below 53 ?a" using f64_below_of_int [of "int a" 53] bb by simp
  have d: "f64_below 53 (f64_div ?a ?b)"
    using a53 fb va assms(2) by (intro f64_below_div) simp_all
  have dv: "f64_val (f64_div ?a ?b) = RN (real a / real b)"
    using f64_div_correct(2) [of ?a ?b] a53 fb va assms(2) by (simp add: f64_belowD)
  show ?thesis
    using f64_mul_correct [of "f64_div ?a ?b" "f64_of_int 100"] d f64_of_int_pos [of 100]
      f64_of_int_exact [of 100] dv by (simp add: f64_belowD)
qed

lemma f64_ratio_pct_range:
  assumes "a \<le> b" "0 < b" "b \<le> 2 ^ 53"
    and "r = f64_mul (f64_div (f64_of_int (int a)) (f64_of_int (int b))) (f64_of_int 100)"
  shows "f64_le (F64_Zero False) r" "f64_le r (f64_of_int 100)" "a = b \<Longrightarrow> f64_val r = 100"
proof -
  note P = f64_ratio_pct [OF assms(1-3), folded assms(4)]
  have one: "RN 1 = 1" using RN_powi [of 0] by simp
  have c: "RN 100 = 100" using f64_of_int_exact [of 100] f64_of_int_correct [of 100] by simp
  have "0 \<le> real a / real b" "real a / real b \<le> 1" using assms by (simp_all add: divide_le_eq)
  then have "0 \<le> RN (real a / real b)" "RN (real a / real b) \<le> 1"
    using RN_mono [of "real a / real b" 1] one by (auto intro: RN_nonneg)
  then have "0 \<le> RN (RN (real a / real b) * 100)" "RN (RN (real a / real b) * 100) \<le> 100"
    using RN_mono [of "RN (real a / real b) * 100" 100] c by (auto intro: RN_nonneg)
  then show "f64_le (F64_Zero False) r" "f64_le r (f64_of_int 100)"
    using P f64_of_int_exact [of 100] by (simp_all add: f64_le_val)
  show "a = b \<Longrightarrow> f64_val r = 100" using P one c assms(2) by simp
qed

text \<open>
  The match rate is a percentage: between 0 and 100 for every input of up to 2^53 rows, and
  exactly 100 when every row matches (an empty input included).
\<close>

theorem match_rate_percentage:
  assumes "length rows \<le> 2 ^ 53"
  shows "f64_le (F64_Zero False) (match_rate_pct (run_backtest rows m)) \<and>
         f64_le (match_rate_pct (run_backtest rows m)) (f64_of_int 100) \<and>
         (matched (run_backtest rows m) = length rows \<longrightarrow>
            f64_val (match_rate_pct (run_backtest rows m)) = 100)"
proof (cases "rows = []")
  case True
  then show ?thesis
    using f64_of_int_pos [of 100] f64_of_int_exact [of 100]
    by (simp add: run_backtest_counts f64_le_refl)
next
  case False
  have "length (filter (row_matches m) rows) \<le> length rows" "0 < length rows"
    using False by (simp_all add: length_filter_le)
  note R = f64_ratio_pct_range [OF this assms run_backtest_counts(2) [of rows m, simplified False if_False]]
  show ?thesis using R by (simp add: run_backtest_counts(1))
qed

theorem match_rate_percentage_witness:
  "f64_le (match_rate_pct (run_backtest [\<lparr>or_id = 1, or_estimated_profit_usd = f64_of_int 20,
      or_gas_estimate_usd = f64_of_int 2, or_spread_bps = 10, or_original_decision = ''go'',
      or_original_no_go_reason = None, or_timestamp = 0\<rparr>] (f64_of_int 5))) (f64_of_int 100)"
  by (rule match_rate_percentage [THEN conjunct2, THEN conjunct1]) simp

end
