(* ===== verification/Executor.thy ===== *)
theory Executor
  imports Pool_Store Database
begin

text \<open>
  Execution of an arbitrage: \<^verbatim>\<open>zelvex-exec/src/\<close> (\<^verbatim>\<open>lib.rs\<close>, \<^verbatim>\<open>tx_builder.rs\<close>, \<^verbatim>\<open>flashbots.rs\<close>,
  \<^verbatim>\<open>inclusion.rs\<close>, \<^verbatim>\<open>executor.rs\<close>). The state is the database, a counter of the answers taken from the
  outside so far, and the list of the requests posted to the relay. The node, the relay and the
  clock are the argument \<open>N\<close>, whose functions answer the \<open>n\<close>-th request; the cryptography and
  encodings of the libraries are the argument \<open>K\<close>; \<open>chk\<close> tells whether overflow checks are on.
\<close>

section \<open>JSON values\<close>

datatype json_number = PosInt u64 | NegInt int | Float f64

datatype json =
    JNull
  | JBool bool
  | JNumber json_number
  | JString string
  | JArray "json list"
  | JObject "(string \<times> json) list"

fun json_get :: "json \<Rightarrow> string \<Rightarrow> json option" where
  "json_get (JObject kvs) k = map_of kvs k"
| "json_get _ k = None"

fun json_get_nth :: "json \<Rightarrow> nat \<Rightarrow> json option" where
  "json_get_nth (JArray vs) i = (if i < length vs then Some (vs ! i) else None)"
| "json_get_nth _ i = None"

text \<open>\<open>v["key"]\<close>: \<open>Null\<close> when the value is no object or has no such key.\<close>

definition json_index :: "json \<Rightarrow> string \<Rightarrow> json" where
  "json_index v k = (case json_get v k of None \<Rightarrow> JNull | Some w \<Rightarrow> w)"

fun as_str :: "json \<Rightarrow> string option" where
  "as_str (JString s) = Some s"
| "as_str _ = None"

fun as_u64 :: "json \<Rightarrow> u64 option" where
  "as_u64 (JNumber (PosInt n)) = Some n"
| "as_u64 _ = None"

section \<open>The outside\<close>

datatype exec_error =
    ReadKey string
  | InvalidKey
  | KeyLoad string
  | SigningFailed string
  | ProviderError string
  | FlashbotsError string
  | DbError string

record arb_params =
  tokenIn :: address
  tokenOut :: address
  poolA :: address
  poolB :: address
  amountIn :: u256
  minProfit :: u256

record tx_eip1559 =
  chain_id :: u64
  nonce :: u64
  gas_limit :: u128
  max_fee_per_gas :: u128
  max_priority_fee_per_gas :: u128
  tx_to :: address
  tx_value :: u256
  tx_input :: bytes

record signer =
  signer_address :: address
  sign_hash :: "b256 \<Rightarrow> string + bytes"

record eth_lib =
  keccak256 :: "bytes \<Rightarrow> b256"
  abi_encode_executeArb :: "arb_params \<Rightarrow> bytes"
  signature_hash :: "tx_eip1559 \<Rightarrow> b256"
  encode_2718 :: "tx_eip1559 \<Rightarrow> bytes \<Rightarrow> bytes"
  hex_encode :: "bytes \<Rightarrow> string"
  hex_decode :: "string \<Rightarrow> bytes option"
  signer_from_bytes :: "bytes \<Rightarrow> signer option"
  signer_parse :: "string \<Rightarrow> signer option"
  address_display :: "address \<Rightarrow> string"
  json_to_string :: "json \<Rightarrow> string"
  b256_parse_error :: "string \<Rightarrow> string"
  sqlx_text :: "sqlx_error \<Rightarrow> string"

record node_rpc =
  get_transaction_count :: "nat \<Rightarrow> address \<Rightarrow> string + u64"
  get_block_latest :: "nat \<Rightarrow> string + block_header option"
  get_transaction_receipt :: "nat \<Rightarrow> b256 \<Rightarrow> string + bool option"
  get_block_number :: "nat \<Rightarrow> string + u64"
  relay_send :: "nat \<Rightarrow> string \<Rightarrow> string \<Rightarrow> json \<Rightarrow> string + unit"
  relay_json :: "nat \<Rightarrow> string + json"
  system_secs :: "nat \<Rightarrow> int"

record world =
  w_db :: database
  w_asked :: nat
  w_posted :: "json list"

type_synonym 'a exec_io = "(world, exec_error fail, 'a) io"

definition ask :: "(nat \<Rightarrow> 'a) \<Rightarrow> (world, 'e, 'a) io" where
  "ask f w = (Inr (f (w_asked w)), w\<lparr>w_asked := Suc (w_asked w)\<rparr>)"

text \<open>A request whose error is turned into a variant of \<open>ExecError\<close>, then \<open>?\<close>.\<close>

definition ask_or :: "(string \<Rightarrow> exec_error) \<Rightarrow> (nat \<Rightarrow> string + 'a) \<Rightarrow> 'a exec_io" where
  "ask_or err f =
     bindE (ask f) (\<lambda>r. case r of Inl e \<Rightarrow> errE (Err (err e)) | Inr a \<Rightarrow> okE a)"

definition on_db :: "'a db_io \<Rightarrow> (world, sqlx_error, 'a) io" where
  "on_db f w = (case f (w_db w) of (r, d) \<Rightarrow> (r, w\<lparr>w_db := d\<rparr>))"

section \<open>lib.rs: key files\<close>

definition load_signer_from_file :: "eth_lib \<Rightarrow> (string \<Rightarrow> string + string) \<Rightarrow> string \<Rightarrow> exec_error + signer" where
  "load_signer_from_file K read path =
     (case read path of
        Inl e \<Rightarrow> Inl (ReadKey e)
      | Inr raw \<Rightarrow>
          let hex = str_trim raw
          in case hex_decode K hex of
               None \<Rightarrow> Inl InvalidKey
             | Some bs \<Rightarrow>
                 if length bs \<noteq> 32 then Inl InvalidKey
                 else (case signer_from_bytes K bs of None \<Rightarrow> Inl InvalidKey | Some s \<Rightarrow> Inr s))"

section \<open>tx\_builder.rs\<close>

definition build_execute_arb_calldata ::
  "eth_lib \<Rightarrow> address \<Rightarrow> address \<Rightarrow> address \<Rightarrow> address \<Rightarrow> u256 \<Rightarrow> u256 \<Rightarrow> bytes" where
  "build_execute_arb_calldata K token_in token_out pool_a pool_b amount_in min_profit =
     abi_encode_executeArb K
       \<lparr>tokenIn = token_in, tokenOut = token_out, poolA = pool_a, poolB = pool_b,
        amountIn = amount_in, minProfit = min_profit\<rparr>"

section \<open>flashbots.rs\<close>

record flashbots_client =
  relay_url :: string
  signing_key :: signer

record simulation_result =
  sim_success :: bool
  sim_gas_used :: u64
  sim_error :: "string option"

definition FlashbotsClient_new ::
  "eth_lib \<Rightarrow> (string \<Rightarrow> string + string) \<Rightarrow> string \<Rightarrow> string \<Rightarrow> exec_error + flashbots_client" where
  "FlashbotsClient_new K read url flashbots_key_path =
     (case read flashbots_key_path of
        Inl e \<Rightarrow> Inl (KeyLoad e)
      | Inr raw \<Rightarrow>
          let hex = str_trim raw
          in case signer_parse K hex of
               None \<Rightarrow> Inl (KeyLoad ''invalid flashbots key hex'')
             | Some k \<Rightarrow> Inr \<lparr>relay_url = url, signing_key = k\<rparr>)"

definition str_bytes :: "string \<Rightarrow> bytes" where
  "str_bytes s = map of_char s"

definition sign_bundle_header :: "eth_lib \<Rightarrow> flashbots_client \<Rightarrow> string \<Rightarrow> string exec_io" where
  "sign_bundle_header K fb body =
     (case sign_hash (signing_key fb) (keccak256 K (str_bytes body)) of
        Inl e \<Rightarrow> errE (Err (SigningFailed e))
      | Inr sig \<Rightarrow> okE (address_display K (signer_address (signing_key fb)) @ '':0x'' @ hex_encode K sig))"

definition bundle_body :: "string \<Rightarrow> (string \<times> json) list \<Rightarrow> json" where
  "bundle_body method params =
     JObject [(''jsonrpc'', JString ''2.0''), (''id'', JNumber (PosInt 1)), (''method'', JString method),
              (''params'', JArray [JObject params])]"

definition send_bundle_body :: "eth_lib \<Rightarrow> bytes \<Rightarrow> u64 \<Rightarrow> json" where
  "send_bundle_body K signed_tx target_block =
     bundle_body ''eth_sendBundle''
       [(''txs'', JArray [JString (''0x'' @ hex_encode K signed_tx)]),
        (''blockNumber'', JString (''0x'' @ hex_string (unat target_block))),
        (''minTimestamp'', JNumber (PosInt 0)), (''maxTimestamp'', JNumber (PosInt 0))]"

definition call_bundle_body :: "eth_lib \<Rightarrow> bytes \<Rightarrow> u64 \<Rightarrow> json" where
  "call_bundle_body K signed_tx target_block =
     bundle_body ''eth_callBundle''
       [(''txs'', JArray [JString (''0x'' @ hex_encode K signed_tx)]),
        (''blockNumber'', JString (''0x'' @ hex_string (unat target_block))),
        (''stateBlockNumber'', JString ''latest'')]"

text \<open>
  The part both requests share: sign the body, post it, read the answer as JSON, and fail on an
  \<open>error\<close> member.
\<close>

definition post_body :: "json \<Rightarrow> (world, 'e, unit) io" where
  "post_body body w = (Inr (), w\<lparr>w_posted := w_posted w @ [body]\<rparr>)"

definition relay_request :: "eth_lib \<Rightarrow> node_rpc \<Rightarrow> flashbots_client \<Rightarrow> json \<Rightarrow> json exec_io" where
  "relay_request K N fb body =
     bindE (sign_bundle_header K fb (json_to_string K body)) (\<lambda>header_val.
     bindE (post_body body) (\<lambda>_.
     bindE (ask_or FlashbotsError (\<lambda>n. relay_send N n (relay_url fb) header_val body)) (\<lambda>_.
     bindE (ask_or FlashbotsError (relay_json N)) (\<lambda>result.
       case json_get result ''error'' of
         Some err \<Rightarrow> errE (Err (FlashbotsError (json_to_string K err)))
       | None \<Rightarrow> okE result))))"

definition submit_bundle ::
  "alloy \<Rightarrow> eth_lib \<Rightarrow> node_rpc \<Rightarrow> flashbots_client \<Rightarrow> bytes \<Rightarrow> u64 \<Rightarrow> b256 exec_io" where
  "submit_bundle L K N fb signed_tx target_block =
     bindE (relay_request K N fb (send_bundle_body K signed_tx target_block)) (\<lambda>result.
       case as_str (json_index (json_index result ''result'') ''bundleHash'') of
         None \<Rightarrow> errE (Err (FlashbotsError ''no bundleHash in response''))
       | Some s \<Rightarrow>
           (case b256_parse L s of
              None \<Rightarrow> errE (Err (FlashbotsError (b256_parse_error K s)))
            | Some h \<Rightarrow> okE h))"

definition simulate_bundle ::
  "eth_lib \<Rightarrow> node_rpc \<Rightarrow> flashbots_client \<Rightarrow> bytes \<Rightarrow> u64 \<Rightarrow> simulation_result exec_io" where
  "simulate_bundle K N fb signed_tx target_block =
     bindE (relay_request K N fb (call_bundle_body K signed_tx target_block)) (\<lambda>result.
       let first = (case json_get_nth (json_index (json_index result ''result'') ''results'') 0 of
                      None \<Rightarrow> JNull | Some v \<Rightarrow> v);
           error_msg = as_str (json_index first ''error'');
           success = (error_msg = None);
           gas_used = (case as_u64 (json_index first ''gasUsed'') of None \<Rightarrow> 0 | Some g \<Rightarrow> g)
       in okE \<lparr>sim_success = success, sim_gas_used = gas_used, sim_error = error_msg\<rparr>)"

section \<open>inclusion.rs\<close>

text \<open>
  The polling loop: the value is \<open>None\<close> when it never ends, otherwise the result and the state. Each
  round takes two answers, the receipt and the block number.
\<close>

partial_function (option) inclusion_loop ::
  "node_rpc \<Rightarrow> b256 \<Rightarrow> u64 \<Rightarrow> world \<Rightarrow> ((exec_error fail + bool) \<times> world) option" where
  "inclusion_loop N tx_hash deadline w =
     (case ask_or ProviderError (\<lambda>n. get_transaction_receipt N n tx_hash) w of
        (Inl e, w1) \<Rightarrow> Some (Inl e, w1)
      | (Inr receipt, w1) \<Rightarrow>
          if receipt \<noteq> None then Some (Inr True, w1)
          else (case ask_or ProviderError (get_block_number N) w1 of
                  (Inl e, w2) \<Rightarrow> Some (Inl e, w2)
                | (Inr current, w2) \<Rightarrow>
                    if current > deadline then Some (Inr False, w2)
                    else inclusion_loop N tx_hash deadline w2))"

definition wait_for_inclusion ::
  "bool \<Rightarrow> node_rpc \<Rightarrow> b256 \<Rightarrow> u64 \<Rightarrow> world \<Rightarrow> ((exec_error fail + bool) \<times> world) option" where
  "wait_for_inclusion chk N tx_hash target_block w =
     (case add_word chk target_block 2 of
        Panicked \<Rightarrow> Some (Inl Panic, w)
      | Ret deadline \<Rightarrow> inclusion_loop N tx_hash deadline w)"

section \<open>executor.rs\<close>

record executor =
  ex_signer :: signer
  ex_flashbots :: flashbots_client
  ex_contract_address :: address
  ex_paper_trade :: bool

definition ArbitrageExecutor_new ::
  "eth_lib \<Rightarrow> (string \<Rightarrow> string + string) \<Rightarrow> (string \<Rightarrow> string + unit) \<Rightarrow>
     string \<Rightarrow> string \<Rightarrow> string \<Rightarrow> string \<Rightarrow> address \<Rightarrow> bool \<Rightarrow> exec_error + executor" where
  "ArbitrageExecutor_new K read connect ws_url signer_key_path flashbots_key_path url contract_address paper_trade =
     (case load_signer_from_file K read signer_key_path of
        Inl e \<Rightarrow> Inl e
      | Inr s \<Rightarrow>
          (case FlashbotsClient_new K read url flashbots_key_path of
             Inl e \<Rightarrow> Inl e
           | Inr fb \<Rightarrow>
               (case connect ws_url of
                  Inl e \<Rightarrow> Inl (ProviderError e)
                | Inr _ \<Rightarrow> Inr \<lparr>ex_signer = s, ex_flashbots = fb, ex_contract_address = contract_address,
                                ex_paper_trade = paper_trade\<rparr>)))"

definition max_fee_of :: "bool \<Rightarrow> u128 \<Rightarrow> u128 outcome" where
  "max_fee_of chk base_fee =
     bindO (mul_word chk base_fee 2) (\<lambda>d. add_word chk d 1500000000)"

definition build_tx :: "bool \<Rightarrow> node_rpc \<Rightarrow> executor \<Rightarrow> bytes \<Rightarrow> tx_eip1559 exec_io" where
  "build_tx chk N ex input =
     bindE (ask_or ProviderError (\<lambda>n. get_transaction_count N n (signer_address (ex_signer ex)))) (\<lambda>nonce.
     bindE (ask_or ProviderError (get_block_latest N)) (\<lambda>block.
       case block of
         None \<Rightarrow> errE (Err (ProviderError ''latest block not found''))
       | Some h \<Rightarrow>
           (case bh_base_fee_per_gas h of
              None \<Rightarrow> errE (Err (ProviderError ''base_fee_per_gas missing from block''))
            | Some base_fee \<Rightarrow>
                bindE (liftO (max_fee_of chk base_fee)) (\<lambda>max_fee.
                  okE \<lparr>chain_id = 1, nonce = nonce, gas_limit = 250000, max_fee_per_gas = max_fee,
                       max_priority_fee_per_gas = 1500000000, tx_to = ex_contract_address ex,
                       tx_value = 0, tx_input = input\<rparr>))))"

definition build_signed_tx :: "bool \<Rightarrow> eth_lib \<Rightarrow> node_rpc \<Rightarrow> executor \<Rightarrow> bytes \<Rightarrow> bytes exec_io" where
  "build_signed_tx chk K N ex input =
     bindE (build_tx chk N ex input) (\<lambda>tx.
       case sign_hash (ex_signer ex) (signature_hash K tx) of
         Inl e \<Rightarrow> errE (Err (SigningFailed e))
       | Inr sig \<Rightarrow> okE (encode_2718 K tx sig))"

definition current_timestamp :: "int \<Rightarrow> i64" where
  "current_timestamp secs = u64_as_i64 (word_of_int (max 0 secs))"

definition trade_record ::
  "alloy \<Rightarrow> arbitrage_opportunity \<Rightarrow> b256 \<Rightarrow> u64 option \<Rightarrow> trade_status \<Rightarrow> u64 \<Rightarrow> i64 \<Rightarrow> trade_result" where
  "trade_record L opp tx_hash gas_used status target_block timestamp =
     \<lparr>tr_tx_hash = tx_hash, tr_route = address_hex L (opp_pool_a opp) @ ''->'' @ address_hex L (opp_pool_b opp),
      tr_pool_a = opp_pool_a opp, tr_pool_b = opp_pool_b opp, tr_input_amount = opp_input_amount opp,
      tr_output_amount = None, tr_gross_profit = None, tr_gas_cost_usd = opp_gas_estimate_usd opp,
      tr_net_profit_usd = None, tr_gas_used = gas_used, tr_status = status,
      tr_block_number = target_block, tr_timestamp = timestamp\<rparr>"

definition record_trade :: "alloy \<Rightarrow> eth_lib \<Rightarrow> sqlite \<Rightarrow> trade_result \<Rightarrow> i64 exec_io" where
  "record_trade L K E trade = mapErr (\<lambda>e. Err (DbError (sqlx_text K e))) (on_db (insert_trade L E trade))"

definition paper_execute ::
  "alloy \<Rightarrow> eth_lib \<Rightarrow> sqlite \<Rightarrow> node_rpc \<Rightarrow> executor \<Rightarrow> arbitrage_opportunity \<Rightarrow> bytes \<Rightarrow> u64 \<Rightarrow> i64 exec_io" where
  "paper_execute L K E N ex opp signed_bytes target_block =
     bindE (simulate_bundle K N (ex_flashbots ex) signed_bytes target_block) (\<lambda>sim.
     bindE (ask (system_secs N)) (\<lambda>secs.
       let gas_used = (if sim_gas_used sim > 0 then Some (sim_gas_used sim) else None)
       in record_trade L K E (trade_record L opp (keccak256 K signed_bytes) gas_used Simulated target_block
            (current_timestamp secs))))"

definition live_execute ::
  "bool \<Rightarrow> alloy \<Rightarrow> eth_lib \<Rightarrow> sqlite \<Rightarrow> node_rpc \<Rightarrow> executor \<Rightarrow> arbitrage_opportunity \<Rightarrow> bytes \<Rightarrow> u64 \<Rightarrow>
     world \<Rightarrow> ((exec_error fail + i64) \<times> world) option" where
  "live_execute chk L K E N ex opp signed_bytes target_block w =
     (case submit_bundle L K N (ex_flashbots ex) signed_bytes target_block w of
        (Inl e, w1) \<Rightarrow> Some (Inl e, w1)
      | (Inr bundle_hash, w1) \<Rightarrow>
          (case wait_for_inclusion chk N (keccak256 K signed_bytes) target_block w1 of
             None \<Rightarrow> None
           | Some (Inl e, w2) \<Rightarrow> Some (Inl e, w2)
           | Some (Inr included, w2) \<Rightarrow>
               Some (bindE (ask (system_secs N)) (\<lambda>secs.
                 let status = (if included then Success else Failed)
                 in record_trade L K E (trade_record L opp (keccak256 K signed_bytes) None status target_block
                      (current_timestamp secs))) w2)))"

definition execute ::
  "bool \<Rightarrow> alloy \<Rightarrow> eth_lib \<Rightarrow> sqlite \<Rightarrow> node_rpc \<Rightarrow> executor \<Rightarrow> arbitrage_opportunity \<Rightarrow> u256 \<Rightarrow> u64 \<Rightarrow>
     world \<Rightarrow> ((exec_error fail + i64) \<times> world) option" where
  "execute chk L K E N ex opp min_profit current_block w =
     (let calldata = build_execute_arb_calldata K (opp_token_in opp) (opp_token_out opp) (opp_pool_a opp)
                       (opp_pool_b opp) (opp_input_amount opp) min_profit
      in case build_signed_tx chk K N ex calldata w of
           (Inl e, w1) \<Rightarrow> Some (Inl e, w1)
         | (Inr signed_bytes, w1) \<Rightarrow>
             (case add_word chk current_block 1 of
                Panicked \<Rightarrow> Some (Inl Panic, w1)
              | Ret target_block \<Rightarrow>
                  if ex_paper_trade ex
                  then Some (paper_execute L K E N ex opp signed_bytes target_block w1)
                  else live_execute chk L K E N ex opp signed_bytes target_block w1))"

section \<open>Frames\<close>

lemma keeps_ask [keeps_intros]: "keeps w_db (ask f)" "keeps w_posted (ask f)"
  by (simp_all add: keeps_def ask_def)

lemma keeps_ask_or [keeps_intros]: "keeps w_db (ask_or e f)" "keeps w_posted (ask_or e f)"
  unfolding ask_or_def by (intro keeps_intros)+

lemma keeps_post_db [keeps_intros]: "keeps w_db (post_body b)"
  by (simp add: keeps_def post_body_def)

lemma keeps_on_db [keeps_intros]: "keeps w_posted (on_db f)"
  by (simp add: keeps_def on_db_def split: prod.splits)

lemma keeps_sign_header [keeps_intros]: "keeps f (sign_bundle_header K fb b)"
  unfolding sign_bundle_header_def by (intro keeps_intros)

lemma keeps_relay_db [keeps_intros]: "keeps w_db (relay_request K N fb b)"
  unfolding relay_request_def by (intro keeps_intros)

lemma keeps_simulate_db [keeps_intros]: "keeps w_db (simulate_bundle K N fb tx b)"
  unfolding simulate_bundle_def by (intro keeps_intros)

lemma keeps_submit_db [keeps_intros]: "keeps w_db (submit_bundle L K N fb tx b)"
  unfolding submit_bundle_def by (intro keeps_intros)

lemma keeps_build_tx [keeps_intros]: "keeps w_db (build_tx chk N ex i)" "keeps w_posted (build_tx chk N ex i)"
  unfolding build_tx_def by (intro keeps_intros)+

lemma keeps_build_signed_tx [keeps_intros]:
  "keeps w_db (build_signed_tx chk K N ex i)" "keeps w_posted (build_signed_tx chk K N ex i)"
  unfolding build_signed_tx_def by (intro keeps_intros)+

lemma keeps_record_posted [keeps_intros]: "keeps w_posted (record_trade L K E t)"
  unfolding record_trade_def by (intro keeps_intros)

lemma relay_request_posts:
  assumes "relay_request K N fb body w = (r, w')"
  shows "w_posted w' = w_posted w \<or> w_posted w' = w_posted w @ [body]"
proof (cases "sign_bundle_header K fb (json_to_string K body) w")
  case (Pair h w1)
  have w1: "w_posted w1 = w_posted w" using keepsD [OF keeps_sign_header Pair] .
  let ?rest = "bindE (ask_or FlashbotsError (\<lambda>n. relay_send N n (relay_url fb) (projr h) body)) (\<lambda>_.
     bindE (ask_or FlashbotsError (relay_json N)) (\<lambda>result.
       case json_get result ''error'' of
         Some err \<Rightarrow> errE (Err (FlashbotsError (json_to_string K err)))
       | None \<Rightarrow> okE result))"
  have keep: "keeps w_posted ?rest" by (intro keeps_intros)
  show ?thesis
  proof (cases h)
    case (Inl e)
    then show ?thesis using assms Pair w1 by (simp add: relay_request_def bindE_def)
  next
    case (Inr hv)
    then have "?rest (w1\<lparr>w_posted := w_posted w1 @ [body]\<rparr>) = (r, w')"
      using assms Pair by (simp add: relay_request_def post_body_def bindE_def [of "sign_bundle_header K fb x" for x]
          bindE_def [of "post_body body"])
    from keepsD [OF keep this] show ?thesis using w1 by simp
  qed
qed

lemma simulate_bundle_posts:
  assumes "simulate_bundle K N fb tx b w = (r, w')"
  shows "w_posted w' = w_posted w \<or> w_posted w' = w_posted w @ [call_bundle_body K tx b]"
proof (cases "relay_request K N fb (call_bundle_body K tx b) w")
  case (Pair q w1)
  have "w_posted w' = w_posted w1"
    using assms Pair by (auto simp: simulate_bundle_def bindE_def okE_def Let_def split: sum.splits)
  then show ?thesis using relay_request_posts [OF Pair] by simp
qed

lemma submit_bundle_posts:
  assumes "submit_bundle L K N fb tx b w = (r, w')"
  shows "w_posted w' = w_posted w \<or> w_posted w' = w_posted w @ [send_bundle_body K tx b]"
proof (cases "relay_request K N fb (send_bundle_body K tx b) w")
  case (Pair q w1)
  have "w_posted w' = w_posted w1"
    using assms Pair
    by (auto simp: submit_bundle_def bindE_def okE_def errE_def Let_def split: sum.splits option.splits)
  then show ?thesis using relay_request_posts [OF Pair] by simp
qed

lemma inclusion_loop_frame:
  assumes "inclusion_loop N h dl w = Some y"
  shows "w_db (snd y) = w_db w \<and> w_posted (snd y) = w_posted w"
proof (rule inclusion_loop.raw_induct [OF _ assms,
    where P = "\<lambda>N h dl w y. w_db (snd y) = w_db w \<and> w_posted (snd y) = w_posted w"])
  fix f N h dl w y
  assume IH: "\<And>N h dl w y. f N h dl w = Some y \<Longrightarrow> w_db (snd y) = w_db w \<and> w_posted (snd y) = w_posted w"
    and eq: "(case ask_or ProviderError (\<lambda>n. get_transaction_receipt N n h) w of
        (Inl e, w1) \<Rightarrow> Some (Inl e, w1)
      | (Inr receipt, w1) \<Rightarrow>
          if receipt \<noteq> None then Some (Inr True, w1)
          else (case ask_or ProviderError (get_block_number N) w1 of
                  (Inl e, w2) \<Rightarrow> Some (Inl e, w2)
                | (Inr current, w2) \<Rightarrow> if current > dl then Some (Inr False, w2) else f N h dl w2)) = Some y"
  obtain r1 w1 where r1: "ask_or ProviderError (\<lambda>n. get_transaction_receipt N n h) w = (r1, w1)" by fastforce
  obtain r2 w2 where r2: "ask_or ProviderError (get_block_number N) w1 = (r2, w2)" by fastforce
  note frames = keepsD [OF keeps_ask_or(1) r1] keepsD [OF keeps_ask_or(2) r1]
    keepsD [OF keeps_ask_or(1) r2] keepsD [OF keeps_ask_or(2) r2]
  show "w_db (snd y) = w_db w \<and> w_posted (snd y) = w_posted w"
  proof (cases "\<exists>b. r1 = Inr None \<and> r2 = Inr b \<and> \<not> b > dl")
    case True
    then have "f N h dl w2 = Some y" using eq r1 r2 by auto
    from IH [OF this] show ?thesis using frames by simp
  next
    case False
    then have "snd y = w1 \<or> snd y = w2" using eq r1 r2 by (auto split: sum.splits if_splits)
    then show ?thesis using frames by auto
  qed
qed

lemma wait_for_inclusion_frame:
  "wait_for_inclusion chk N h t w = Some (r, w') \<Longrightarrow> w_db w' = w_db w \<and> w_posted w' = w_posted w"
  using inclusion_loop_frame [of N h _ w "(r, w')"]
  by (auto simp: wait_for_inclusion_def split: outcome.splits)

section \<open>The polling loop in rounds\<close>

text \<open>Round \<open>i\<close> from answer \<open>n\<close> goes on: no receipt yet and the block number not past the deadline.\<close>

definition round_goes_on :: "node_rpc \<Rightarrow> b256 \<Rightarrow> u64 \<Rightarrow> nat \<Rightarrow> nat \<Rightarrow> bool" where
  "round_goes_on N h dl n i \<longleftrightarrow> get_transaction_receipt N (n + 2 * i) h = Inr None \<and>
     (\<exists>b. get_block_number N (n + 2 * i + 1) = Inr b \<and> b \<le> dl)"

lemma ask_or_simp:
  "ask_or e f w = (case f (w_asked w) of Inl x \<Rightarrow> (Inl (Err (e x)), w\<lparr>w_asked := Suc (w_asked w)\<rparr>)
                                       | Inr a \<Rightarrow> (Inr a, w\<lparr>w_asked := Suc (w_asked w)\<rparr>))"
  by (simp add: ask_or_def ask_def bindE_def okE_def errE_def split: sum.splits)

lemma inclusion_loop_rounds:
  assumes "\<forall>i < k. round_goes_on N h dl (w_asked w) i"
  shows "inclusion_loop N h dl w = inclusion_loop N h dl (w\<lparr>w_asked := w_asked w + 2 * k\<rparr>)"
  using assms
proof (induction k)
  case (Suc k)
  have "round_goes_on N h dl (w_asked w) k" using Suc.prems by simp
  then have "inclusion_loop N h dl (w\<lparr>w_asked := w_asked w + 2 * k\<rparr>) =
      inclusion_loop N h dl (w\<lparr>w_asked := w_asked w + 2 * Suc k\<rparr>)"
    by (subst inclusion_loop.simps) (auto simp: round_goes_on_def ask_or_simp)
  then show ?case using Suc by simp
qed simp

lemma inclusion_loop_receipt:
  assumes "get_transaction_receipt N (w_asked w) h = Inr (Some s)"
  shows "inclusion_loop N h dl w = Some (Inr True, w\<lparr>w_asked := w_asked w + 1\<rparr>)"
  using assms by (subst inclusion_loop.simps) (simp add: ask_or_simp)

lemma inclusion_loop_late:
  assumes "get_transaction_receipt N (w_asked w) h = Inr None"
    "get_block_number N (w_asked w + 1) = Inr b" "dl < b"
  shows "inclusion_loop N h dl w = Some (Inr False, w\<lparr>w_asked := w_asked w + 2\<rparr>)"
  using assms by (subst inclusion_loop.simps) (simp add: ask_or_simp)

lemma inclusion_loop_sound:
  assumes "inclusion_loop N h dl w = Some (Inr b, w')"
  shows "if b then \<exists>n s. get_transaction_receipt N n h = Inr (Some s) else \<exists>n c. get_block_number N n = Inr c \<and> dl < c"
proof -
  have "\<forall>b. fst y = Inr b \<longrightarrow> (if b then \<exists>n s. get_transaction_receipt N n h = Inr (Some s)
      else \<exists>n c. get_block_number N n = Inr c \<and> dl < c)" if "inclusion_loop N h dl w = Some y" for y
  proof (rule inclusion_loop.raw_induct [OF _ that, where P = "\<lambda>N h dl w y. \<forall>b. fst y = Inr b \<longrightarrow>
      (if b then \<exists>n s. get_transaction_receipt N n h = Inr (Some s) else \<exists>n c. get_block_number N n = Inr c \<and> dl < c)"])
    fix f N h dl w y
    let ?P = "\<lambda>N h dl y. \<forall>b. fst y = Inr b \<longrightarrow> (if b then \<exists>n s. get_transaction_receipt N n h = Inr (Some s)
      else \<exists>n c. get_block_number N n = Inr c \<and> dl < c)"
    assume IH: "\<And>N h dl w y. f N h dl w = Some y \<Longrightarrow> ?P N h dl (y :: (exec_error fail + bool) \<times> world)"
      and eq: "(case ask_or ProviderError (\<lambda>n. get_transaction_receipt N n h) w of
          (Inl e, w1) \<Rightarrow> Some (Inl e, w1)
        | (Inr receipt, w1) \<Rightarrow>
            if receipt \<noteq> None then Some (Inr True, w1)
            else (case ask_or ProviderError (get_block_number N) w1 of
                    (Inl e, w2) \<Rightarrow> Some (Inl e, w2)
                  | (Inr current, w2) \<Rightarrow> if current > dl then Some (Inr False, w2) else f N h dl w2)) = Some y"
    show "?P N h dl y"
    proof (cases "get_transaction_receipt N (w_asked w) h")
      case (Inr receipt)
      show ?thesis
      proof (cases "receipt = None")
        case True
        show ?thesis
        proof (cases "\<exists>c. get_block_number N (Suc (w_asked w)) = Inr c \<and> \<not> c > dl")
          case go: True
          then have "f N h dl (w\<lparr>w_asked := Suc (Suc (w_asked w))\<rparr>) = Some y"
            using eq Inr True by (auto simp: ask_or_simp)
          then show ?thesis by (rule IH)
        qed (use eq Inr True in \<open>auto simp: ask_or_simp split: sum.splits\<close>)
      qed (use eq Inr in \<open>auto simp: ask_or_simp\<close>)
    qed (use eq in \<open>auto simp: ask_or_simp\<close>)
  qed
  from this [OF assms] show ?thesis by simp
qed

section \<open>What an execution does to the trades\<close>

lemma record_trade_Inr:
  "record_trade L K E t w = (Inr i, w') \<longleftrightarrow>
     (\<exists>d'. insert_trade L E t (w_db w) = (Inr i, d') \<and> w' = w\<lparr>w_db := d'\<rparr>)"
  by (auto simp: record_trade_def on_db_def split: prod.splits)

lemma record_trade_Inl:
  assumes "record_trade L K E t w = (Inl e, w')"
  shows "trades (w_db w') = trades (w_db w)"
proof -
  obtain x where "on_db (insert_trade L E t) w = (Inl x, w')"
    using assms by (auto simp: record_trade_def mapErr_Inl_iff)
  then obtain d' where d': "insert_trade L E t (w_db w) = (Inl x, d')" "w_db w' = d'"
    by (auto simp: on_db_def split: prod.splits)
  from d'(1) show ?thesis by (cases rule: insert_trade_cases) (use d'(2) in simp_all)
qed

text \<open>The row an execution adds.\<close>

definition trade_row_for :: "alloy \<Rightarrow> arbitrage_opportunity \<Rightarrow> b256 \<Rightarrow> u64 \<Rightarrow> trade_status \<Rightarrow> trade_row \<Rightarrow> bool" where
  "trade_row_for L opp h block st r \<longleftrightarrow>
     t_tx_hash r = b256_hex L h \<and>
     t_pool_a r = address_hex L (opp_pool_a opp) \<and> t_pool_b r = address_hex L (opp_pool_b opp) \<and>
     t_input_amount r = u256_to_dec L (opp_input_amount opp) \<and> t_status r = trade_status_to_db st \<and>
     t_block_number r = u64_as_i64 block \<and> t_net_profit_usd r = None"

definition adds_trade ::
  "alloy \<Rightarrow> arbitrage_opportunity \<Rightarrow> b256 \<Rightarrow> u64 \<Rightarrow> (trade_status \<Rightarrow> bool) \<Rightarrow> exec_error fail + i64 \<Rightarrow> database \<Rightarrow> database \<Rightarrow> bool" where
  "adds_trade L opp h block P r d d' \<longleftrightarrow>
     (case r of Inl e \<Rightarrow> trades d' = trades d
      | Inr i \<Rightarrow> \<exists>row st. trades d' = trades d @ [row] \<and> t_id row = i \<and> P st \<and> trade_row_for L opp h block st row)"

lemma record_trade_adds:
  assumes "record_trade L K E (trade_record L opp h g st block ts) w = (r, w')" "P st"
  shows "adds_trade L opp h block P r (w_db w) (w_db w')"
proof (cases r)
  case (Inl e)
  then show ?thesis using assms(1) record_trade_Inl by (auto simp: adds_trade_def)
next
  case (Inr i)
  then have "insert_trade L E (trade_record L opp h g st block ts) (w_db w) = (Inr i, w_db w')"
    using assms(1) by (auto simp: record_trade_Inr)
  then show ?thesis
  proof (cases rule: insert_trade_cases)
    case (ok rid gc)
    then show ?thesis
      using assms(2) Inr
      by (auto simp: adds_trade_def trade_row_for_def add_trade_def row_of_trade_def trade_record_def)
  qed (simp add: Inr)
qed

lemma adds_trade_db: "adds_trade L opp h b P (Inl e) d d"
  by (simp add: adds_trade_def)

lemma paper_execute_adds:
  assumes "paper_execute L K E N ex opp tx b w = (r, w')"
  shows "adds_trade L opp (keccak256 K tx) b (\<lambda>st. st = Simulated) r (w_db w) (w_db w')"
proof (cases "simulate_bundle K N (ex_flashbots ex) tx b w")
  case (Pair s w1)
  have db: "w_db w1 = w_db w" using keepsD [OF keeps_simulate_db Pair] .
  show ?thesis
  proof (cases s)
    case (Inl e)
    then show ?thesis using assms Pair db by (auto simp: paper_execute_def bindE_def adds_trade_def)
  next
    case (Inr sim)
    obtain g ts where
      "record_trade L K E (trade_record L opp (keccak256 K tx) g Simulated b ts) (w1\<lparr>w_asked := Suc (w_asked w1)\<rparr>) = (r, w')"
      using assms Pair Inr by (auto simp: paper_execute_def bindE_def ask_def Let_def)
    from record_trade_adds [OF this, of "\<lambda>st. st = Simulated"] show ?thesis using db by simp
  qed
qed

lemma live_execute_adds:
  assumes "live_execute chk L K E N ex opp tx b w = Some (r, w')"
  shows "adds_trade L opp (keccak256 K tx) b (\<lambda>st. if \<exists>n s. get_transaction_receipt N n (keccak256 K tx) = Inr (Some s)
      then st \<in> {Success, Failed} else st = Failed) r (w_db w) (w_db w')"
proof (cases "submit_bundle L K N (ex_flashbots ex) tx b w")
  case (Pair s w1)
  have db: "w_db w1 = w_db w" using keepsD [OF keeps_submit_db Pair] .
  show ?thesis
  proof (cases s)
    case (Inl e)
    then show ?thesis using assms Pair db by (auto simp: live_execute_def adds_trade_def)
  next
    case (Inr hash)
    then obtain i w2 where w2: "wait_for_inclusion chk N (keccak256 K tx) b w1 = Some (i, w2)"
      using assms Pair by (auto simp: live_execute_def split: option.splits)
    have db2: "w_db w2 = w_db w" using wait_for_inclusion_frame [OF w2] db by simp
    show ?thesis
    proof (cases i)
      case (Inl e)
      then show ?thesis using assms Pair Inr w2 db2 by (auto simp: live_execute_def adds_trade_def)
    next
      case inc: (Inr included)
      have st: "included \<Longrightarrow> \<exists>n s. get_transaction_receipt N n (keccak256 K tx) = Inr (Some s)"
        using w2 inc inclusion_loop_sound [of N "keccak256 K tx" _ w1 included w2]
        by (auto simp: wait_for_inclusion_def split: outcome.splits)
      obtain ts where "record_trade L K E (trade_record L opp (keccak256 K tx) None
          (if included then Success else Failed) b ts) (w2\<lparr>w_asked := Suc (w_asked w2)\<rparr>) = (r, w')"
        using assms Pair Inr w2 inc by (auto simp: live_execute_def bindE_def ask_def Let_def)
      from record_trade_adds [OF this] st show ?thesis using db2 by (cases included) auto
    qed
  qed
qed

text \<open>The database after an execution: untouched, or one call of \<open>insert_trade\<close> later.\<close>

definition db_after_trade :: "alloy \<Rightarrow> sqlite \<Rightarrow> database \<Rightarrow> database \<Rightarrow> bool" where
  "db_after_trade L E d d' \<longleftrightarrow> d' = d \<or> (\<exists>t r. insert_trade L E t d = (r, d'))"

lemma record_trade_db: "record_trade L K E t w = (r, w') \<Longrightarrow> db_after_trade L E (w_db w) (w_db w')"
  by (cases "insert_trade L E t (w_db w)")
    (auto simp: record_trade_def mapErr_def on_db_def db_after_trade_def split: prod.splits sum.splits)

lemma paper_execute_db:
  assumes "paper_execute L K E N ex opp tx b w = (r, w')"
  shows "db_after_trade L E (w_db w) (w_db w')"
proof -
  obtain s w1 where s: "simulate_bundle K N (ex_flashbots ex) tx b w = (s, w1)" by fastforce
  have db: "w_db w1 = w_db w" using keepsD [OF keeps_simulate_db s] .
  show ?thesis
  proof (cases s)
    case (Inl e)
    then show ?thesis using assms s db by (auto simp: paper_execute_def bindE_def db_after_trade_def)
  next
    case (Inr sim)
    then obtain t where "record_trade L K E t (w1\<lparr>w_asked := Suc (w_asked w1)\<rparr>) = (r, w')"
      using assms s by (auto simp: paper_execute_def bindE_def ask_def Let_def)
    from record_trade_db [OF this] show ?thesis using db by simp
  qed
qed

lemma live_execute_db:
  assumes "live_execute chk L K E N ex opp tx b w = Some (r, w')"
  shows "db_after_trade L E (w_db w) (w_db w')"
proof -
  obtain s w1 where s: "submit_bundle L K N (ex_flashbots ex) tx b w = (s, w1)" by fastforce
  have db: "w_db w1 = w_db w" using keepsD [OF keeps_submit_db s] .
  show ?thesis
  proof (cases s)
    case (Inl e)
    then show ?thesis using assms s db by (auto simp: live_execute_def db_after_trade_def)
  next
    case (Inr hash)
    then obtain i w2 where w2: "wait_for_inclusion chk N (keccak256 K tx) b w1 = Some (i, w2)"
      using assms s by (auto simp: live_execute_def split: option.splits)
    have db2: "w_db w2 = w_db w" using wait_for_inclusion_frame [OF w2] db by simp
    show ?thesis
    proof (cases i)
      case (Inl e)
      then show ?thesis using assms s Inr w2 db2 by (auto simp: live_execute_def db_after_trade_def)
    next
      case inc: (Inr included)
      then obtain t where "record_trade L K E t (w2\<lparr>w_asked := Suc (w_asked w2)\<rparr>) = (r, w')"
        using assms s Inr w2 by (auto simp: live_execute_def bindE_def ask_def Let_def)
      from record_trade_db [OF this] show ?thesis using db2 by simp
    qed
  qed
qed

lemma execute_cases:
  assumes "execute chk L K E N ex opp min_profit current_block w = Some (r, w')"
  obtains (early) e where "r = Inl e" "w_db w' = w_db w" "w_posted w' = w_posted w"
  | (paper) tx w1 where "ex_paper_trade ex" "w_db w1 = w_db w" "w_posted w1 = w_posted w"
      "paper_execute L K E N ex opp tx (current_block + 1) w1 = (r, w')"
  | (live) tx w1 where "\<not> ex_paper_trade ex" "w_db w1 = w_db w" "w_posted w1 = w_posted w"
      "live_execute chk L K E N ex opp tx (current_block + 1) w1 = Some (r, w')"
proof -
  obtain q w1 where tx: "build_signed_tx chk K N ex (build_execute_arb_calldata K (opp_token_in opp)
      (opp_token_out opp) (opp_pool_a opp) (opp_pool_b opp) (opp_input_amount opp) min_profit) w = (q, w1)"
    by fastforce
  have frame: "w_db w1 = w_db w" "w_posted w1 = w_posted w"
    using keepsD [OF keeps_build_signed_tx(1) tx] keepsD [OF keeps_build_signed_tx(2) tx] .
  show thesis
  proof (cases "\<exists>bs tb. q = Inr bs \<and> add_word chk current_block 1 = Ret tb")
    case False
    then have "w' = w1" "\<exists>e. r = Inl e"
      using assms tx by (auto simp: execute_def Let_def split: sum.splits outcome.splits)
    then show thesis using early frame by auto
  next
    case True
    then obtain bs where q: "q = Inr bs" "add_word chk current_block 1 = Ret (current_block + 1)"
      using add_word_Ret by metis
    show thesis
      using assms tx q paper [OF _ frame, of bs] live [OF _ frame, of bs]
      by (cases "ex_paper_trade ex") (simp_all add: execute_def)
  qed
qed

lemma execute_db:
  assumes "execute chk L K E N ex opp min_profit current_block w = Some (r, w')"
  shows "db_after_trade L E (w_db w) (w_db w')"
  using assms
proof (cases rule: execute_cases)
  case (paper tx w1)
  then show ?thesis using paper_execute_db [OF paper(4)] by simp
next
  case (live tx w1)
  then show ?thesis using live_execute_db [OF live(4)] by simp
qed (simp add: db_after_trade_def)

lemma db_after_trade_opportunities:
  "db_after_trade L E d d' \<Longrightarrow> opportunities d' = opportunities d \<and> opportunities_seq d' = opportunities_seq d"
  by (auto simp: db_after_trade_def add_trade_def elim!: insert_trade_cases)

lemma db_after_trade_steps: "db_after_trade L E d d' \<Longrightarrow> (db_step L E)\<^sup>*\<^sup>* d d'"
  unfolding db_after_trade_def using db_step.step_trade by blast

lemma execute_adds:
  assumes "execute chk L K E N ex opp min_profit current_block w = Some (r, w')"
  shows "\<exists>h. adds_trade L opp h (current_block + 1) (\<lambda>st. if ex_paper_trade ex then st = Simulated
     else st = Failed \<or> (st = Success \<and> (\<exists>n s. get_transaction_receipt N n h = Inr (Some s)))) r (w_db w) (w_db w')"
  using assms
proof (cases rule: execute_cases)
  case (early e)
  then show ?thesis by (simp add: adds_trade_def)
next
  case (paper tx w1)
  then show ?thesis
    using paper_execute_adds [OF paper(4)] by (intro exI [of _ "keccak256 K tx"]) (cases r, auto simp: adds_trade_def)
next
  case (live tx w1)
  then show ?thesis
    using live_execute_adds [OF live(4)]
    by (intro exI [of _ "keccak256 K tx"]) (cases r, auto simp: adds_trade_def split: if_splits)
qed

text \<open>Paper mode ends, and posts at most the simulation request.\<close>

lemma paper_execute_total:
  "ex_paper_trade ex \<Longrightarrow> \<exists>r w'. execute chk L K E N ex opp min_profit current_block w = Some (r, w')"
  by (auto simp: execute_def Let_def split: prod.splits sum.splits outcome.splits)

lemma paper_execute_posts:
  assumes "paper_execute L K E N ex opp tx b w = (r, w')"
  shows "w_posted w' = w_posted w \<or> w_posted w' = w_posted w @ [call_bundle_body K tx b]"
proof -
  obtain s w1 where s: "simulate_bundle K N (ex_flashbots ex) tx b w = (s, w1)" by fastforce
  have "keeps w_posted (bindE (ask (system_secs N)) (\<lambda>secs.
      record_trade L K E (trade_record L opp (keccak256 K tx) g Simulated b (current_timestamp secs))))" for g
    by (intro keeps_intros)
  then have "w_posted w' = w_posted w1"
    using assms s
    by (cases s) (auto simp: paper_execute_def bindE_def [of "simulate_bundle K N x y z" for x y z] Let_def intro: keepsD)
  then show ?thesis using simulate_bundle_posts [OF s] by simp
qed

section \<open>A concrete outside\<close>

definition signer_ref :: signer where
  "signer_ref = \<lparr>signer_address = 1, sign_hash = (\<lambda>h. Inr [])\<rparr>"

definition eth_ref :: eth_lib where
  "eth_ref = \<lparr>keccak256 = (\<lambda>bs. 7), abi_encode_executeArb = (\<lambda>p. []), signature_hash = (\<lambda>t. 5),
     encode_2718 = (\<lambda>t s. [1, 2]), hex_encode = (\<lambda>bs. concat (map (\<lambda>b. hex_digits 2 (unat b)) bs)),
     hex_decode = (\<lambda>s. None), signer_from_bytes = (\<lambda>bs. None), signer_parse = (\<lambda>s. None),
     address_display = address_hex alloy_ref, json_to_string = (\<lambda>j. []), b256_parse_error = (\<lambda>s. []),
     sqlx_text = (\<lambda>e. [])\<rparr>"

definition node_ref :: node_rpc where
  "node_ref = \<lparr>get_transaction_count = (\<lambda>n a. Inr 3),
     get_block_latest = (\<lambda>n. Inr (Some \<lparr>bh_number = 100, bh_timestamp = 0, bh_base_fee_per_gas = Some 10\<rparr>)),
     get_transaction_receipt = (\<lambda>n h. Inr None), get_block_number = (\<lambda>n. Inr (word_of_nat (100 + n))),
     relay_send = (\<lambda>n u h b. Inr ()),
     relay_json = (\<lambda>n. Inr (JObject [(''result'', JObject
        [(''bundleHash'', JString ''0x07''),
         (''results'', JArray [JObject [(''gasUsed'', JNumber (PosInt 21000))]])])])),
     system_secs = (\<lambda>n. 1700000000)\<rparr>"

definition executor_ref :: "bool \<Rightarrow> executor" where
  "executor_ref paper = \<lparr>ex_signer = signer_ref, ex_flashbots = \<lparr>relay_url = [], signing_key = signer_ref\<rparr>,
     ex_contract_address = 9, ex_paper_trade = paper\<rparr>"

definition world_ref :: world where
  "world_ref = \<lparr>w_db = migrated_database, w_asked = 0, w_posted = []\<rparr>"

definition opp_ref :: arbitrage_opportunity where
  "opp_ref = \<lparr>opp_pool_a = 1, opp_pool_b = 2, opp_token_in = WETH, opp_token_out = USDC,
     opp_input_amount = 1000, opp_estimated_profit_usd = F64_Zero False, opp_gas_estimate_usd = F64_Zero False,
     opp_spread_bps = 5\<rparr>"

section \<open>Properties\<close>

text \<open>
  C10: when \<open>target + 2\<close> fits, the node answers every request and its chain goes on, waiting for a
  transaction always ends; the answer is \<open>true\<close> when the last receipt request found a
  receipt, and \<open>false\<close> only after every receipt request found none and the chain was past block
  \<open>target + 2\<close>.
\<close>

theorem wait_for_inclusion_returns:
  assumes fits: "uint target + 2 < 2 ^ 64"
    and receipts: "\<And>n. \<exists>s. get_transaction_receipt N n h = Inr s"
    and blocks: "\<And>n. \<exists>b. get_block_number N n = Inr b"
    and progress: "\<exists>m. \<forall>n \<ge> m. \<exists>b. get_block_number N n = Inr b \<and> target + 2 < b"
  shows "\<exists>k b w'. wait_for_inclusion chk N h target w = Some (Inr b, w') \<and>
     (\<forall>i < k. get_transaction_receipt N (w_asked w + 2 * i) h = Inr None) \<and>
     (if b then \<exists>s. get_transaction_receipt N (w_asked w + 2 * k) h = Inr (Some s)
      else get_transaction_receipt N (w_asked w + 2 * k) h = Inr None \<and>
           (\<exists>c. get_block_number N (w_asked w + 2 * k + 1) = Inr c \<and> target + 2 < c))"
proof -
  let ?n = "w_asked w" and ?dl = "target + 2"
  obtain m where m: "\<And>n. m \<le> n \<Longrightarrow> \<exists>b. get_block_number N n = Inr b \<and> ?dl < b" using progress by blast
  have "\<exists>i. \<not> round_goes_on N h ?dl ?n i"
    using m [of "?n + 2 * m + 1"] by (intro exI [of _ m]) (auto simp: round_goes_on_def)
  then obtain k where k: "\<not> round_goes_on N h ?dl ?n k" "\<forall>i < k. round_goes_on N h ?dl ?n i"
    using exists_least_iff [of "\<lambda>i. \<not> round_goes_on N h ?dl ?n i"] by blast
  let ?w = "w\<lparr>w_asked := ?n + 2 * k\<rparr>"
  have wait: "wait_for_inclusion chk N h target w = inclusion_loop N h ?dl ?w"
    using inclusion_loop_rounds [OF k(2)] fits by (simp add: wait_for_inclusion_def add_word_fits)
  have before: "\<forall>i < k. get_transaction_receipt N (?n + 2 * i) h = Inr None"
    using k(2) by (simp add: round_goes_on_def)
  obtain s where s: "get_transaction_receipt N (?n + 2 * k) h = Inr s" using receipts by blast
  show ?thesis
  proof (cases s)
    case (Some x)
    then have "inclusion_loop N h ?dl ?w = Some (Inr True, ?w\<lparr>w_asked := w_asked ?w + 1\<rparr>)"
      using s by (intro inclusion_loop_receipt) simp
    then show ?thesis using wait before s Some by (intro exI [of _ k] exI [of _ True]) simp
  next
    case None
    obtain c where c: "get_block_number N (?n + 2 * k + 1) = Inr c" using blocks by blast
    have "?dl < c" using k(1) s None c by (auto simp: round_goes_on_def)
    then have "inclusion_loop N h ?dl ?w = Some (Inr False, ?w\<lparr>w_asked := w_asked ?w + 2\<rparr>)"
      using s None c by (intro inclusion_loop_late) simp_all
    then show ?thesis using wait before s None c \<open>?dl < c\<close> by (intro exI [of _ k] exI [of _ False]) simp
  qed
qed

definition node_going_on :: node_rpc where
  "node_going_on = node_ref\<lparr>get_block_number := (\<lambda>n. Inr (if n < 8 then 100 else 200))\<rparr>"

theorem wait_for_inclusion_returns_witness:
  "\<exists>k b w'. wait_for_inclusion True node_going_on 7 101 world_ref = Some (Inr b, w') \<and>
     (\<forall>i < k. get_transaction_receipt node_going_on (w_asked world_ref + 2 * i) 7 = Inr None) \<and>
     (if b then \<exists>s. get_transaction_receipt node_going_on (w_asked world_ref + 2 * k) 7 = Inr (Some s)
      else get_transaction_receipt node_going_on (w_asked world_ref + 2 * k) 7 = Inr None \<and>
           (\<exists>c. get_block_number node_going_on (w_asked world_ref + 2 * k + 1) = Inr c \<and> (101 :: u64) + 2 < c))"
proof (rule wait_for_inclusion_returns)
  show "\<exists>m. \<forall>n \<ge> m. \<exists>b. get_block_number node_going_on n = Inr b \<and> (101 :: u64) + 2 < b"
    by (intro exI [of _ 8]) (simp add: node_going_on_def)
qed (simp_all add: node_going_on_def node_ref_def)


lemma execute_ref:
  "\<exists>w'. execute True alloy_ref eth_ref sqlite_ref node_ref (executor_ref True) opp_ref 1 100 world_ref = Some (Inr 1, w')"
proof -
  have "\<exists>d'. insert_trade alloy_ref sqlite_ref (trade_record alloy_ref opp_ref 7 (Some 21000) Simulated 101 ts)
      migrated_database = (Inr 1, d')" for ts
    by (simp add: insert_trade_def db_guard_defs migrated_database_def trade_status_to_db_def i64_max_def
        Let_def trade_record_def opp_ref_def bind_real_def)
  then show ?thesis
    by (simp add: execute_def build_signed_tx_def build_tx_def paper_execute_def simulate_bundle_def relay_request_def
        sign_bundle_header_def ask_or_simp ask_def bindE_def okE_def liftO_def max_fee_of_def mul_word_def add_word_def
        post_body_def record_trade_Inr node_ref_def eth_ref_def executor_ref_def signer_ref_def world_ref_def
        json_index_def Let_def)
qed


text \<open>
  C8: in paper mode an execution always ends and never submits a bundle: it posts at most one request
  to the relay, and that is an \<^verbatim>\<open>eth_callBundle\<close> for the next block.
\<close>

theorem paper_trade_never_submits:
  assumes "ex_paper_trade ex"
  shows "\<exists>r w' posts. execute chk L K E N ex opp min_profit current_block w = Some (r, w') \<and>
     w_posted w' = w_posted w @ posts \<and>
     (posts = [] \<or> (\<exists>tx. posts = [call_bundle_body K tx (current_block + 1)])) \<and>
     (\<forall>body. json_index body ''method'' = JString ''eth_sendBundle'' \<longrightarrow> body \<notin> set posts)"
proof -
  have no_send: "json_index (call_bundle_body K tx b) ''method'' \<noteq> JString ''eth_sendBundle''" for tx b
    by (simp add: json_index_def call_bundle_body_def bundle_body_def)
  obtain r w' where ex: "execute chk L K E N ex opp min_profit current_block w = Some (r, w')"
    using paper_execute_total [OF assms] by blast
  then have "w_posted w' = w_posted w \<or> (\<exists>tx. w_posted w' = w_posted w @ [call_bundle_body K tx (current_block + 1)])"
  proof (cases rule: execute_cases)
    case (paper tx w1)
    then show ?thesis using paper_execute_posts [OF paper(4)] by auto
  qed (simp_all add: assms)
  then show ?thesis using ex no_send by fastforce
qed

theorem paper_trade_never_submits_witness:
  "\<exists>r w' posts. execute True alloy_ref eth_ref sqlite_ref node_ref (executor_ref True) opp_ref 1 100 world_ref = Some (r, w') \<and>
     w_posted w' = w_posted world_ref @ posts \<and>
     (posts = [] \<or> (\<exists>tx. posts = [call_bundle_body eth_ref tx (100 + 1)])) \<and>
     (\<forall>body. json_index body ''method'' = JString ''eth_sendBundle'' \<longrightarrow> body \<notin> set posts)"
  by (rule paper_trade_never_submits) (simp add: executor_ref_def)

text \<open>
  The transaction that is signed pays the base fee of the latest block twice over plus the tip of 1.5
  gwei: when no overflow is possible its fee cap is exactly that and covers the tip and the base fee,
  it goes to the configured contract on chain 1 with the calldata given, and carries no ether.
\<close>

theorem build_tx_fees:
  assumes "build_tx chk N ex input w = (Inr tx, w')"
    and "\<And>n h f. get_block_latest N n = Inr (Some h) \<Longrightarrow> bh_base_fee_per_gas h = Some f \<Longrightarrow> uint f < 2 ^ 126"
  shows "(\<exists>n h f. get_block_latest N n = Inr (Some h) \<and> bh_base_fee_per_gas h = Some f \<and>
            uint (max_fee_per_gas tx) = 2 * uint f + 1500000000) \<and>
     max_priority_fee_per_gas tx \<le> max_fee_per_gas tx \<and> tx_to tx = ex_contract_address ex \<and>
     tx_input tx = input \<and> tx_value tx = 0 \<and> chain_id tx = 1 \<and>
     (\<exists>n. get_transaction_count N n (signer_address (ex_signer ex)) = Inr (nonce tx))"
proof -
  let ?c = "w_asked w"
  obtain c h f m where steps: "get_transaction_count N ?c (signer_address (ex_signer ex)) = Inr c"
    "get_block_latest N (Suc ?c) = Inr (Some h)" "bh_base_fee_per_gas h = Some f" "max_fee_of chk f = Ret m"
    "tx = \<lparr>chain_id = 1, nonce = c, gas_limit = 250000, max_fee_per_gas = m, max_priority_fee_per_gas = 1500000000,
           tx_to = ex_contract_address ex, tx_value = 0, tx_input = input\<rparr>"
    using assms(1)
    by (auto simp: build_tx_def bindE_Inr_iff ask_or_simp okE_def errE_def split: sum.splits option.splits)
  have f: "uint f < 2 ^ 126" using assms(2) steps(2,3) by blast
  have d: "uint (f * 2) = 2 * uint f"
    using f by (simp add: uint_word_ariths take_bit_int_eq_self)
  have s: "uint (f * 2 + 1500000000) = 2 * uint f + 1500000000"
    using f d by (simp add: uint_word_ariths take_bit_int_eq_self)
  have "m = f * 2 + 1500000000"
    using steps(4) by (auto simp: max_fee_of_def bindO_Ret_iff mul_word_def dest: add_word_Ret split: if_splits)
  then have m: "uint m = 2 * uint f + 1500000000" using s by simp
  have "max_priority_fee_per_gas tx \<le> max_fee_per_gas tx" using m steps(5) by (simp add: word_le_def)
  then show ?thesis using steps m by auto
qed

theorem build_tx_fees_witness:
  "\<exists>tx w'. build_tx True node_ref (executor_ref False) [1, 2] world_ref = (Inr tx, w') \<and>
     max_priority_fee_per_gas tx \<le> max_fee_per_gas tx \<and> tx_to tx = ex_contract_address (executor_ref False) \<and>
     tx_input tx = [1, 2] \<and> tx_value tx = 0 \<and> chain_id tx = 1"
proof -
  have "\<exists>tx w'. build_tx True node_ref (executor_ref False) [1, 2] world_ref = (Inr tx, w')"
    by (simp add: build_tx_def ask_or_simp bindE_def okE_def liftO_def max_fee_of_def mul_word_def add_word_def
        node_ref_def world_ref_def)
  then obtain tx w' where tx: "build_tx True node_ref (executor_ref False) [1, 2] world_ref = (Inr tx, w')" by blast
  moreover have "uint f < 2 ^ 126" if "get_block_latest node_ref n = Inr (Some h)" "bh_base_fee_per_gas h = Some f" for n h f
    using that by (auto simp: node_ref_def)
  ultimately show ?thesis using build_tx_fees [OF tx] by blast
qed

end
