(* ===== verification/Scanner.thy ===== *)
theory Scanner
  imports Amm Gas_Oracle Profit_Sim Executor
begin

text \<open>
  The scanner of \<^verbatim>\<open>zelvex-core/src/scanner.rs\<close>: it looks for a WETH/stablecoin price gap between two
  pools, decides on it and records it, executing it first when the decision is to go. The price feed
  is the argument \<open>S\<close>; node, libraries and database engine are those of the executor. A wake-up of
  the task carries what the other tasks have made of the shared pool store, gas oracle and database
  meanwhile, and the clock.
\<close>

section \<open>Finding opportunities\<close>

definition stable_token_out :: "address \<Rightarrow> address \<Rightarrow> address \<Rightarrow> address \<Rightarrow> address option" where
  "stable_token_out a0 a1 b0 b1 =
     (if (a0, a1) \<noteq> (b0, b1) then None
      else if a0 = 0 \<or> a1 = 0 then None
      else if a0 \<noteq> WETH \<and> a1 \<noteq> WETH then None
      else if a0 = USDC \<or> a1 = USDC then Some USDC
      else if a0 = DAI \<or> a1 = DAI then Some DAI
      else None)"

definition reserves_for_swap :: "pool \<Rightarrow> address \<Rightarrow> address \<Rightarrow> (u256 \<times> u256) option" where
  "reserves_for_swap p token_in token_out =
     (if token0 p = token_in \<and> token1 p = token_out then Some (reserve0 p, reserve1 p)
      else if token1 p = token_in \<and> token0 p = token_out then Some (reserve1 p, reserve0 p)
      else None)"

definition spread_bps :: "alloy \<Rightarrow> u256 \<Rightarrow> u256 \<Rightarrow> i64" where
  "spread_bps L price_a price_b =
     (let mn = (if price_a < price_b then price_a else price_b)
      in if mn = 0 then 0
         else
           let diff = (if price_a > price_b then price_a - price_b else price_b - price_a);
               bps = (diff * 10000) div mn
           in case parse_i64 (u256_to_string L bps) of None \<Rightarrow> i64_max | Some v \<Rightarrow> v)"

definition wei_to_eth_f64 :: "alloy \<Rightarrow> u256 \<Rightarrow> f64" where
  "wei_to_eth_f64 L wei =
     (case f64_parse (u256_to_string L wei) of
        None \<Rightarrow> F64_Zero False
      | Some v \<Rightarrow> f64_div v (f64_of_int 1000000000000000000))"

definition build_opportunity ::
  "alloy \<Rightarrow> pool \<Rightarrow> pool \<Rightarrow> address \<Rightarrow> u256 \<Rightarrow> f64 \<Rightarrow> arbitrage_opportunity option outcome" where
  "build_opportunity L pool_a pool_b token_out amount_in eth_price_usd =
     try_opt (Ret (reserves_for_swap pool_a WETH token_out)) (\<lambda>(a_in, a_out).
     try_opt (Ret (reserves_for_swap pool_b token_out WETH)) (\<lambda>(b_in, b_out).
       if a_in = 0 \<or> a_out = 0 \<or> b_in = 0 \<or> b_out = 0 then Ret None
       else
         try_opt (calculate_profit amount_in a_in a_out b_in b_out) (\<lambda>profit_wei.
           if profit_wei = 0 then Ret None
           else
             let estimated_profit_usd = f64_mul (wei_to_eth_f64 L profit_wei) eth_price_usd
             in if f64_le estimated_profit_usd (F64_Zero False) then Ret None
                else
                  try_opt (get_spot_price a_in a_out) (\<lambda>price_a.
                  try_opt (get_spot_price b_out b_in) (\<lambda>price_b.
                    Ret (Some \<lparr>opp_pool_a = pool_address pool_a, opp_pool_b = pool_address pool_b,
                               opp_token_in = WETH, opp_token_out = token_out, opp_input_amount = amount_in,
                               opp_estimated_profit_usd = estimated_profit_usd,
                               opp_gas_estimate_usd = F64_Zero False,
                               opp_spread_bps = spread_bps L price_a price_b\<rparr>))))))"

text \<open>The body of the loop over the pairs: the opportunity it pushes, if any.\<close>

definition scan_pair ::
  "alloy \<Rightarrow> pool_store \<Rightarrow> f64 \<Rightarrow> address \<times> address \<Rightarrow> arbitrage_opportunity option outcome" where
  "scan_pair L st eth_price_usd ab =
     (case store_get st (fst ab) of
        None \<Rightarrow> Ret None
      | Some pool_a \<Rightarrow>
          (case store_get st (snd ab) of
             None \<Rightarrow> Ret None
           | Some pool_b \<Rightarrow>
               (case stable_token_out (token0 pool_a) (token1 pool_a) (token0 pool_b) (token1 pool_b) of
                  None \<Rightarrow> Ret None
                | Some token_out \<Rightarrow>
                    let amount_in = 1000000000000000000
                    in bindO (build_opportunity L pool_a pool_b token_out amount_in eth_price_usd) (\<lambda>opp_ab.
                       bindO (build_opportunity L pool_b pool_a token_out amount_in eth_price_usd) (\<lambda>opp_ba.
                         Ret (case (opp_ab, opp_ba) of
                                (Some a, Some b) \<Rightarrow>
                                  if f64_ge (opp_estimated_profit_usd a) (opp_estimated_profit_usd b)
                                  then Some a else Some b
                              | (Some a, None) \<Rightarrow> Some a
                              | (None, Some b) \<Rightarrow> Some b
                              | (None, None) \<Rightarrow> None))))))"

fun scan_pairs ::
  "alloy \<Rightarrow> pool_store \<Rightarrow> (address \<times> address) list \<Rightarrow> f64 \<Rightarrow> arbitrage_opportunity list outcome" where
  "scan_pairs L st [] price = Ret []"
| "scan_pairs L st (ab # pairs) price =
     bindO (scan_pair L st price ab) (\<lambda>r.
     bindO (scan_pairs L st pairs price) (\<lambda>out.
       Ret (case r of None \<Rightarrow> out | Some o1 \<Rightarrow> o1 # out)))"

section \<open>The task\<close>

datatype scanner_error = Ws string | ScannerDb sqlx_error

record price_feed =
  feed_connect :: "string + unit"
  feed_decimals :: "nat \<Rightarrow> string + u8"
  feed_answer :: "nat \<Rightarrow> string + int"
  i256_to_string :: "int \<Rightarrow> string"
  powi10 :: "nat \<Rightarrow> f64"

record scanner_config =
  pool_pairs :: "(address \<times> address) list"
  min_profit_usd :: f64
  sc_executor :: "executor option"

record wakeup =
  wk_now :: int
  wk_fetched :: int
  wk_store :: pool_store
  wk_oracle :: gas_oracle
  wk_others :: "database \<Rightarrow> database"

record scan_vars =
  eth_price :: f64
  last_price_fetch :: int

type_synonym 'a scan_io = "(world, scanner_error fail, 'a) io"

definition ws_provider :: "price_feed \<Rightarrow> unit scan_io" where
  "ws_provider S = (case feed_connect S of Inl e \<Rightarrow> errE (Err (Ws e)) | Inr _ \<Rightarrow> okE ())"

definition ask_ws :: "(nat \<Rightarrow> string + 'a) \<Rightarrow> 'a scan_io" where
  "ask_ws f = bindE (ask f) (\<lambda>r. case r of Inl e \<Rightarrow> errE (Err (Ws e)) | Inr a \<Rightarrow> okE a)"

definition fetch_eth_price_usd :: "price_feed \<Rightarrow> f64 scan_io" where
  "fetch_eth_price_usd S =
     bindE (ask_ws (feed_decimals S)) (\<lambda>decimals.
     bindE (ask_ws (feed_answer S)) (\<lambda>answer.
       let raw = (case f64_parse (i256_to_string S answer) of None \<Rightarrow> F64_Zero False | Some v \<Rightarrow> v)
       in okE (f64_div raw (powi10 S (unat decimals)))))"

text \<open>\<open>30\<close> seconds in nanoseconds; \<open>elapsed\<close> is at least zero.\<close>

definition refresh_price :: "price_feed \<Rightarrow> wakeup \<Rightarrow> scan_vars \<Rightarrow> scan_vars scan_io" where
  "refresh_price S wk v =
     (if max 0 (wk_now wk - last_price_fetch v) \<ge> int (duration_secs 30)
      then bindE (fetch_eth_price_usd S) (\<lambda>p. okE \<lparr>eth_price = p, last_price_fetch = wk_fetched wk\<rparr>)
      else okE v)"

definition insert_opp ::
  "alloy \<Rightarrow> sqlite \<Rightarrow> arbitrage_opportunity \<Rightarrow> profit_decision \<Rightarrow> i64 option \<Rightarrow> unit scan_io" where
  "insert_opp L E opp decision trade_id =
     (let (decision_str, why) = (case decision of Go _ _ \<Rightarrow> (''go'', None) | NoGo r \<Rightarrow> (''no-go'', Some r))
      in bindE (mapErr (\<lambda>e. Err (ScannerDb e)) (on_db (insert_opportunity L E opp decision_str why trade_id)))
           (\<lambda>_. okE ()))"

text \<open>The body of the loop over the opportunities; \<open>None\<close> when the execution never ends.\<close>

definition handle_opportunity ::
  "bool \<Rightarrow> alloy \<Rightarrow> eth_lib \<Rightarrow> sqlite \<Rightarrow> node_rpc \<Rightarrow> scanner_config \<Rightarrow> gas_estimate \<Rightarrow> f64 \<Rightarrow>
     arbitrage_opportunity \<Rightarrow> world \<Rightarrow> ((scanner_error fail + unit) \<times> world) option" where
  "handle_opportunity chk L K E N cfg gas price opp0 w =
     (let opp = opp0\<lparr>opp_gas_estimate_usd := gas_cost_usd_of (recommended_total_gwei gas) price\<rparr>;
          decision = evaluate opp gas price (min_profit_usd cfg)
      in if is_go decision
         then (case sc_executor cfg of
                 None \<Rightarrow> Some (insert_opp L E opp decision None w)
               | Some ex \<Rightarrow>
                   (case ask_ws (get_block_number N) w of
                      (Inl e, w1) \<Rightarrow> Some (Inl e, w1)
                    | (Inr current_block, w1) \<Rightarrow>
                        (case execute chk L K E N ex opp 1 current_block w1 of
                           None \<Rightarrow> None
                         | Some (Inl Panic, w2) \<Rightarrow> Some (Inl Panic, w2)
                         | Some (Inl (Err e), w2) \<Rightarrow> Some (insert_opp L E opp decision None w2)
                         | Some (Inr i, w2) \<Rightarrow> Some (insert_opp L E opp decision (Some i) w2))))
         else Some (insert_opp L E opp decision None w))"

fun handle_all ::
  "bool \<Rightarrow> alloy \<Rightarrow> eth_lib \<Rightarrow> sqlite \<Rightarrow> node_rpc \<Rightarrow> scanner_config \<Rightarrow> gas_estimate \<Rightarrow> f64 \<Rightarrow>
     arbitrage_opportunity list \<Rightarrow> world \<Rightarrow> ((scanner_error fail + unit) \<times> world) option" where
  "handle_all chk L K E N cfg gas price [] w = Some (Inr (), w)"
| "handle_all chk L K E N cfg gas price (opp # opps) w =
     (case handle_opportunity chk L K E N cfg gas price opp w of
        None \<Rightarrow> None
      | Some (Inl e, w1) \<Rightarrow> Some (Inl e, w1)
      | Some (Inr _, w1) \<Rightarrow> handle_all chk L K E N cfg gas price opps w1)"

definition scan_once ::
  "bool \<Rightarrow> alloy \<Rightarrow> eth_lib \<Rightarrow> sqlite \<Rightarrow> node_rpc \<Rightarrow> price_feed \<Rightarrow> scanner_config \<Rightarrow> wakeup \<Rightarrow> scan_vars \<Rightarrow>
     world \<Rightarrow> ((scanner_error fail + scan_vars) \<times> world) option" where
  "scan_once chk L K E N S cfg wk v w0 =
     (case refresh_price S wk v (w0\<lparr>w_db := wk_others wk (w_db w0)\<rparr>) of
        (Inl e, w) \<Rightarrow> Some (Inl e, w)
      | (Inr v', w) \<Rightarrow>
          (case bindO (get_current_gas_estimate (wk_oracle wk)) (\<lambda>gas.
                 bindO (scan_pairs L (wk_store wk) (pool_pairs cfg) (eth_price v')) (\<lambda>opps. Ret (gas, opps))) of
             Panicked \<Rightarrow> Some (Inl Panic, w)
           | Ret (gas, opps) \<Rightarrow>
               map_option (\<lambda>(r, w'). (case r of Inl e \<Rightarrow> Inl e | Inr _ \<Rightarrow> Inr v', w'))
                 (handle_all chk L K E N cfg gas (eth_price v') opps w)))"

fun scan_loop ::
  "bool \<Rightarrow> alloy \<Rightarrow> eth_lib \<Rightarrow> sqlite \<Rightarrow> node_rpc \<Rightarrow> price_feed \<Rightarrow> scanner_config \<Rightarrow> wakeup list \<Rightarrow> scan_vars \<Rightarrow>
     world \<Rightarrow> ((scanner_error fail + unit) \<times> world) option" where
  "scan_loop chk L K E N S cfg [] v w = Some (Inr (), w)"
| "scan_loop chk L K E N S cfg (wk # wks) v w =
     (case scan_once chk L K E N S cfg wk v w of
        None \<Rightarrow> None
      | Some (Inl e, w') \<Rightarrow> Some (Inl e, w')
      | Some (Inr v', w') \<Rightarrow> scan_loop chk L K E N S cfg wks v' w')"

definition run_scanner ::
  "bool \<Rightarrow> alloy \<Rightarrow> eth_lib \<Rightarrow> sqlite \<Rightarrow> node_rpc \<Rightarrow> price_feed \<Rightarrow> scanner_config \<Rightarrow> int \<Rightarrow> wakeup list \<Rightarrow>
     world \<Rightarrow> ((scanner_error fail + unit) \<times> world) option" where
  "run_scanner chk L K E N S cfg start wks w =
     (case ws_provider S w of
        (Inl e, w') \<Rightarrow> Some (Inl e, w')
      | (Inr _, w') \<Rightarrow>
          scan_loop chk L K E N S cfg wks
            \<lparr>eth_price = F64_Zero False, last_price_fetch = start - int (duration_secs 60)\<rparr> w')"

section \<open>Routes and reserves\<close>

lemma stable_token_out_Some:
  assumes "stable_token_out a0 a1 b0 b1 = Some t"
  shows "(b0, b1) = (a0, a1) \<and> t \<in> {USDC, DAI} \<and> (a0 = WETH \<or> a1 = WETH) \<and> (a0 = t \<or> a1 = t)"
  using assms by (auto simp: stable_token_out_def split: if_splits)

text \<open>A pool whose reserves fit the pair contract's \<open>uint112\<close>.\<close>

definition uint112_pool :: "pool \<Rightarrow> bool" where
  "uint112_pool p \<longleftrightarrow> unat (reserve0 p) < 2 ^ 112 \<and> unat (reserve1 p) < 2 ^ 112"

definition uint112_store :: "pool_store \<Rightarrow> bool" where
  "uint112_store st \<longleftrightarrow> (\<forall>a p. store_get st a = Some p \<longrightarrow> uint112_pool p)"

lemma reserves_for_swap_uint112:
  assumes "reserves_for_swap p t u = Some (x, y)" "uint112_pool p"
  shows "unat x < 2 ^ 112 \<and> unat y < 2 ^ 112"
  using assms by (auto simp: reserves_for_swap_def uint112_pool_def split: if_splits)

definition one_eth :: u256 where "one_eth = 1000000000000000000"

lemma unat_one_eth: "unat one_eth = 10 ^ 18"
  by (simp add: one_eth_def)

lemma route_fits:
  assumes "unat xa < 2 ^ 112" "unat ya < 2 ^ 112" "unat xb < 2 ^ 112" "unat yb < 2 ^ 112"
    "xa \<noteq> 0" "ya \<noteq> 0"
  shows "swap_fits (unat one_eth) (unat xa) (unat ya)"
    "swap_fits (swap_out (unat one_eth) (unat xa) (unat ya)) (unat xb) (unat yb)"
proof -
  show "swap_fits (unat one_eth) (unat xa) (unat ya)"
    using assms by (intro uint112_fits) (simp_all add: unat_one_eth)
  have "swap_out (unat one_eth) (unat xa) (unat ya) < unat ya"
    using assms(5,6) by (intro swap_out_below) (simp_all add: unat_gt_0)
  then show "swap_fits (swap_out (unat one_eth) (unat xa) (unat ya)) (unat xb) (unat yb)"
    using assms by (intro uint112_fits) simp_all
qed

section \<open>One direction\<close>

lemma build_opportunity_Some:
  assumes "build_opportunity L pa pb t amt price = Ret (Some opp)"
  obtains xa ya xb yb p sa sb where
    "reserves_for_swap pa WETH t = Some (xa, ya)" "reserves_for_swap pb t WETH = Some (xb, yb)"
    "calculate_profit amt xa ya xb yb = Ret (Some p)" "p \<noteq> 0"
    "get_spot_price xa ya = Ret (Some sa)" "get_spot_price yb xb = Ret (Some sb)"
    "\<not> f64_le (f64_mul (wei_to_eth_f64 L p) price) (F64_Zero False)"
    "opp = \<lparr>opp_pool_a = pool_address pa, opp_pool_b = pool_address pb, opp_token_in = WETH,
            opp_token_out = t, opp_input_amount = amt,
            opp_estimated_profit_usd = f64_mul (wei_to_eth_f64 L p) price,
            opp_gas_estimate_usd = F64_Zero False, opp_spread_bps = spread_bps L sa sb\<rparr>"
  using assms
  by (auto simp: build_opportunity_def try_opt_Some_iff Let_def split: if_splits prod.splits)

lemma try_opt_Ret: "m = Ret r \<Longrightarrow> (\<And>x. r = Some x \<Longrightarrow> \<exists>q. f x = Ret q) \<Longrightarrow> \<exists>q. try_opt m f = Ret q"
  by (cases r) auto

lemma build_opportunity_returns:
  assumes "uint112_pool pa" "uint112_pool pb"
  shows "\<exists>r. build_opportunity L pa pb t one_eth price = Ret r"
proof (cases "reserves_for_swap pa WETH t")
  case (Some ra)
  obtain xa ya where ra: "ra = (xa, ya)" by fastforce
  show ?thesis
  proof (cases "reserves_for_swap pb t WETH")
    case Some2: (Some rb)
    obtain xb yb where rb: "rb = (xb, yb)" by fastforce
    show ?thesis
    proof (cases "xa = 0 \<or> ya = 0 \<or> xb = 0 \<or> yb = 0")
      case False
      have "unat xa < 2 ^ 112" "unat ya < 2 ^ 112" "unat xb < 2 ^ 112" "unat yb < 2 ^ 112"
        using reserves_for_swap_uint112 assms Some Some2 ra rb by blast+
      then obtain r where "calculate_profit one_eth xa ya xb yb = Ret r"
        using calculate_profit_total [OF route_fits] False by blast
      moreover have "\<exists>q. get_spot_price xa ya = Ret q" "\<exists>q. get_spot_price yb xb = Ret q"
        using False by (simp_all add: get_spot_price_def u256_div_def)
      ultimately show ?thesis
        using Some Some2 ra rb False
        by (auto simp: build_opportunity_def Let_def intro!: try_opt_Ret)
    qed (use Some Some2 ra rb in \<open>auto simp: build_opportunity_def\<close>)
  qed (use Some ra in \<open>simp add: build_opportunity_def\<close>)
qed (simp add: build_opportunity_def)

section \<open>Pairs\<close>

text \<open>An opportunity in one of the two directions of a pair, at least as good as the other one.\<close>

definition best_direction :: "alloy \<Rightarrow> pool \<Rightarrow> pool \<Rightarrow> address \<Rightarrow> f64 \<Rightarrow> arbitrage_opportunity \<Rightarrow> bool" where
  "best_direction L p q t price opp \<longleftrightarrow>
     build_opportunity L p q t one_eth price = Ret (Some opp) \<and>
     (\<forall>other. build_opportunity L q p t one_eth price = Ret (Some other) \<longrightarrow>
        \<not> f64_lt (opp_estimated_profit_usd opp) (opp_estimated_profit_usd other))"

lemma scan_pair_Some:
  assumes "scan_pair L st price (a, b) = Ret (Some opp)"
  obtains pa pb t where "store_get st a = Some pa" "store_get st b = Some pb"
    "stable_token_out (token0 pa) (token1 pa) (token0 pb) (token1 pb) = Some t"
    "best_direction L pa pb t price opp \<or> best_direction L pb pa t price opp"
proof -
  obtain pa pb t where st: "store_get st a = Some pa" "store_get st b = Some pb"
    "stable_token_out (token0 pa) (token1 pa) (token0 pb) (token1 pb) = Some t"
    using assms by (auto simp: scan_pair_def split: option.splits)
  obtain x y where xy: "build_opportunity L pa pb t one_eth price = Ret x"
    "build_opportunity L pb pa t one_eth price = Ret y"
    using assms st by (auto simp: scan_pair_def one_eth_def bindO_Ret_iff Let_def)
  have "best_direction L pa pb t price opp \<or> best_direction L pb pa t price opp"
    using assms st xy
    by (cases x; cases y)
      (auto simp: scan_pair_def one_eth_def [symmetric] best_direction_def Let_def f64_le_def
        dest: f64_lt_asym split: if_splits)
  then show thesis using that st by blast
qed

lemma scan_pairs_elem:
  assumes "scan_pairs L st pairs price = Ret opps" "opp \<in> set opps"
  shows "\<exists>ab \<in> set pairs. scan_pair L st price ab = Ret (Some opp)"
  using assms
proof (induction pairs arbitrary: opps)
  case (Cons ab pairs)
  then show ?case by (auto simp: bindO_Ret_iff split: option.splits)
qed simp

lemma scan_pair_returns:
  assumes "uint112_store st"
  shows "\<exists>r. scan_pair L st price ab = Ret r"
proof (cases "store_get st (fst ab)")
  case (Some pa)
  show ?thesis
  proof (cases "store_get st (snd ab)")
    case Some2: (Some pb)
    have u: "uint112_pool pa" "uint112_pool pb" using assms Some Some2 by (auto simp: uint112_store_def)
    show ?thesis
    proof (cases "stable_token_out (token0 pa) (token1 pa) (token0 pb) (token1 pb)")
      case Some3: (Some t)
      obtain x y where "build_opportunity L pa pb t one_eth price = Ret x"
        "build_opportunity L pb pa t one_eth price = Ret y"
        using build_opportunity_returns [OF u] build_opportunity_returns [OF u(2,1)] by metis
      then show ?thesis by (simp add: scan_pair_def Some Some2 Some3 one_eth_def)
    qed (simp add: scan_pair_def Some Some2)
  qed (simp add: scan_pair_def Some)
qed (simp add: scan_pair_def)

lemma scan_pairs_returns:
  assumes "uint112_store st"
  shows "\<exists>opps. scan_pairs L st pairs price = Ret opps \<and> length opps \<le> length pairs"
proof (induction pairs)
  case (Cons ab pairs)
  obtain r where "scan_pair L st price ab = Ret r" using scan_pair_returns [OF assms] by blast
  then show ?case using Cons by (auto split: option.splits)
qed simp

section \<open>Handling an opportunity\<close>

lemma bind_real_Some: "bind_real x = Some y \<longleftrightarrow> \<not> f64_is_nan x \<and> y = zero_unsigned x"
  by (cases x) (auto simp: bind_real_def zero_unsigned_def)

text \<open>The row that is recorded for an opportunity with a decision.\<close>

definition row_for :: "arbitrage_opportunity \<Rightarrow> profit_decision \<Rightarrow> i64 option \<Rightarrow> opportunity_row \<Rightarrow> bool" where
  "row_for opp dec tid r \<longleftrightarrow>
     bind_real (opp_estimated_profit_usd opp) = Some (o_estimated_profit r) \<and>
     bind_real (opp_gas_estimate_usd opp) = Some (o_gas_estimate_usd r) \<and>
     o_decision r = (if is_go dec then ''go'' else ''no-go'') \<and>
     o_no_go_reason r = (case dec of Go _ _ \<Rightarrow> None | NoGo why \<Rightarrow> Some why) \<and> o_trade_id r = tid \<and>
     o_spread_bps r = opp_spread_bps opp"

lemma insert_opp_cases:
  assumes "insert_opp L E opp dec tid w = (r, w')"
  obtains (fail) e where "r = Inl e" "w_db w' = tick (w_db w)" "w_posted w' = w_posted w"
  | (ok) row where "r = Inr ()" "row_for opp dec tid row" "o_id row = opportunities_seq (w_db w) + 1"
      "w_db w' = add_opportunity row (tick (w_db w))" "w_posted w' = w_posted w"
proof -
  let ?s = "if is_go dec then ''go'' else ''no-go''"
  let ?why = "case dec of Go _ _ \<Rightarrow> None | NoGo why \<Rightarrow> Some why"
  obtain q d' where q: "insert_opportunity L E opp ?s ?why tid (w_db w) = (q, d')" by fastforce
  have w': "w' = w\<lparr>w_db := d'\<rparr>" and r: "r = (case q of Inl e \<Rightarrow> Inl (Err (ScannerDb e)) | Inr _ \<Rightarrow> Inr ())"
    using assms q
    by (cases dec; cases q; simp add: insert_opp_def bindE_def mapErr_def on_db_def okE_def)+
  from q show thesis
  proof (cases rule: insert_opportunity_cases)
    case (fail e)
    then show thesis using that(1) w' r by simp
  next
    case (ok row)
    then show thesis using that(2) [of row] w' r by (simp add: row_for_def)
  qed
qed

lemma insert_opp_step:
  assumes "insert_opp L E opp dec tid w = (r, w')"
  shows "db_step L E (w_db w) (w_db w')"
proof -
  let ?s = "if is_go dec then ''go'' else ''no-go''"
  let ?why = "case dec of Go _ _ \<Rightarrow> None | NoGo why \<Rightarrow> Some why"
  obtain q d' where q: "insert_opportunity L E opp ?s ?why tid (w_db w) = (q, d')" by fastforce
  have "w_db w' = d'"
    using assms q by (cases dec; cases q; simp add: insert_opp_def bindE_def mapErr_def on_db_def okE_def) auto
  then show ?thesis using db_step.step_opportunity [OF q] by simp
qed

lemma ask_ws_frame:
  assumes "ask_ws f w = (r, w')"
  shows "w_db w' = w_db w \<and> w_posted w' = w_posted w"
proof -
  have "keeps w_db (ask_ws f)" "keeps w_posted (ask_ws f)" unfolding ask_ws_def by (intro keeps_intros)+
  then show ?thesis using assms keepsD by metis
qed

definition priced :: "gas_estimate \<Rightarrow> f64 \<Rightarrow> arbitrage_opportunity \<Rightarrow> arbitrage_opportunity" where
  "priced gas price opp = opp\<lparr>opp_gas_estimate_usd := gas_cost_usd_of (recommended_total_gwei gas) price\<rparr>"

lemma handle_opportunity_cases:
  assumes "handle_opportunity chk L K E N cfg gas price opp w = Some (r, w')"
  obtains (early) e where "r = Inl e" "db_after_trade L E (w_db w) (w_db w')"
  | (plain) "insert_opp L E (priced gas price opp) (evaluate (priced gas price opp) gas price (min_profit_usd cfg)) None w = (r, w')"
  | (executed) ex b w1 x w2 where "sc_executor cfg = Some ex" "w_db w1 = w_db w"
      "is_go (evaluate (priced gas price opp) gas price (min_profit_usd cfg))"
      "execute chk L K E N ex (priced gas price opp) 1 b w1 = Some (x, w2)"
      "insert_opp L E (priced gas price opp) (evaluate (priced gas price opp) gas price (min_profit_usd cfg))
         (case x of Inl _ \<Rightarrow> None | Inr i \<Rightarrow> Some i) w2 = (r, w')"
proof (cases "is_go (evaluate (priced gas price opp) gas price (min_profit_usd cfg))")
  case False
  then show thesis using assms plain by (simp add: handle_opportunity_def priced_def Let_def)
next
  case go: True
  show thesis
  proof (cases "sc_executor cfg")
    case None
    then show thesis using assms plain go by (simp add: handle_opportunity_def priced_def Let_def)
  next
    case (Some ex)
    obtain q w1 where q: "ask_ws (get_block_number N) w = (q, w1)" by fastforce
    have db: "w_db w1 = w_db w" using ask_ws_frame [OF q] by simp
    show thesis
    proof (cases q)
      case (Inl e)
      then show thesis
        using assms go Some q db early by (auto simp: handle_opportunity_def priced_def Let_def db_after_trade_def)
    next
      case (Inr b)
      then obtain x w2 where x: "execute chk L K E N ex (priced gas price opp) 1 b w1 = Some (x, w2)"
        using assms go Some q by (auto simp: handle_opportunity_def priced_def Let_def split: option.splits)
      show thesis
      proof (cases "x = Inl Panic")
        case True
        then show thesis
          using assms go Some q Inr x early execute_db [OF x] db
          by (auto simp: handle_opportunity_def priced_def Let_def)
      next
        case False
        then have "insert_opp L E (priced gas price opp) (evaluate (priced gas price opp) gas price (min_profit_usd cfg))
            (case x of Inl _ \<Rightarrow> None | Inr i \<Rightarrow> Some i) w2 = (r, w')"
          using assms go Some q Inr x
          by (cases x) (auto simp: handle_opportunity_def priced_def Let_def split: fail.splits)
        then show thesis using executed [OF Some db go x] by blast
      qed
    qed
  qed
qed

lemma handle_opportunity_steps:
  assumes "handle_opportunity chk L K E N cfg gas price opp w = Some (r, w')"
  shows "(db_step L E)\<^sup>*\<^sup>* (w_db w) (w_db w')"
  using assms
proof (cases rule: handle_opportunity_cases)
  case (early e)
  then show ?thesis by (simp add: db_after_trade_steps)
next
  case plain
  then show ?thesis using insert_opp_step by blast
next
  case (executed ex b w1 x w2)
  have "(db_step L E)\<^sup>*\<^sup>* (w_db w) (w_db w2)"
    using db_after_trade_steps [OF execute_db [OF executed(4)]] executed(2) by simp
  then show ?thesis using insert_opp_step [OF executed(5)] by simp
qed

section \<open>Invariants of the task\<close>

lemma keeps_refresh_price: "keeps w_db (refresh_price S wk v)"
  unfolding refresh_price_def fetch_eth_price_usd_def ask_ws_def by (intro keeps_intros)

text \<open>
  What a property of the database needs to hold through the whole task: it survives a recorded trade
  and a recorded opportunity whose decision is the one \<open>evaluate\<close> takes. The rest is proved once.
\<close>

locale scan_invariant =
  fixes L :: alloy and E :: sqlite and m :: f64 and I :: "database \<Rightarrow> bool"
  assumes after_trade: "I d \<Longrightarrow> db_after_trade L E d d' \<Longrightarrow> I d'"
    and after_opp: "I (w_db w) \<Longrightarrow> insert_opp L E (priced gas price opp)
      (evaluate (priced gas price opp) gas price m) tid w = (r, w') \<Longrightarrow> I (w_db w')"
begin

lemma handle_opportunity_inv:
  assumes "handle_opportunity chk L K E N cfg gas price opp w = Some (r, w')" "min_profit_usd cfg = m" "I (w_db w)"
  shows "I (w_db w')"
  using assms(1)
proof (cases rule: handle_opportunity_cases)
  case (early e)
  then show ?thesis using after_trade assms(3) by blast
next
  case plain
  then show ?thesis using after_opp assms(2,3) by blast
next
  case (executed ex b w1 x w2)
  have "I (w_db w2)" using after_trade [OF _ execute_db [OF executed(4)]] executed(2) assms(3) by simp
  then show ?thesis using after_opp executed(5) assms(2) by blast
qed

lemma handle_all_inv:
  assumes "handle_all chk L K E N cfg gas price opps w = Some (r, w')" "min_profit_usd cfg = m" "I (w_db w)"
  shows "I (w_db w')"
  using assms
proof (induction opps arbitrary: w)
  case (Cons opp opps)
  then obtain q w1 where q: "handle_opportunity chk L K E N cfg gas price opp w = Some (q, w1)"
    by (auto split: option.splits)
  have "I (w_db w1)" using handle_opportunity_inv [OF q] Cons.prems by blast
  then show ?case using Cons q by (cases q) auto
qed simp

lemma scan_once_inv:
  assumes "scan_once chk L K E N S cfg wk v w = Some (r, w')" "min_profit_usd cfg = m"
    "I (wk_others wk (w_db w))"
  shows "I (w_db w')"
proof -
  let ?w0 = "w\<lparr>w_db := wk_others wk (w_db w)\<rparr>"
  obtain q w1 where q: "refresh_price S wk v ?w0 = (q, w1)" by fastforce
  have "w_db w1 = w_db ?w0" using keepsD [OF keeps_refresh_price q] .
  then have I1: "I (w_db w1)" using assms(3) by simp
  show ?thesis
  proof (cases q)
    case (Inl e)
    then have "w' = w1" using assms(1) q by (simp add: scan_once_def)
    then show ?thesis using I1 by simp
  next
    case (Inr v')
    let ?work = "bindO (get_current_gas_estimate (wk_oracle wk)) (\<lambda>gas.
      bindO (scan_pairs L (wk_store wk) (pool_pairs cfg) (eth_price v')) (\<lambda>opps. Ret (gas, opps)))"
    show ?thesis
    proof (cases ?work)
      case Panicked
      then have "w' = w1" using assms(1) q Inr by (simp add: scan_once_def)
      then show ?thesis using I1 by simp
    next
      case (Ret go)
      obtain gas opps where "go = (gas, opps)" by fastforce
      then obtain h where "handle_all chk L K E N cfg gas (eth_price v') opps w1 = Some (h, w')"
        using assms(1) q Inr Ret by (auto simp: scan_once_def)
      then show ?thesis using handle_all_inv assms(2) I1 by blast
    qed
  qed
qed

lemma scan_loop_inv:
  assumes "scan_loop chk L K E N S cfg wks v w = Some (r, w')" "min_profit_usd cfg = m" "I (w_db w)"
    "\<And>wk d. wk \<in> set wks \<Longrightarrow> I d \<Longrightarrow> I (wk_others wk d)"
  shows "I (w_db w')"
  using assms
proof (induction wks arbitrary: v w)
  case (Cons wk wks)
  then obtain q w1 where q: "scan_once chk L K E N S cfg wk v w = Some (q, w1)"
    by (auto split: option.splits)
  have "I (w_db w1)" using scan_once_inv [OF q] Cons.prems by simp
  then show ?case using Cons q by (cases q) auto
qed simp

lemma run_scanner_inv:
  assumes "run_scanner chk L K E N S cfg start wks w = Some (r, w')" "min_profit_usd cfg = m" "I (w_db w)"
    "\<And>wk d. wk \<in> set wks \<Longrightarrow> I d \<Longrightarrow> I (wk_others wk d)"
  shows "I (w_db w')"
  using assms scan_loop_inv
  by (auto simp: run_scanner_def ws_provider_def errE_def okE_def split: sum.splits)

end

interpretation reach: scan_invariant L E m "db_reachable L E" for L E m
proof unfold_locales
  show "db_reachable L E d'" if "db_reachable L E d" "db_after_trade L E d d'" for d d'
    using that db_after_trade_steps unfolding db_reachable_def by (meson rtranclp_trans)
  show "db_reachable L E (w_db w')" if "db_reachable L E (w_db w)"
    "insert_opp L E (priced gas price opp) (evaluate (priced gas price opp) gas price m) tid w = (r, w')"
    for w gas price opp tid r w'
    using that insert_opp_step unfolding db_reachable_def by (meson rtranclp.rtrancl_into_rtrancl)
qed

text \<open>Every recorded opportunity carries the decision a backtest at the same threshold takes.\<close>

definition rows_agree :: "f64 \<Rightarrow> database \<Rightarrow> bool" where
  "rows_agree m d \<longleftrightarrow> (\<forall>r \<in> set (opportunities d). row_matches m (record_of_opportunity r))"

lemma row_for_matches:
  assumes "row_for (priced gas price opp) (evaluate (priced gas price opp) gas price m) tid row"
  shows "row_matches m (record_of_opportunity row)"
proof -
  let ?e = "opp_estimated_profit_usd opp" and ?g = "gas_cost_usd_of (recommended_total_gwei gas) price"
  have row: "o_estimated_profit row = zero_unsigned ?e" "o_gas_estimate_usd row = zero_unsigned ?g"
    using assms by (simp_all add: row_for_def bind_real_Some priced_def)
  have "is_go (evaluate (priced gas price opp) gas price m) = f64_gt (f64_sub ?e ?g) m"
    by (simp add: evaluate_def priced_def Let_def)
  then show ?thesis
    using assms
    by (simp add: row_matches_def recompute_def record_of_opportunity_def row row_for_def f64_lt_sub_unsigned Let_def)
qed

interpretation agree: scan_invariant L E m "rows_agree m" for L E m
proof unfold_locales
  show "rows_agree m d'" if "rows_agree m d" "db_after_trade L E d d'" for d d'
    using that db_after_trade_opportunities by (simp add: rows_agree_def)
  show "rows_agree m (w_db w')" if "rows_agree m (w_db w)"
    "insert_opp L E (priced gas price opp) (evaluate (priced gas price opp) gas price m) tid w = (r, w')"
    for w gas price opp tid r w'
    using that(2)
  proof (cases rule: insert_opp_cases)
    case (ok row)
    then show ?thesis using that(1) row_for_matches [OF ok(2)] by (simp add: rows_agree_def add_opportunity_def)
  qed (use that(1) in \<open>simp add: rows_agree_def\<close>)
qed

section \<open>Properties\<close>

text \<open>
  C3: every opportunity the scanner finds in a store of pools with \<open>uint112\<close> reserves is real: its two
  pools are a configured pair (in one of the two orders) and in the store, it trades WETH for USDC or
  DAI and back, one ether sent through both pools at their reserves comes back as more than one ether,
  and the prices differ by more than both fees.
\<close>

theorem scan_pairs_profitable:
  assumes "scan_pairs L st pairs price = Ret opps" "opp \<in> set opps" "uint112_store st"
  shows "\<exists>a b pa pb xa ya xb yb. ((a, b) \<in> set pairs \<or> (b, a) \<in> set pairs) \<and>
     store_get st a = Some pa \<and> store_get st b = Some pb \<and>
     opp_pool_a opp = pool_address pa \<and> opp_pool_b opp = pool_address pb \<and>
     opp_token_in opp = WETH \<and> opp_token_out opp \<in> {USDC, DAI} \<and>
     reserves_for_swap pa WETH (opp_token_out opp) = Some (xa, ya) \<and>
     reserves_for_swap pb (opp_token_out opp) WETH = Some (xb, yb) \<and>
     10 ^ 18 < swap_out (swap_out (10 ^ 18) (unat xa) (unat ya)) (unat xb) (unat yb) \<and>
     1000 * 1000 * (unat xa * unat xb) < 997 * 997 * (unat ya * unat yb)"
proof -
  obtain a b where ab: "(a, b) \<in> set pairs" "scan_pair L st price (a, b) = Ret (Some opp)"
    using scan_pairs_elem [OF assms(1,2)] by auto
  obtain pa pb t where p: "store_get st a = Some pa" "store_get st b = Some pb"
    "stable_token_out (token0 pa) (token1 pa) (token0 pb) (token1 pb) = Some t"
    "best_direction L pa pb t price opp \<or> best_direction L pb pa t price opp"
    using scan_pair_Some [OF ab(2)] by blast
  have stable: "t \<in> {USDC, DAI}" using stable_token_out_Some [OF p(3)] by blast
  have real: "\<exists>xa ya xb yb. opp_pool_a opp = pool_address x \<and> opp_pool_b opp = pool_address y \<and>
      opp_token_in opp = WETH \<and> opp_token_out opp = t \<and>
      reserves_for_swap x WETH t = Some (xa, ya) \<and> reserves_for_swap y t WETH = Some (xb, yb) \<and>
      10 ^ 18 < swap_out (swap_out (10 ^ 18) (unat xa) (unat ya)) (unat xb) (unat yb) \<and>
      1000 * 1000 * (unat xa * unat xb) < 997 * 997 * (unat ya * unat yb)"
    if build: "build_opportunity L x y t one_eth price = Ret (Some opp)" and u: "uint112_pool x" "uint112_pool y" for x y
    using build
  proof (cases rule: build_opportunity_Some)
    case (1 xa ya xb yb p sa sb)
    have nz: "xa \<noteq> 0" "ya \<noteq> 0"
      using 1(3) by (auto simp: calculate_profit_def try_opt_Some_iff get_amount_out_def split: if_splits)
    have b: "unat xa < 2 ^ 112" "unat ya < 2 ^ 112" "unat xb < 2 ^ 112" "unat yb < 2 ^ 112"
      using reserves_for_swap_uint112 1(1,2) u by blast+
    note some = calculate_profit_Some [OF 1(3) route_fits [OF b nz]]
    have gain: "unat one_eth < swap_out (swap_out (unat one_eth) (unat xa) (unat ya)) (unat xb) (unat yb)"
      using some by blast
    have "1000 * 1000 * (unat xa * unat xb) < 997 * 997 * (unat ya * unat yb)"
      using round_trip_gap [OF gain] some by (simp add: unat_gt_0)
    then show ?thesis using 1(1,2,8) gain by (simp add: unat_one_eth)
  qed
  have "uint112_pool pa" "uint112_pool pb" using assms(3) p(1,2) by (auto simp: uint112_store_def)
  then show ?thesis using p(4)
  proof (elim disjE)
    assume "best_direction L pa pb t price opp"
    from real [OF this [unfolded best_direction_def, THEN conjunct1]] \<open>uint112_pool pa\<close> \<open>uint112_pool pb\<close>
    show ?thesis using ab(1) p(1,2) stable by blast
  next
    assume "best_direction L pb pa t price opp"
    from real [OF this [unfolded best_direction_def, THEN conjunct1]] \<open>uint112_pool pa\<close> \<open>uint112_pool pb\<close>
    show ?thesis using ab(1) p(1,2) stable by blast
  qed
qed

definition demo_pool :: "address \<Rightarrow> u256 \<Rightarrow> u256 \<Rightarrow> pool" where
  "demo_pool a r0 r1 = \<lparr>pool_address = a, token0 = USDC, token1 = WETH, reserve0 = r0, reserve1 = r1, block_updated = 1\<rparr>"

definition demo_store :: pool_store where
  "demo_store = upsert_pool (demo_pool 1 3000000000000 1000000000000000000000)
     (upsert_pool (demo_pool 2 3300000000000 1000000000000000000000) PoolStore_new)"

lemma demo_store_get: "store_get demo_store a =
    (if a = 1 then Some (demo_pool 1 3000000000000 1000000000000000000000)
     else if a = 2 then Some (demo_pool 2 3300000000000 1000000000000000000000) else None)"
  unfolding demo_store_def by (auto simp: store.look_put store.look_empty demo_pool_def)

lemma demo_store_uint112: "uint112_store demo_store"
  by (auto simp: uint112_store_def demo_store_get uint112_pool_def demo_pool_def split: if_splits)

lemma demo_scan: "\<exists>opp. scan_pairs alloy_ref demo_store [(1, 2)] (f64_of_int 3000) = Ret [opp]"
proof -
  have price: "wei_to_eth_f64 alloy_ref w = f64_div (f64_of_int (int (unat w))) (f64_of_int 1000000000000000000)" for w
    by (simp add: wei_to_eth_f64_def alloy_ref_def f64_parse_dec_string)
  have tok: "WETH \<noteq> USDC" "USDC \<noteq> WETH" "USDC \<noteq> 0" "WETH \<noteq> 0" by (simp_all add: WETH_def USDC_def)
  have r: "reserves_for_swap (demo_pool a r0 r1) WETH USDC = Some (r1, r0)"
    "reserves_for_swap (demo_pool a r0 r1) USDC WETH = Some (r0, r1)" for a r0 r1
    using tok by (simp_all add: reserves_for_swap_def demo_pool_def)
  have good: "\<not> f64_le (f64_mul (f64_div (f64_of_int 91128993007392119) (f64_of_int 1000000000000000000)) (f64_of_int 3000))
      (F64_Zero False)"
    by code_simp
  have "calculate_profit 1000000000000000000 1000000000000000000000 3300000000000 3000000000000 1000000000000000000000
      = Ret (Some 91128993007392119)"
    "calculate_profit 1000000000000000000 1000000000000000000000 3000000000000 3300000000000 1000000000000000000000 = Ret None"
    by (simp_all add: calculate_profit_def get_amount_out_def u256_div_def)
  then have "build_opportunity alloy_ref (demo_pool 1 3000000000000 1000000000000000000000)
       (demo_pool 2 3300000000000 1000000000000000000000) USDC 1000000000000000000 (f64_of_int 3000) = Ret None"
    "\<exists>opp. build_opportunity alloy_ref (demo_pool 2 3300000000000 1000000000000000000000)
       (demo_pool 1 3000000000000 1000000000000000000000) USDC 1000000000000000000 (f64_of_int 3000) = Ret (Some opp)"
    using good by (simp_all add: build_opportunity_def r price get_spot_price_def u256_div_def Let_def)
  moreover have "stable_token_out (token0 (demo_pool a x y)) (token1 (demo_pool a x y))
      (token0 (demo_pool b u v)) (token1 (demo_pool b u v)) = Some USDC" for a x y b u v
    using tok by (simp add: stable_token_out_def demo_pool_def)
  ultimately show ?thesis by (auto simp: scan_pair_def demo_store_get)
qed

theorem scan_pairs_profitable_witness:
  "\<exists>opp a b pa pb xa ya xb yb. scan_pairs alloy_ref demo_store [(1, 2)] (f64_of_int 3000) = Ret [opp] \<and>
     ((a, b) \<in> set [(1, 2)] \<or> (b, a) \<in> set [(1, 2)]) \<and>
     store_get demo_store a = Some pa \<and> store_get demo_store b = Some pb \<and>
     opp_pool_a opp = pool_address pa \<and> opp_pool_b opp = pool_address pb \<and>
     10 ^ 18 < swap_out (swap_out (10 ^ 18) (unat xa) (unat ya)) (unat xb) (unat yb) \<and>
     1000 * 1000 * (unat (xa :: u256) * unat (xb :: u256)) < 997 * 997 * (unat (ya :: u256) * unat (yb :: u256))"
proof -
  obtain opp where s: "scan_pairs alloy_ref demo_store [(1, 2)] (f64_of_int 3000) = Ret [opp]" using demo_scan by blast
  have "opp \<in> set [opp]" by simp
  from scan_pairs_profitable [OF s this demo_store_uint112] s show ?thesis by blast
qed



lemma spread_bps_less: "p < q \<Longrightarrow> spread_bps L q p = spread_bps L p q"
proof -
  assume lt: "p < q"
  then have "\<not> q < p" by (rule less_not_sym)
  then show ?thesis using lt unfolding spread_bps_def Let_def by (simp only: if_True if_False)
qed

lemma spread_bps_commute: "spread_bps L p q = spread_bps L q p"
  by (cases p q rule: linorder_cases) (use spread_bps_less in metis)+

text \<open>
  The spread of two prices is their difference in basis points of the smaller one, rounded down and
  capped at the largest \<open>i64\<close>, whenever the scaled difference fits 256 bits; it does not depend on the
  order of the prices and is never negative.
\<close>

theorem spread_bps_exact:
  assumes "u256_text_ok L" "p \<noteq> 0" "q \<noteq> 0" "(max (unat p) (unat q) - min (unat p) (unat q)) * 10000 < 2 ^ 256"
  shows "spread_bps L p q =
      min i64_max (int ((max (unat p) (unat q) - min (unat p) (unat q)) * 10000 div min (unat p) (unat q))) \<and>
    spread_bps L q p = spread_bps L p q \<and> 0 \<le> spread_bps L p q"
proof -
  define d where "d = (if p > q then p - q else q - p)"
  define m where "m = (if p < q then p else q)"
  define n where "n = (max (unat p) (unat q) - min (unat p) (unat q)) * 10000 div min (unat p) (unat q)"
  have ud: "unat d = max (unat p) (unat q) - min (unat p) (unat q)"
    by (auto simp: d_def unat_sub word_less_nat_alt not_less word_le_nat_alt max_def min_def)
  have um: "unat m = min (unat p) (unat q)" by (auto simp: m_def word_less_nat_alt min_def)
  have "unat (d * 10000) = unat d * 10000"
    using assms(4) ud unat_mult_fits [of d 10000] by simp
  then have ub: "unat (d * 10000 div m) = n"
    by (simp only: unat_div_distrib ud um n_def)
  have "m \<noteq> 0" using assms(2,3) by (simp add: m_def)
  then have "spread_bps L p q = (case parse_i64 (u256_to_string L (d * 10000 div m)) of None \<Rightarrow> i64_max | Some v \<Rightarrow> v)"
    unfolding spread_bps_def Let_def d_def [symmetric] m_def [symmetric] by (simp only: if_False)
  also have "u256_to_string L (d * 10000 div m) = dec_string n"
    using assms(1) by (simp only: u256_text_ok_def ub)
  also have "(case parse_i64 (dec_string n) of None \<Rightarrow> i64_max | Some v \<Rightarrow> v) = min i64_max (int n)"
    by (simp add: parse_i64_dec_string)
  finally have eq: "spread_bps L p q = min i64_max (int n)" .
  moreover have "0 \<le> min i64_max (int n)" by (simp add: i64_max_def)
  ultimately show ?thesis
    using spread_bps_commute [of L q p] unfolding n_def [symmetric] by (simp only: simp_thms)
qed

theorem spread_bps_exact_witness:
  "spread_bps alloy_ref 3000 3300 =
      min i64_max (int ((max (unat (3000 :: u256)) (unat (3300 :: u256)) - min (unat (3000 :: u256)) (unat (3300 :: u256)))
        * 10000 div min (unat (3000 :: u256)) (unat (3300 :: u256)))) \<and>
    spread_bps alloy_ref 3300 3000 = spread_bps alloy_ref 3000 3300 \<and> 0 \<le> spread_bps alloy_ref 3000 3300"
  by (rule spread_bps_exact) simp_all

text \<open>
  C11: an opportunity that is handled without an error is recorded in exactly one new row, with the
  decision the net profit implies. A no-go executes nothing: no trade and no request to the relay. A
  trade the row refers to is the one this execution has just added.
\<close>

theorem handle_opportunity_records:
  assumes "handle_opportunity chk L K E N cfg gas price opp w = Some (Inr (), w')"
  shows "\<exists>row. opportunities (w_db w') = opportunities (w_db w) @ [row] \<and>
     o_decision row = (if f64_gt (f64_sub (opp_estimated_profit_usd opp)
         (gas_cost_usd_of (recommended_total_gwei gas) price)) (min_profit_usd cfg) then ''go'' else ''no-go'') \<and>
     (o_decision row = ''no-go'' \<longrightarrow>
        trades (w_db w') = trades (w_db w) \<and> w_posted w' = w_posted w \<and> o_trade_id row = None) \<and>
     (\<forall>i. o_trade_id row = Some i \<longrightarrow> (\<exists>t. trades (w_db w') = trades (w_db w) @ [t] \<and> t_id t = i))"
proof -
  let ?opp = "priced gas price opp"
  let ?dec = "evaluate ?opp gas price (min_profit_usd cfg)"
  have go: "is_go ?dec = f64_gt (f64_sub (opp_estimated_profit_usd opp)
      (gas_cost_usd_of (recommended_total_gwei gas) price)) (min_profit_usd cfg)"
    by (simp add: evaluate_def priced_def Let_def)
  from assms show ?thesis
  proof (cases rule: handle_opportunity_cases)
    case plain
    then show ?thesis
    proof (cases rule: insert_opp_cases)
      case (ok row)
      then show ?thesis using go by (intro exI [of _ row]) (simp add: row_for_def add_opportunity_def)
    qed simp
  next
    case (executed ex b w1 x w2)
    have tr: "\<exists>t. trades (w_db w2) = trades (w_db w) @ [t] \<and> t_id t = i" if "x = Inr i" for i
      using execute_adds [OF executed(4)] that executed(2) by (auto simp: adds_trade_def)
    have opps: "opportunities (w_db w2) = opportunities (w_db w)"
      using db_after_trade_opportunities [OF execute_db [OF executed(4)]] executed(2) by simp
    from executed(5) show ?thesis
    proof (cases rule: insert_opp_cases)
      case (ok row)
      then show ?thesis
        using go executed(3) opps tr
        by (intro exI [of _ row]) (auto simp: row_for_def add_opportunity_def split: sum.splits)
    qed simp
  qed simp
qed

definition gas_ref :: gas_estimate where
  "gas_ref = \<lparr>base_fee_gwei = f64_of_int 10, priority_fee_gwei = f64_of_int 1, recommended_total_gwei = f64_of_int 11\<rparr>"

definition scanner_ref :: scanner_config where
  "scanner_ref = \<lparr>pool_pairs = [(1, 2)], min_profit_usd = f64_of_int 5, sc_executor = Some (executor_ref True)\<rparr>"

definition rich_opp :: arbitrage_opportunity where
  "rich_opp = opp_ref\<lparr>opp_estimated_profit_usd := f64_of_int 100\<rparr>"

lemma rich_opp_go:
  "\<exists>n g. evaluate (priced gas_ref (f64_of_int 3000) rich_opp) gas_ref (f64_of_int 3000) (f64_of_int 5) = Go n g"
  "\<exists>g. bind_real (gas_cost_usd_of (f64_of_int 11) (f64_of_int 3000)) = Some g"
  "\<exists>e. bind_real (f64_of_int 100) = Some e"
proof -
  have "f64_gt (f64_sub (f64_of_int 100) (gas_cost_usd_of (f64_of_int 11) (f64_of_int 3000))) (f64_of_int 5)"
    by code_simp
  then show "\<exists>n g. evaluate (priced gas_ref (f64_of_int 3000) rich_opp) gas_ref (f64_of_int 3000) (f64_of_int 5) = Go n g"
    by (simp add: evaluate_def priced_def rich_opp_def gas_ref_def opp_ref_def Let_def)
  have "bind_real (gas_cost_usd_of (f64_of_int 11) (f64_of_int 3000)) \<noteq> None" "bind_real (f64_of_int 100) \<noteq> None"
    by code_simp+
  then show "\<exists>g. bind_real (gas_cost_usd_of (f64_of_int 11) (f64_of_int 3000)) = Some g"
    "\<exists>e. bind_real (f64_of_int 100) = Some e" by blast+
qed

lemma rich_opp_handled:
  "\<exists>w'. handle_opportunity True alloy_ref eth_ref sqlite_ref node_ref (scanner_ref\<lparr>sc_executor := None\<rparr>) gas_ref
     (f64_of_int 3000) rich_opp world_ref = Some (Inr (), w')"
proof -
  obtain n g where go: "evaluate (priced gas_ref (f64_of_int 3000) rich_opp) gas_ref (f64_of_int 3000) (f64_of_int 5) = Go n g"
    using rich_opp_go(1) by blast
  obtain gc e where "bind_real (gas_cost_usd_of (f64_of_int 11) (f64_of_int 3000)) = Some gc" "bind_real (f64_of_int 100) = Some e"
    using rich_opp_go(2,3) by blast
  then have "\<exists>i d'. insert_opportunity alloy_ref sqlite_ref (priced gas_ref (f64_of_int 3000) rich_opp) ''go'' None None
      migrated_database = (Inr i, d')"
    by (simp add: insert_opportunity_def db_guard_defs migrated_database_def i64_max_def Let_def priced_def
        rich_opp_def gas_ref_def)
  then show ?thesis
    using go
    by (auto simp: handle_opportunity_def Let_def priced_def [symmetric] scanner_ref_def insert_opp_def bindE_def
        mapErr_def on_db_def okE_def world_ref_def)
qed

theorem handle_opportunity_records_witness:
  "\<exists>w' row. handle_opportunity True alloy_ref eth_ref sqlite_ref node_ref (scanner_ref\<lparr>sc_executor := None\<rparr>) gas_ref
       (f64_of_int 3000) rich_opp world_ref = Some (Inr (), w') \<and>
     opportunities (w_db w') = opportunities (w_db world_ref) @ [row] \<and>
     o_decision row = (if f64_gt (f64_sub (opp_estimated_profit_usd rich_opp)
         (gas_cost_usd_of (recommended_total_gwei gas_ref) (f64_of_int 3000)))
         (min_profit_usd (scanner_ref\<lparr>sc_executor := None\<rparr>)) then ''go'' else ''no-go'')"
proof -
  obtain w' where w': "handle_opportunity True alloy_ref eth_ref sqlite_ref node_ref (scanner_ref\<lparr>sc_executor := None\<rparr>)
      gas_ref (f64_of_int 3000) rich_opp world_ref = Some (Inr (), w')" using rich_opp_handled by blast
  show ?thesis using handle_opportunity_records [OF w'] w' by blast
qed

text \<open>
  The ether price a scan works with is never older than 30 seconds: it was fetched less than 30
  seconds before the wake-up, or just now from the feed.
\<close>

theorem refresh_price_fresh:
  assumes "refresh_price S wk v w = (Inr v', w')" "wk_now wk \<le> wk_fetched wk"
  shows "wk_now wk - last_price_fetch v' < int (duration_secs 30) \<and>
    (if wk_now wk - last_price_fetch v < int (duration_secs 30) then v' = v \<and> w' = w
     else last_price_fetch v' = wk_fetched wk \<and> fetch_eth_price_usd S w = (Inr (eth_price v'), w'))"
  using assms
  by (auto simp: refresh_price_def bindE_Inr_iff duration_secs_def split: if_splits)

definition feed_ref :: price_feed where
  "feed_ref = \<lparr>feed_connect = Inr (), feed_decimals = (\<lambda>n. Inr 8), feed_answer = (\<lambda>n. Inr 300000000000),
     i256_to_string = (\<lambda>i. dec_string (nat i)), powi10 = (\<lambda>n. f64_of_int (10 ^ n))\<rparr>"

definition wakeup_ref :: wakeup where
  "wakeup_ref = \<lparr>wk_now = 0, wk_fetched = 5, wk_store = demo_store, wk_oracle = GasOracle_new, wk_others = (\<lambda>d. d)\<rparr>"

definition vars_ref :: scan_vars where
  "vars_ref = \<lparr>eth_price = F64_Zero False, last_price_fetch = - int (duration_secs 60)\<rparr>"

theorem refresh_price_fresh_witness:
  "\<exists>v' w'. refresh_price feed_ref wakeup_ref vars_ref world_ref = (Inr v', w') \<and>
    wk_now wakeup_ref - last_price_fetch v' < int (duration_secs 30) \<and>
    last_price_fetch v' = wk_fetched wakeup_ref \<and> fetch_eth_price_usd feed_ref world_ref = (Inr (eth_price v'), w')"
proof -
  have "\<exists>v' w'. refresh_price feed_ref wakeup_ref vars_ref world_ref = (Inr v', w')"
    by (simp add: refresh_price_def fetch_eth_price_usd_def ask_ws_def ask_def bindE_def okE_def feed_ref_def
        wakeup_ref_def vars_ref_def duration_secs_def Let_def)
  then obtain v' w' where r: "refresh_price feed_ref wakeup_ref vars_ref world_ref = (Inr v', w')" by blast
  have "wk_now wakeup_ref \<le> wk_fetched wakeup_ref" by (simp add: wakeup_ref_def)
  from refresh_price_fresh [OF r this] r show ?thesis
    by (simp add: wakeup_ref_def vars_ref_def duration_secs_def)
qed

section \<open>Runs in paper mode\<close>

definition paper_config :: "scanner_config \<Rightarrow> bool" where
  "paper_config cfg \<longleftrightarrow> (case sc_executor cfg of None \<Rightarrow> True | Some ex \<Rightarrow> ex_paper_trade ex)"

lemma handle_opportunity_paper:
  assumes "paper_config cfg"
  shows "handle_opportunity chk L K E N cfg gas price opp w \<noteq> None"
proof (cases "sc_executor cfg")
  case (Some ex)
  then have "\<exists>r w'. execute chk L K E N ex opp mp b w = Some (r, w')" for opp mp b w
    using assms by (intro paper_execute_total) (simp add: paper_config_def)
  then have ex: "execute chk L K E N ex opp mp b w \<noteq> None" for opp mp b w by (metis option.simps(3))
  show ?thesis
  proof
    assume "handle_opportunity chk L K E N cfg gas price opp w = None"
    then obtain opp' b w1 where "execute chk L K E N ex opp' 1 b w1 = None"
      by (auto simp: handle_opportunity_def Some Let_def
          split: if_splits prod.splits sum.splits option.splits fail.splits)
    then show False using ex by blast
  qed
qed (simp add: handle_opportunity_def Let_def)

lemma handle_all_paper: "paper_config cfg \<Longrightarrow> handle_all chk L K E N cfg gas price opps w \<noteq> None"
proof (induction opps arbitrary: w)
  case (Cons opp opps)
  then show ?case
    using handle_opportunity_paper [OF Cons.prems, of chk L K E N gas price opp w]
    by (auto split: option.splits sum.splits)
qed simp

lemma scan_once_paper: "paper_config cfg \<Longrightarrow> scan_once chk L K E N S cfg wk v w \<noteq> None"
proof
  assume "paper_config cfg" "scan_once chk L K E N S cfg wk v w = None"
  then obtain gas price opps w1 where "handle_all chk L K E N cfg gas price opps w1 = None"
    by (auto simp: scan_once_def split: prod.splits sum.splits outcome.splits)
  then show False using handle_all_paper [OF \<open>paper_config cfg\<close>] by blast
qed

lemma scan_loop_paper: "paper_config cfg \<Longrightarrow> scan_loop chk L K E N S cfg wks v w \<noteq> None"
proof (induction wks arbitrary: v w)
  case (Cons wk wks)
  then show ?case
    using scan_once_paper [OF Cons.prems, of chk L K E N S wk v w] by (auto split: option.splits sum.splits)
qed simp

lemma run_scanner_paper:
  assumes "paper_config cfg"
  shows "\<exists>r w'. run_scanner chk L K E N S cfg start wks w = Some (r, w')"
proof -
  have "run_scanner chk L K E N S cfg start wks w \<noteq> None"
    using scan_loop_paper [OF assms] by (simp add: run_scanner_def split: prod.splits sum.splits)
  then show ?thesis by auto
qed

end
