(* ===== verification/Arb_Contract.thy ===== *)
theory Arb_Contract
  imports Scanner
begin

text \<open>
  The on-chain half, \<^verbatim>\<open>contracts/ZelvexArb.sol\<close>: every function of the contract, as a call on the state
  \<open>'c\<close> of the chain that either reverts, and then changes nothing, or returns. The other contracts
  (Aave pool and its provider, Uniswap pairs, ERC-20 tokens) are the argument \<open>V\<close>; what is relied on of
  them are the named predicates below. ABI coding of the parameters is written out.
\<close>

section \<open>Calls\<close>

datatype revert = Revert string | SolPanic | ExternalRevert | AbiError

type_synonym ('c, 'a) call = "'c \<Rightarrow> revert + 'a \<times> 'c"

definition returnC :: "'a \<Rightarrow> ('c, 'a) call" where
  "returnC a c = Inr (a, c)"

definition bindC :: "('c, 'a) call \<Rightarrow> ('a \<Rightarrow> ('c, 'b) call) \<Rightarrow> ('c, 'b) call" where
  "bindC m f c = (case m c of Inl e \<Rightarrow> Inl e | Inr (a, c') \<Rightarrow> f a c')"

definition require :: "bool \<Rightarrow> string \<Rightarrow> ('c, unit) call" where
  "require ok msg c = (if ok then Inr ((), c) else Inl (Revert msg))"

definition checkedC :: "revert \<Rightarrow> 'a option \<Rightarrow> ('c, 'a) call" where
  "checkedC e v c = (case v of None \<Rightarrow> Inl e | Some a \<Rightarrow> Inr (a, c))"

definition viewC :: "('c \<Rightarrow> 'a option) \<Rightarrow> ('c, 'a) call" where
  "viewC f c = checkedC ExternalRevert (f c) c"

definition externalC :: "('c \<Rightarrow> ('a \<times> 'c) option) \<Rightarrow> ('c, 'a) call" where
  "externalC f c = (case f c of None \<Rightarrow> Inl ExternalRevert | Some r \<Rightarrow> Inr r)"

type_synonym 'c callback = "address \<Rightarrow> address \<Rightarrow> u256 \<Rightarrow> u256 \<Rightarrow> address \<Rightarrow> bytes \<Rightarrow> ('c, bool) call"

text \<open>
  The other contracts, each function with the address called, then the sender where it matters. What the
  contract always passes (referral code 0, no swap data) is left out; \<^verbatim>\<open>allowance\<close> is the ERC-20 view that
  the laws below speak of.
\<close>

record 'c evm =
  getPool :: "address \<Rightarrow> 'c \<Rightarrow> address option"
  flashLoanSimple :: "address \<Rightarrow> address \<Rightarrow> address \<Rightarrow> address \<Rightarrow> u256 \<Rightarrow> bytes \<Rightarrow> 'c callback \<Rightarrow> 'c \<Rightarrow> (unit \<times> 'c) option"
  token0_of :: "address \<Rightarrow> 'c \<Rightarrow> address option"
  token1_of :: "address \<Rightarrow> 'c \<Rightarrow> address option"
  getReserves :: "address \<Rightarrow> 'c \<Rightarrow> (112 word \<times> 112 word) option"
  swap_call :: "address \<Rightarrow> u256 \<Rightarrow> u256 \<Rightarrow> address \<Rightarrow> 'c \<Rightarrow> (unit \<times> 'c) option"
  transfer_call :: "address \<Rightarrow> address \<Rightarrow> address \<Rightarrow> u256 \<Rightarrow> 'c \<Rightarrow> (bool \<times> 'c) option"
  approve_call :: "address \<Rightarrow> address \<Rightarrow> address \<Rightarrow> u256 \<Rightarrow> 'c \<Rightarrow> (bool \<times> 'c) option"
  balanceOf :: "address \<Rightarrow> address \<Rightarrow> 'c \<Rightarrow> u256 option"
  allowance :: "address \<Rightarrow> address \<Rightarrow> address \<Rightarrow> 'c \<Rightarrow> u256 option"
  eth_balance :: "address \<Rightarrow> 'c \<Rightarrow> u256"
  send_eth :: "address \<Rightarrow> address \<Rightarrow> u256 \<Rightarrow> 'c \<Rightarrow> (unit \<times> 'c) option"

section \<open>ABI coding of the parameters\<close>

text \<open>
  A static tuple: six words of 32 bytes. Decoding needs at least these and refuses an address with
  non-zero upper bytes.
\<close>

definition abi_word :: "nat \<Rightarrow> bytes" where
  "abi_word n = be_bytes 32 n"

definition abi_encode :: "arb_params \<Rightarrow> bytes" where
  "abi_encode p = abi_word (unat (tokenIn p)) @ abi_word (unat (tokenOut p)) @ abi_word (unat (poolA p))
     @ abi_word (unat (poolB p)) @ abi_word (unat (amountIn p)) @ abi_word (unat (minProfit p))"

definition word_at :: "bytes \<Rightarrow> nat \<Rightarrow> nat" where
  "word_at bs i = be_value (take 32 (drop (32 * i) bs))"

definition address_at :: "bytes \<Rightarrow> nat \<Rightarrow> address option" where
  "address_at bs i = (if word_at bs i < 2 ^ 160 then Some (word_of_nat (word_at bs i)) else None)"

definition abi_decode :: "bytes \<Rightarrow> arb_params option" where
  "abi_decode bs =
     (if length bs < 192 then None
      else do {
        t_in \<leftarrow> address_at bs 0;
        t_out \<leftarrow> address_at bs 1;
        a \<leftarrow> address_at bs 2;
        b \<leftarrow> address_at bs 3;
        Some \<lparr>tokenIn = t_in, tokenOut = t_out, poolA = a, poolB = b,
              amountIn = word_of_nat (word_at bs 4), minProfit = word_of_nat (word_at bs 5)\<rparr>
      })"

section \<open>The contract\<close>

record arb_contract =
  ac_this :: address
  ac_owner :: address
  ac_aavePool :: address

definition deploy :: "'c evm \<Rightarrow> address \<Rightarrow> address \<Rightarrow> address \<Rightarrow> ('c, arb_contract) call" where
  "deploy V msg_sender this aaveProvider =
     bindC (viewC (getPool V aaveProvider)) (\<lambda>pool.
       returnC \<lparr>ac_this = this, ac_owner = msg_sender, ac_aavePool = pool\<rparr>)"

definition onlyOwner :: "arb_contract \<Rightarrow> address \<Rightarrow> ('c, unit) call" where
  "onlyOwner C msg_sender = require (msg_sender = ac_owner C) ''Not owner''"

definition validatePool :: "'c evm \<Rightarrow> address \<Rightarrow> address \<Rightarrow> address \<Rightarrow> ('c, unit) call" where
  "validatePool V pair tokenA tokenB =
     bindC (viewC (token0_of V pair)) (\<lambda>t0.
     bindC (viewC (token1_of V pair)) (\<lambda>t1.
       require (tokenA = t0 \<and> tokenB = t1 \<or> tokenA = t1 \<and> tokenB = t0) ''Pool token mismatch''))"

definition getAmountOut_call :: "u256 \<Rightarrow> u256 \<Rightarrow> u256 \<Rightarrow> ('c, u256) call" where
  "getAmountOut_call amount reserveIn reserveOut =
     bindC (require (0 < reserveIn \<and> 0 < reserveOut) ''Zero reserve'') (\<lambda>_.
       checkedC SolPanic (sol_getAmountOut amount reserveIn reserveOut))"

definition swap_on :: "'c evm \<Rightarrow> arb_contract \<Rightarrow> address \<Rightarrow> address \<Rightarrow> address \<Rightarrow> u256 \<Rightarrow> ('c, u256) call" where
  "swap_on V C pair t_in t_out amount =
     bindC (viewC (getReserves V pair)) (\<lambda>(r0, r1).
     bindC (viewC (token0_of V pair)) (\<lambda>t0.
       let (rIn, rOut) = (if t_in = t0 then (r0, r1) else (r1, r0))
       in bindC (getAmountOut_call amount (ucast rIn) (ucast rOut)) (\<lambda>amountOut.
          bindC (require (amountOut > 0) ''Zero output'') (\<lambda>_.
          bindC (externalC (transfer_call V t_in (ac_this C) pair amount)) (\<lambda>_.
            let (out0, out1) = (if t_in = t0 then (0, amountOut) else (amountOut, 0))
            in bindC (externalC (swap_call V pair out0 out1 (ac_this C))) (\<lambda>_.
               returnC amountOut))))))"

definition executeOperation :: "'c evm \<Rightarrow> arb_contract \<Rightarrow> 'c callback" where
  "executeOperation V C msg_sender asset amount premium initiator params =
     bindC (require (msg_sender = ac_aavePool C) ''Caller not Aave pool'') (\<lambda>_.
     bindC (require (initiator = ac_this C) ''Initiator not self'') (\<lambda>_.
     bindC (checkedC AbiError (abi_decode params)) (\<lambda>p.
     bindC (require (asset = tokenIn p) ''Asset mismatch'') (\<lambda>_.
     bindC (require (amount = amountIn p) ''Amount mismatch'') (\<lambda>_.
     bindC (validatePool V (poolA p) (tokenIn p) (tokenOut p)) (\<lambda>_.
     bindC (validatePool V (poolB p) (tokenOut p) (tokenIn p)) (\<lambda>_.
     bindC (swap_on V C (poolA p) (tokenIn p) (tokenOut p) amount) (\<lambda>received.
     bindC (swap_on V C (poolB p) (tokenOut p) (tokenIn p) received) (\<lambda>returned.
     bindC (checkedC SolPanic (sol_add amount premium)) (\<lambda>repayAmount.
     bindC (checkedC SolPanic (sol_add repayAmount (minProfit p))) (\<lambda>floor_amount.
     bindC (require (returned \<ge> floor_amount) ''Insufficient profit'') (\<lambda>_.
     bindC (externalC (approve_call V asset (ac_this C) (ac_aavePool C) repayAmount)) (\<lambda>_.
       returnC True)))))))))))))"

definition executeArb :: "'c evm \<Rightarrow> arb_contract \<Rightarrow> address \<Rightarrow> arb_params \<Rightarrow> ('c, unit) call" where
  "executeArb V C msg_sender p =
     bindC (onlyOwner C msg_sender) (\<lambda>_.
     bindC (require (minProfit p > 0) ''minProfit must be > 0'') (\<lambda>_.
     bindC (require (poolA p \<noteq> poolB p) ''Pools must differ'') (\<lambda>_.
     bindC (require (tokenIn p \<noteq> tokenOut p) ''Tokens must differ'') (\<lambda>_.
       externalC (flashLoanSimple V (ac_aavePool C) (ac_this C) (ac_this C) (tokenIn p) (amountIn p) (abi_encode p)
         (executeOperation V C))))))"

definition withdraw :: "'c evm \<Rightarrow> arb_contract \<Rightarrow> address \<Rightarrow> address \<Rightarrow> ('c, unit) call" where
  "withdraw V C msg_sender token =
     bindC (onlyOwner C msg_sender) (\<lambda>_.
     bindC (viewC (balanceOf V token (ac_this C))) (\<lambda>bal.
     bindC (require (bal > 0) ''Nothing to withdraw'') (\<lambda>_.
     bindC (externalC (transfer_call V token (ac_this C) (ac_owner C) bal)) (\<lambda>ok.
       require ok ''Transfer failed''))))"

definition rescueEth :: "'c evm \<Rightarrow> arb_contract \<Rightarrow> address \<Rightarrow> ('c, unit) call" where
  "rescueEth V C msg_sender =
     bindC (onlyOwner C msg_sender) (\<lambda>_ c.
       externalC (send_eth V (ac_this C) (ac_owner C) (eth_balance V (ac_this C) c)) c)"

section \<open>Calldata\<close>

text \<open>
  What is relied on of the generated \<^verbatim>\<open>executeArbCall\<close>: its calldata is the selector followed by the ABI
  encoding of the parameters, and decoding checks the selector and decodes the rest.
\<close>

definition calldata_ok :: "eth_lib \<Rightarrow> bytes \<Rightarrow> bool" where
  "calldata_ok K selector \<longleftrightarrow> length selector = 4 \<and> (\<forall>p. abi_encode_executeArb K p = selector @ abi_encode p)"

definition call_decode :: "bytes \<Rightarrow> bytes \<Rightarrow> arb_params option" where
  "call_decode selector cd = (if take 4 cd = selector then abi_decode (drop 4 cd) else None)"

text \<open>The dispatcher's case for \<^verbatim>\<open>executeArb\<close>.\<close>

definition call_executeArb :: "'c evm \<Rightarrow> arb_contract \<Rightarrow> bytes \<Rightarrow> address \<Rightarrow> bytes \<Rightarrow> ('c, unit) call" where
  "call_executeArb V C selector msg_sender cd =
     bindC (checkedC AbiError (call_decode selector cd)) (\<lambda>p. executeArb V C msg_sender p)"

section \<open>Taking calls apart\<close>

lemma bindC_Inr_iff: "bindC m f c = Inr r \<longleftrightarrow> (\<exists>a c'. m c = Inr (a, c') \<and> f a c' = Inr r)"
  by (auto simp: bindC_def split: sum.splits prod.splits)

lemma require_Inr_iff [simp]: "require ok msg c = Inr (u, c') \<longleftrightarrow> ok \<and> c' = c"
  by (auto simp: require_def)

lemma checkedC_Inr_iff [simp]: "checkedC e v c = Inr (a, c') \<longleftrightarrow> v = Some a \<and> c' = c"
  by (auto simp: checkedC_def split: option.splits)

lemma viewC_Inr_iff [simp]: "viewC f c = Inr (a, c') \<longleftrightarrow> f c = Some a \<and> c' = c"
  by (auto simp: viewC_def)

lemma externalC_Inr_iff [simp]: "externalC f c = Inr r \<longleftrightarrow> f c = Some r"
  by (auto simp: externalC_def split: option.splits)

lemma returnC_Inr_iff [simp]: "returnC a c = Inr (b, c') \<longleftrightarrow> a = b \<and> c = c'"
  by (auto simp: returnC_def)

lemma validatePool_Inr:
  "validatePool V pair a b c = Inr (u, c') \<longleftrightarrow> c' = c \<and>
     (\<exists>t0 t1. token0_of V pair c = Some t0 \<and> token1_of V pair c = Some t1 \<and> (a = t0 \<and> b = t1 \<or> a = t1 \<and> b = t0))"
  by (auto simp: validatePool_def bindC_Inr_iff)

text \<open>What a swap did: it read the reserves, paid the quoted amount's price and took the quote.\<close>

definition swap_steps ::
  "'c evm \<Rightarrow> arb_contract \<Rightarrow> address \<Rightarrow> address \<Rightarrow> u256 \<Rightarrow> u256 \<Rightarrow> 'c \<Rightarrow> 'c \<Rightarrow> bool" where
  "swap_steps V C pair t_in amount out c c' \<longleftrightarrow>
     (\<exists>r0 r1 t0 b c1. getReserves V pair c = Some (r0, r1) \<and> token0_of V pair c = Some t0 \<and>
        sol_getAmountOut amount (ucast (if t_in = t0 then r0 else r1)) (ucast (if t_in = t0 then r1 else r0)) = Some out \<and>
        0 < out \<and> transfer_call V t_in (ac_this C) pair amount c = Some (b, c1) \<and>
        swap_call V pair (if t_in = t0 then 0 else out) (if t_in = t0 then out else 0) (ac_this C) c1 = Some ((), c'))"

lemma swap_on_Inr: "swap_on V C pair t_in t_out amount c = Inr (out, c') \<longleftrightarrow> swap_steps V C pair t_in amount out c c'"
proof -
  have quote: "sol_getAmountOut a x y = Some q \<Longrightarrow> 0 < x \<and> 0 < y" for a x y q
    using sol_getAmountOut_Some by (auto simp: word_gt_0)
  show ?thesis
  proof (cases "getReserves V pair c")
    case (Some rs)
    obtain r0 r1 where rs: "rs = (r0, r1)" by fastforce
    show ?thesis
    proof (cases "token0_of V pair c")
      case t: (Some t0)
      show ?thesis
        unfolding swap_on_def swap_steps_def
        by (cases "t_in = t0")
          (auto simp: bindC_Inr_iff getAmountOut_call_def Some rs t Let_def dest: quote)
    qed (auto simp: swap_on_def swap_steps_def bindC_Inr_iff Some rs)
  qed (auto simp: swap_on_def swap_steps_def bindC_Inr_iff)
qed

lemma sol_add_Some: "sol_add a b = Some v \<longleftrightarrow> unat a + unat b < 2 ^ 256 \<and> v = a + b"
  by (auto simp: sol_add_def)

lemma sol_add_unat: "sol_add a b = Some v \<Longrightarrow> unat v = unat a + unat b"
  by (auto simp: sol_add_Some unat_add_fits)

text \<open>A callback that returns has swapped through both pools for the loan, the premium and the profit.\<close>

lemma executeOperation_Inr:
  assumes "executeOperation V C sender asset amount premium initiator params c = Inr (ok, c')"
  obtains p received returned c1 c2 b repay where
    "sender = ac_aavePool C" "initiator = ac_this C" "abi_decode params = Some p" "asset = tokenIn p" "amount = amountIn p"
    "validatePool V (poolA p) (tokenIn p) (tokenOut p) c = Inr ((), c)"
    "validatePool V (poolB p) (tokenOut p) (tokenIn p) c = Inr ((), c)"
    "swap_steps V C (poolA p) (tokenIn p) amount received c c1"
    "swap_steps V C (poolB p) (tokenOut p) received returned c1 c2"
    "unat repay = unat amount + unat premium" "unat amount + unat premium + unat (minProfit p) \<le> unat returned"
    "approve_call V asset (ac_this C) (ac_aavePool C) repay c2 = Some (b, c')" "ok"
  using assms
  by (auto simp: executeOperation_def bindC_Inr_iff swap_on_Inr validatePool_Inr word_le_nat_alt
      dest!: sol_add_unat)

section \<open>Round trip of the parameters\<close>

lemma length_abi_word [simp]: "length (abi_word n) = 32"
  by (simp add: abi_word_def)

lemma be_value_abi_word: "n < 2 ^ 256 \<Longrightarrow> be_value (abi_word n) = n"
  by (simp add: abi_word_def be_value_be_bytes)

lemma abi_roundtrip: "abi_decode (abi_encode p @ rest) = Some p"
proof -
  have small: "unat a < 2 ^ 256" "unat x < 2 ^ 256" "unat a < 2 ^ 160" for a :: "address" and x :: "u256"
    using unsigned_less [where w = a and ?'a = nat] unsigned_less [where w = x and ?'a = nat] by simp_all
  have vals: "be_value (abi_word (unat a)) = unat a" "be_value (abi_word (unat x)) = unat x" for a :: "address" and x :: "u256"
    using be_value_abi_word small(1,2) by blast+
  have words: "word_at (abi_encode p @ rest) 0 = unat (tokenIn p)" "word_at (abi_encode p @ rest) 1 = unat (tokenOut p)"
    "word_at (abi_encode p @ rest) 2 = unat (poolA p)" "word_at (abi_encode p @ rest) 3 = unat (poolB p)"
    "word_at (abi_encode p @ rest) 4 = unat (amountIn p)" "word_at (abi_encode p @ rest) 5 = unat (minProfit p)"
    by (simp_all add: word_at_def abi_encode_def vals)
  have "address_at (abi_encode p @ rest) 0 = Some (tokenIn p)" "address_at (abi_encode p @ rest) 1 = Some (tokenOut p)"
    "address_at (abi_encode p @ rest) 2 = Some (poolA p)" "address_at (abi_encode p @ rest) 3 = Some (poolB p)"
    unfolding address_at_def words using small(3) by simp_all
  moreover have "\<not> length (abi_encode p @ rest) < 192" by (simp add: abi_encode_def)
  ultimately show ?thesis by (simp add: abi_decode_def words)
qed

section \<open>What is relied on of the other contracts\<close>

definition bal :: "'c evm \<Rightarrow> address \<Rightarrow> address \<Rightarrow> 'c \<Rightarrow> nat" where
  "bal V T a c = (case balanceOf V T a c of None \<Rightarrow> 0 | Some n \<Rightarrow> unat n)"

text \<open>The pairs have the same tokens in both states: \<^verbatim>\<open>token0\<close> and \<^verbatim>\<open>token1\<close> are set once.\<close>

definition same_tokens :: "'c evm \<Rightarrow> 'c \<Rightarrow> 'c \<Rightarrow> bool" where
  "same_tokens V c c' \<longleftrightarrow> (\<forall>P. token0_of V P c' = token0_of V P c \<and> token1_of V P c' = token1_of V P c)"

text \<open>ERC-20: a transfer takes at most the stated amount of that token from its sender, an approval none.\<close>

definition erc20_ok :: "'c evm \<Rightarrow> address \<Rightarrow> address \<Rightarrow> bool" where
  "erc20_ok V T a \<longleftrightarrow>
     (\<forall>to n c b c'. transfer_call V T a to n c = Some (b, c') \<longrightarrow> same_tokens V c c' \<and>
        (\<forall>T'. bal V T' a c \<le> bal V T' a c' + (if T' = T then unat n else 0))) \<and>
     (\<forall>spender n c b c'. approve_call V T a spender n c = Some (b, c') \<longrightarrow> (\<forall>T'. bal V T' a c \<le> bal V T' a c'))"

text \<open>A pair: a swap pays the two stated amounts of its tokens to the receiver, who loses nothing.\<close>

definition pair_ok :: "'c evm \<Rightarrow> address \<Rightarrow> address \<Rightarrow> bool" where
  "pair_ok V P a \<longleftrightarrow>
     (\<forall>out0 out1 c c'. swap_call V P out0 out1 a c = Some ((), c') \<longrightarrow> same_tokens V c c' \<and>
        (\<forall>T'. bal V T' a c + (if token0_of V P c = Some T' then unat out0 else 0) \<le> bal V T' a c') \<and>
        (\<forall>T'. bal V T' a c + (if token1_of V P c = Some T' then unat out1 else 0) \<le> bal V T' a c'))"

text \<open>
  Aave: a flash loan that goes through has paid the amount, called the receiver back with the pool as
  caller and a premium, got \<open>True\<close>, and pulled no more than the amount and the premium.
\<close>

definition aave_ok :: "'c evm \<Rightarrow> address \<Rightarrow> address \<Rightarrow> bool" where
  "aave_ok V pool a \<longleftrightarrow>
     (\<forall>asset amount params cb c c'. flashLoanSimple V pool a a asset amount params cb c = Some ((), c') \<longrightarrow>
        (\<exists>premium c1 c2. (\<forall>T'. bal V T' a c + (if T' = asset then unat amount else 0) \<le> bal V T' a c1) \<and>
           cb pool asset amount premium a params c1 = Inr (True, c2) \<and>
           (\<forall>T'. bal V T' a c2 \<le> bal V T' a c' + (if T' = asset then unat amount + unat premium else 0))))"

section \<open>Balances through a call\<close>

lemma swap_steps_balances:
  assumes s: "swap_steps V C P t_in amount out c c'"
    and v: "validatePool V P t_in t_out c = Inr ((), c)" and ne: "t_in \<noteq> t_out"
    and e: "erc20_ok V t_in (ac_this C)" and p: "pair_ok V P (ac_this C)"
  shows "same_tokens V c c' \<and> (\<forall>T. bal V T (ac_this C) c + (if T = t_out then unat out else 0)
            \<le> bal V T (ac_this C) c' + (if T = t_in then unat amount else 0))"
proof -
  let ?a = "ac_this C"
  obtain t0 b c1 where t0: "token0_of V P c = Some t0"
    and t: "transfer_call V t_in ?a P amount c = Some (b, c1)"
    and w: "swap_call V P (if t_in = t0 then 0 else out) (if t_in = t0 then out else 0) ?a c1 = Some ((), c')"
    using s unfolding swap_steps_def by blast
  from v t0 obtain t1 where t1: "token1_of V P c = Some t1" and m: "t_in = t0 \<and> t_out = t1 \<or> t_in = t1 \<and> t_out = t0"
    by (auto simp: validatePool_Inr)
  have S: "same_tokens V c c1" and T: "\<forall>T'. bal V T' ?a c \<le> bal V T' ?a c1 + (if T' = t_in then unat amount else 0)"
    using e t unfolding erc20_ok_def by blast+
  have S': "same_tokens V c1 c'"
    and P0: "\<forall>T'. bal V T' ?a c1 + (if token0_of V P c1 = Some T' then unat (if t_in = t0 then 0 else out) else 0) \<le> bal V T' ?a c'"
    and P1: "\<forall>T'. bal V T' ?a c1 + (if token1_of V P c1 = Some T' then unat (if t_in = t0 then out else 0) else 0) \<le> bal V T' ?a c'"
    using p w unfolding pair_ok_def by blast+
  have tokens: "token0_of V P c1 = Some t0" "token1_of V P c1 = Some t1" using S t0 t1 by (simp_all add: same_tokens_def)
  have paid: "bal V T ?a c1 + (if T = t_out then unat out else 0) \<le> bal V T ?a c'" for T
    using m ne P0 [rule_format, of T] P1 [rule_format, of T] unfolding tokens by (auto split: if_splits)
  have "bal V T ?a c + (if T = t_out then unat out else 0) \<le> bal V T ?a c' + (if T = t_in then unat amount else 0)" for T
    using paid [of T] T [rule_format, of T] by linarith
  moreover have "same_tokens V c c'" using S S' by (simp add: same_tokens_def)
  ultimately show ?thesis by blast
qed

lemma executeOperation_balances:
  assumes x: "executeOperation V C sender asset amount premium initiator (abi_encode p) c = Inr (ok, c')"
    and ne: "tokenIn p \<noteq> tokenOut p"
    and e: "erc20_ok V (tokenIn p) (ac_this C)" "erc20_ok V (tokenOut p) (ac_this C)"
    and s: "pair_ok V (poolA p) (ac_this C)" "pair_ok V (poolB p) (ac_this C)"
  shows "asset = tokenIn p \<and> amount = amountIn p \<and>
    (\<forall>T. bal V T (ac_this C) c + (if T = tokenIn p then unat premium + unat (minProfit p) else 0) \<le> bal V T (ac_this C) c')"
  using x
proof (cases rule: executeOperation_Inr)
  case (1 q received returned c1 c2 b repay)
  let ?a = "ac_this C"
  from 1(3) have q: "q = p" using abi_roundtrip [of p "[]"] by simp
  have A: "same_tokens V c c1" "\<forall>T. bal V T ?a c + (if T = tokenOut p then unat received else 0)
      \<le> bal V T ?a c1 + (if T = tokenIn p then unat amount else 0)"
    using swap_steps_balances [OF 1(8,6)] e s ne unfolding q by blast+
  have "validatePool V (poolB p) (tokenOut p) (tokenIn p) c1 = Inr ((), c1)"
    using 1(7) A(1) unfolding q by (simp add: validatePool_Inr same_tokens_def)
  then have B: "\<forall>T. bal V T ?a c1 + (if T = tokenIn p then unat returned else 0)
      \<le> bal V T ?a c2 + (if T = tokenOut p then unat received else 0)"
    using swap_steps_balances [OF 1(9)] e s ne unfolding q by metis
  have R: "\<forall>T. bal V T ?a c2 \<le> bal V T ?a c'"
    using 1(12) e(1) unfolding 1(4) q erc20_ok_def by blast
  have "bal V T ?a c + (if T = tokenIn p then unat premium + unat (minProfit p) else 0) \<le> bal V T ?a c'" for T
    using A(2) [rule_format, of T] B [rule_format, of T] R [rule_format, of T] 1(11) ne unfolding q by (auto split: if_splits)
  then show ?thesis using 1(4,5) q by simp
qed

end
