(* ===== verification/Arb_Market.thy ===== *)
theory Arb_Market
  imports Arb_Contract
begin

text \<open>
  The contract and the bot together. First what the other contracts promise when they are called with
  enough funds (ERC-20 transfers, Uniswap swaps that keep the product less the fee, an Aave loan), then
  the run of \<open>executeArb\<close> on such a chain: it goes through exactly when the profit the bot's
  \<open>calculate_profit\<close> computes covers the premium of the loan and the caller's floor.
\<close>

section \<open>What a call with enough funds does\<close>

definition same_reserves :: "'c evm \<Rightarrow> address set \<Rightarrow> 'c \<Rightarrow> 'c \<Rightarrow> bool" where
  "same_reserves V Ps c c' \<longleftrightarrow> (\<forall>P \<in> Ps. getReserves V P c' = getReserves V P c)"

text \<open>\<open>a\<close> has paid \<open>b\<close> the amounts \<open>f\<close> of each token and nothing else has moved.\<close>

definition paid :: "'c evm \<Rightarrow> address \<Rightarrow> address \<Rightarrow> (address \<Rightarrow> nat) \<Rightarrow> 'c \<Rightarrow> 'c \<Rightarrow> bool" where
  "paid V a b f c c' \<longleftrightarrow>
     (\<forall>T h. bal V T h c' = bal V T h c + (if h = b then f T else 0) - (if h = a then f T else 0))"

definition erc20_moves :: "'c evm \<Rightarrow> address \<Rightarrow> address \<Rightarrow> bool" where
  "erc20_moves V T a \<longleftrightarrow>
     (\<forall>b n c. a \<noteq> b \<longrightarrow> unat n \<le> bal V T a c \<longrightarrow> bal V T b c + unat n < 2 ^ 256 \<longrightarrow>
        (\<exists>c'. transfer_call V T a b n c = Some (True, c') \<and> paid V a b ((\<lambda>_. 0)(T := unat n)) c c' \<and>
           same_reserves V UNIV c c' \<and> same_tokens V c c')) \<and>
     (\<forall>spender n c. \<exists>c'. approve_call V T a spender n c = Some (True, c') \<and> allowance V T a spender c' = Some n \<and>
        paid V a spender (\<lambda>_. 0) c c')"

text \<open>Whether a pair with reserves \<open>r\<close> and balances \<open>b\<close> accepts a swap for \<open>out0\<close> and \<open>out1\<close>.\<close>

definition uniswap_accepts :: "nat \<Rightarrow> nat \<Rightarrow> nat \<Rightarrow> nat \<Rightarrow> nat \<Rightarrow> nat \<Rightarrow> bool" where
  "uniswap_accepts r0 r1 b0 b1 out0 out1 \<longleftrightarrow>
     (0 < out0 \<or> 0 < out1) \<and> out0 < r0 \<and> out1 < r1 \<and> out0 \<le> b0 \<and> out1 \<le> b1 \<and>
     (let n0 = b0 - out0; n1 = b1 - out1; in0 = n0 - (r0 - out0); in1 = n1 - (r1 - out1)
      in (0 < in0 \<or> 0 < in1) \<and> n0 < 2 ^ 112 \<and> n1 < 2 ^ 112 \<and>
         r0 * r1 * 1000 ^ 2 \<le> (n0 * 1000 - in0 * 3) * (n1 * 1000 - in1 * 3))"

definition pair_swaps :: "'c evm \<Rightarrow> address \<Rightarrow> address \<Rightarrow> bool" where
  "pair_swaps V P a \<longleftrightarrow>
     (\<forall>out0 out1 c t0 t1 r0 r1. P \<noteq> a \<longrightarrow> t0 \<noteq> t1 \<longrightarrow>
        token0_of V P c = Some t0 \<longrightarrow> token1_of V P c = Some t1 \<longrightarrow> getReserves V P c = Some (r0, r1) \<longrightarrow>
        uniswap_accepts (unat r0) (unat r1) (bal V t0 P c) (bal V t1 P c) (unat out0) (unat out1) \<longrightarrow>
        bal V t0 a c + unat out0 < 2 ^ 256 \<longrightarrow> bal V t1 a c + unat out1 < 2 ^ 256 \<longrightarrow>
        (\<exists>c'. swap_call V P out0 out1 a c = Some ((), c') \<and>
           paid V P a ((\<lambda>_. 0)(t0 := unat out0, t1 := unat out1)) c c' \<and>
           same_reserves V (- {P}) c c' \<and> same_tokens V c c'))"

text \<open>
  A loan of an amount the pool has: the amount is paid out, and the loan goes through exactly when the
  callback returns \<open>True\<close> and leaves amount and premium to be pulled.
\<close>

definition aave_lends :: "'c evm \<Rightarrow> address \<Rightarrow> address \<Rightarrow> (u256 \<Rightarrow> u256) \<Rightarrow> bool" where
  "aave_lends V pool a premium \<longleftrightarrow>
     (\<forall>asset amount params cb c. unat amount \<le> bal V asset pool c \<longrightarrow> bal V asset a c + unat amount < 2 ^ 256 \<longrightarrow>
        (\<exists>c1. paid V pool a ((\<lambda>_. 0)(asset := unat amount)) c c1 \<and> same_reserves V UNIV c c1 \<and> same_tokens V c c1 \<and>
           ((\<exists>c'. flashLoanSimple V pool a a asset amount params cb c = Some ((), c')) \<longleftrightarrow>
            (\<exists>c2 n. cb pool asset amount (premium amount) a params c1 = Inr (True, c2) \<and>
               unat amount + unat (premium amount) \<le> bal V asset a c2 \<and>
               allowance V asset a pool c2 = Some n \<and> unat amount + unat (premium amount) \<le> unat n))))"

section \<open>A pair accepts the quoted swap\<close>

lemma uniswap_accepts_sym: "uniswap_accepts r0 r1 b0 b1 out0 out1 = uniswap_accepts r1 r0 b1 b0 out1 out0"
  unfolding uniswap_accepts_def Let_def by (metis mult.commute)

lemma quote_accepted:
  assumes x: "0 < x" and y: "0 < y" "y < 2 ^ 112" and room: "x + a < 2 ^ 112" and out: "0 < swap_out a x y"
  shows "uniswap_accepts x y (x + a) y 0 (swap_out a x y)"
proof -
  let ?o = "swap_out a x y"
  have o: "?o < y" using x y by (intro swap_out_below)
  have a: "0 < a" using out by (cases "a = 0") (simp_all add: swap_out_def)
  have "x * 1000 * y + ?o * (1000 * x + 997 * a) \<le> (1000 * x + 997 * a) * y"
    using swap_out_le [of a x y] by (simp add: algebra_simps)
  then have "x * 1000 * y \<le> (1000 * x + 997 * a) * (y - ?o)" by (simp add: diff_mult_distrib2 algebra_simps)
  then have "x * 1000 * y * 1000 \<le> (1000 * x + 997 * a) * (y - ?o) * 1000" by (rule mult_le_mono1)
  moreover have "(x + a) * 1000 - a * 3 = 1000 * x + 997 * a" by simp
  ultimately have "x * y * 1000 ^ 2 \<le> ((x + a) * 1000 - a * 3) * ((y - ?o) * 1000)" by (simp only: mult_ac) simp
  then show ?thesis using o out x a y room by (simp add: uniswap_accepts_def)
qed

section \<open>The contract's swap on such a pair\<close>

text \<open>A pair as the bot sees it in the direction from \<open>t_in\<close> to \<open>t_out\<close>, its balances equal to its reserves.\<close>

definition shows_pool :: "'c evm \<Rightarrow> address \<Rightarrow> address \<Rightarrow> address \<Rightarrow> 112 word \<Rightarrow> 112 word \<Rightarrow> 'c \<Rightarrow> bool" where
  "shows_pool V P t_in t_out x y c \<longleftrightarrow>
     (token0_of V P c = Some t_in \<and> token1_of V P c = Some t_out \<and> getReserves V P c = Some (x, y) \<or>
      token0_of V P c = Some t_out \<and> token1_of V P c = Some t_in \<and> getReserves V P c = Some (y, x)) \<and>
     bal V t_in P c = unat x \<and> bal V t_out P c = unat y"

lemma shows_pool_frame:
  assumes "shows_pool V P t_in t_out x y c" "same_tokens V c c'" "same_reserves V Ps c c'" "P \<in> Ps"
    and "\<And>T. bal V T P c' = bal V T P c"
  shows "shows_pool V P t_in t_out x y c'"
  using assms by (auto simp: shows_pool_def same_tokens_def same_reserves_def)

lemma shows_pool_valid: "shows_pool V P t_in t_out x y c \<Longrightarrow> validatePool V P t_in t_out c = Inr ((), c)"
  by (auto simp: shows_pool_def validatePool_Inr)

lemma unat_ucast_112: "unat (ucast (x :: 112 word) :: u256) = unat x"
  using unsigned_less [where w = x and ?'a = nat] by (simp add: unsigned_ucast_eq take_bit_nat_eq_self)

lemma uint112_quote:
  fixes x y :: "112 word" and a :: u256
  assumes "unat a < 2 ^ 128" "x \<noteq> 0" "y \<noteq> 0"
  shows "sol_getAmountOut a (ucast x) (ucast y) = Some (word_of_nat (swap_out (unat a) (unat x) (unat y)))"
    and "unat (word_of_nat (swap_out (unat a) (unat x) (unat y)) :: u256) = swap_out (unat a) (unat x) (unat y)"
proof -
  let ?x = "ucast x :: u256" and ?y = "ucast y :: u256"
  have nz: "?x \<noteq> 0" "?y \<noteq> 0" using assms unat_ucast_112 by (metis unat_0 unat_eq_zero)+
  have fits: "swap_fits (unat a) (unat ?x) (unat ?y)"
    using assms unsigned_less [where w = x and ?'a = nat] unsigned_less [where w = y and ?'a = nat]
    unfolding unat_ucast_112 by (intro uint112_fits) simp_all
  note W = swap_fits_words [OF fits nz]
  have "unat a * 997 < 2 ^ 256" "unat (a * 997) * unat ?y < 2 ^ 256" "unat ?x * 1000 < 2 ^ 256"
    "unat (?x * 1000) + unat (a * 997) < 2 ^ 256"
    using fits by (simp_all add: W swap_fits_def mult.commute)
  moreover have "a * 997 * ?y div (?x * 1000 + a * 997) = word_of_nat (swap_out (unat a) (unat x) (unat y))"
    by (simp add: word_div_nat swap_out_def flip: W(2,4) unat_ucast_112 [of x] unat_ucast_112 [of y])
  ultimately show "sol_getAmountOut a ?x ?y = Some (word_of_nat (swap_out (unat a) (unat x) (unat y)))"
    using nz W(5) by (simp add: sol_getAmountOut_def sol_mul_def sol_add_def word_gt_0)
  show "unat (word_of_nat (swap_out (unat a) (unat x) (unat y)) :: u256) = swap_out (unat a) (unat x) (unat y)"
    using unat_swap_out [OF nz, of "unat a"] by (simp add: unat_ucast_112)
qed

lemma bal_less: "bal V T a c < 2 ^ 256"
proof (cases "balanceOf V T a c")
  case (Some n)
  then show ?thesis using unsigned_less [where w = n and ?'a = nat] by (simp add: bal_def)
qed (simp add: bal_def)

text \<open>A swap in one direction, whichever of the tokens comes first in the pair.\<close>

lemma pair_pays_out:
  fixes x y :: "112 word" and w :: u256
  assumes law: "pair_swaps V P a" and ne: "P \<noteq> a" "t_in \<noteq> t_out"
    and view: "token0_of V P c = Some t_in \<and> token1_of V P c = Some t_out \<and> getReserves V P c = Some (x, y) \<or>
      token0_of V P c = Some t_out \<and> token1_of V P c = Some t_in \<and> getReserves V P c = Some (y, x)"
    and acc: "uniswap_accepts (unat x) (unat y) (bal V t_in P c) (bal V t_out P c) 0 (unat w)"
    and fits: "bal V t_out a c + unat w < 2 ^ 256"
  shows "\<exists>c'. swap_call V P (if token0_of V P c = Some t_in then 0 else w) (if token0_of V P c = Some t_in then w else 0) a c = Some ((), c') \<and>
    paid V P a ((\<lambda>_. 0)(t_out := unat w)) c c' \<and> same_reserves V (- {P}) c c' \<and> same_tokens V c c'"
proof -
  have zero: "bal V t_in a c + unat (0 :: u256) < 2 ^ 256" using bal_less [of V t_in a c] by simp
  have upd: "(\<lambda>_. 0)(t_in := unat (0 :: u256), t_out := unat w) = (\<lambda>_. 0)(t_out := unat w)"
    "(\<lambda>_. 0)(t_out := unat w, t_in := unat (0 :: u256)) = (\<lambda>_. 0)(t_out := unat w)"
    using ne by (auto simp: fun_eq_iff)
  show ?thesis using view
  proof (elim disjE conjE)
    assume v: "token0_of V P c = Some t_in" "token1_of V P c = Some t_out" "getReserves V P c = Some (x, y)"
    have "uniswap_accepts (unat x) (unat y) (bal V t_in P c) (bal V t_out P c) (unat (0 :: u256)) (unat w)" using acc by simp
    from law [unfolded pair_swaps_def, rule_format, OF ne v this zero fits] show ?thesis using v(1) unfolding upd by simp
  next
    assume v: "token0_of V P c = Some t_out" "token1_of V P c = Some t_in" "getReserves V P c = Some (y, x)"
    have "uniswap_accepts (unat y) (unat x) (bal V t_out P c) (bal V t_in P c) (unat w) (unat (0 :: u256))"
      using acc by (simp add: uniswap_accepts_sym [of "unat y"])
    from law [unfolded pair_swaps_def, rule_format, OF ne(1) ne(2) [symmetric] v this fits zero] show ?thesis
      using v(1) ne unfolding upd by auto
  qed
qed

lemma swap_on_runs:
  fixes x y :: "112 word" and amount :: u256
  assumes laws: "erc20_moves V t_in (ac_this C)" "pair_swaps V P (ac_this C)"
    and p: "shows_pool V P t_in t_out x y c" and ne: "t_in \<noteq> t_out" "ac_this C \<noteq> P" and nz: "x \<noteq> 0" "y \<noteq> 0"
    and funds: "unat amount \<le> bal V t_in (ac_this C) c"
    and room: "unat x + unat amount < 2 ^ 112" "bal V t_out (ac_this C) c + swap_out (unat amount) (unat x) (unat y) < 2 ^ 256"
    and out: "0 < swap_out (unat amount) (unat x) (unat y)"
  shows "\<exists>c'. swap_on V C P t_in t_out amount c = Inr (word_of_nat (swap_out (unat amount) (unat x) (unat y)), c') \<and>
     same_tokens V c c' \<and> same_reserves V (- {P}) c c' \<and>
     (\<forall>T h. h \<noteq> P \<longrightarrow> bal V T h c' = bal V T h c + (if h = ac_this C \<and> T = t_out then swap_out (unat amount) (unat x) (unat y) else 0)
                        - (if h = ac_this C \<and> T = t_in then unat amount else 0))"
proof -
  let ?a = "ac_this C"
  define q where "q = swap_out (unat amount) (unat x) (unat y)"
  let ?w = "word_of_nat q :: u256"
  have lx: "unat x < 2 ^ 112" and ly: "unat y < 2 ^ 112"
    using unsigned_less [where w = x and ?'a = nat] unsigned_less [where w = y and ?'a = nat] by simp_all
  have big: "unat amount < 2 ^ 128" using room(1) by simp
  have quote: "sol_getAmountOut amount (ucast x) (ucast y) = Some ?w" and w: "unat ?w = q"
    unfolding q_def by (rule uint112_quote [OF big nz])+
  have "bal V t_in P c + unat amount < 2 ^ 256" using p room(1) by (simp add: shows_pool_def)
  then obtain c1 where t: "transfer_call V t_in ?a P amount c = Some (True, c1)"
    and paid1: "paid V ?a P ((\<lambda>_. 0)(t_in := unat amount)) c c1" and f1: "same_reserves V UNIV c c1" "same_tokens V c c1"
    using laws(1) ne(2) funds unfolding erc20_moves_def by blast
  have b1: "bal V t_in P c1 = unat x + unat amount" "bal V t_out P c1 = unat y" "bal V t_out ?a c1 = bal V t_out ?a c"
    using p ne paid1 by (auto simp: paid_def shows_pool_def)
  have acc: "uniswap_accepts (unat x) (unat y) (unat x + unat amount) (unat y) 0 q"
    unfolding q_def using nz ly room(1) out by (intro quote_accepted) (simp_all add: unat_gt_0)
  have fits: "bal V t_out ?a c1 + unat ?w < 2 ^ 256" using b1 w room(2) by (simp add: q_def)
  have frame: "getReserves V P c1 = getReserves V P c" "token0_of V P c1 = token0_of V P c" "token1_of V P c1 = token1_of V P c"
    using f1 by (simp_all add: same_reserves_def same_tokens_def)
  have acc1: "uniswap_accepts (unat x) (unat y) (bal V t_in P c1) (bal V t_out P c1) 0 (unat ?w)" using acc by (simp add: b1 w)
  obtain c' where c': "swap_call V P (if token0_of V P c1 = Some t_in then 0 else ?w) (if token0_of V P c1 = Some t_in then ?w else 0) ?a c1 = Some ((), c')"
    and paid2: "paid V P ?a ((\<lambda>_. 0)(t_out := q)) c1 c'" and f2: "same_reserves V (- {P}) c1 c'" "same_tokens V c1 c'"
    using pair_pays_out [OF laws(2) ne(2) [symmetric] ne(1) _ acc1 fits] p unfolding w frame shows_pool_def by blast
  have pos: "0 < ?w" using w out by (simp add: word_less_nat_alt q_def)
  have s: "swap_steps V C P t_in amount ?w c c'"
  proof (cases "token0_of V P c = Some t_in")
    case True
    then have "getReserves V P c = Some (x, y)" using p ne by (auto simp: shows_pool_def)
    then show ?thesis using True c' quote t pos unfolding swap_steps_def frame by (simp add: ex_bool_eq)
  next
    case False
    then have "token0_of V P c = Some t_out" "getReserves V P c = Some (y, x)" using p by (auto simp: shows_pool_def)
    then show ?thesis using False c' quote t pos ne unfolding swap_steps_def frame by (simp add: ex_bool_eq)
  qed
  have "bal V T h c' = bal V T h c + (if h = ?a \<and> T = t_out then q else 0) - (if h = ?a \<and> T = t_in then unat amount else 0)"
    if "h \<noteq> P" for T h
    using that paid1 paid2 ne funds by (auto simp: paid_def)
  then show ?thesis
    using s f1 f2 unfolding q_def [symmetric] swap_on_Inr by (auto simp: same_reserves_def same_tokens_def)
qed

lemma swap_on_zero:
  fixes x y :: "112 word" and amount :: u256
  assumes "shows_pool V P t_in t_out x y c" "t_in \<noteq> t_out" "x \<noteq> 0" "y \<noteq> 0" "unat amount < 2 ^ 128"
    and "swap_out (unat amount) (unat x) (unat y) = 0"
  shows "swap_on V C P t_in t_out amount c = Inl (Revert ''Zero output'')"
proof -
  have "0 < (ucast x :: u256)" "0 < (ucast y :: u256)"
    using assms(3,4) by (simp_all add: word_less_nat_alt unat_ucast_112 unat_gt_0)
  moreover have "sol_getAmountOut amount (ucast x) (ucast y) = Some 0"
    using uint112_quote(1) [OF assms(5,3,4)] assms(6) by simp
  ultimately show ?thesis
    using assms(1,2) by (auto simp: shows_pool_def swap_on_def bindC_def viewC_def checkedC_def getAmountOut_call_def require_def)
qed

section \<open>A run of the contract\<close>

text \<open>
  The chain as the run needs it: the two pairs show the reserves \<open>x\<close>, \<open>y\<close> in the directions of the trade,
  the parties are distinct and no balance or reserve outgrows its width.
\<close>

definition arb_chain :: "'c evm \<Rightarrow> arb_contract \<Rightarrow> arb_params \<Rightarrow> 112 word \<Rightarrow> 112 word \<Rightarrow> 112 word \<Rightarrow> 112 word \<Rightarrow> 'c \<Rightarrow> bool" where
  "arb_chain V C p xa ya xb yb c \<longleftrightarrow>
     erc20_moves V (tokenIn p) (ac_this C) \<and> erc20_moves V (tokenOut p) (ac_this C) \<and>
     pair_swaps V (poolA p) (ac_this C) \<and> pair_swaps V (poolB p) (ac_this C) \<and>
     shows_pool V (poolA p) (tokenIn p) (tokenOut p) xa ya c \<and> shows_pool V (poolB p) (tokenOut p) (tokenIn p) xb yb c \<and>
     xa \<noteq> 0 \<and> ya \<noteq> 0 \<and> xb \<noteq> 0 \<and> yb \<noteq> 0 \<and>
     tokenIn p \<noteq> tokenOut p \<and> poolA p \<noteq> poolB p \<and> ac_this C \<noteq> poolA p \<and> ac_this C \<noteq> poolB p \<and>
     unat xa + unat (amountIn p) < 2 ^ 112 \<and> unat xb + unat ya \<le> 2 ^ 112 \<and>
     bal V (tokenOut p) (ac_this C) c + unat ya < 2 ^ 256"

definition arb_returned :: "arb_params \<Rightarrow> 112 word \<Rightarrow> 112 word \<Rightarrow> 112 word \<Rightarrow> 112 word \<Rightarrow> nat" where
  "arb_returned p xa ya xb yb = swap_out (swap_out (unat (amountIn p)) (unat xa) (unat ya)) (unat xb) (unat yb)"

lemma arb_returned_less:
  assumes "arb_chain V C p xa ya xb yb c"
  shows "arb_returned p xa ya xb yb < 2 ^ 112"
proof -
  have "arb_returned p xa ya xb yb < unat yb"
    unfolding arb_returned_def using assms by (intro swap_out_below) (simp_all add: arb_chain_def unat_gt_0)
  then show ?thesis using unsigned_less [where w = yb and ?'a = nat] by simp
qed

text \<open>The first swap of the callback leaves the second pair as it was.\<close>

lemma first_swap_runs:
  assumes chain: "arb_chain V C p xa ya xb yb c" and funds: "unat (amountIn p) \<le> bal V (tokenIn p) (ac_this C) c"
    and m: "m = swap_out (unat (amountIn p)) (unat xa) (unat ya)" "0 < m"
  shows "\<exists>c1. swap_on V C (poolA p) (tokenIn p) (tokenOut p) (amountIn p) c = Inr (word_of_nat m, c1) \<and>
    shows_pool V (poolB p) (tokenOut p) (tokenIn p) xb yb c1 \<and> m < unat ya \<and> unat (word_of_nat m :: u256) = m \<and>
    bal V (tokenOut p) (ac_this C) c1 = bal V (tokenOut p) (ac_this C) c + m \<and>
    bal V (tokenIn p) (ac_this C) c1 = bal V (tokenIn p) (ac_this C) c - unat (amountIn p)"
proof -
  let ?a = "ac_this C"
  note ch = chain [unfolded arb_chain_def]
  have neq: "tokenOut p \<noteq> tokenIn p" "poolB p \<noteq> poolA p" "poolB p \<noteq> ?a" "?a \<noteq> poolA p" using ch by auto
  have mb: "m < unat ya" unfolding m using ch by (intro swap_out_below) (simp_all add: unat_gt_0)
  then have "bal V (tokenOut p) ?a c + m < 2 ^ 256" using ch by linarith
  then obtain c1 where A: "swap_on V C (poolA p) (tokenIn p) (tokenOut p) (amountIn p) c = Inr (word_of_nat m, c1)"
    and f1: "same_tokens V c c1" "same_reserves V (- {poolA p}) c c1"
    and b1: "\<And>T h. h \<noteq> poolA p \<Longrightarrow> bal V T h c1 = bal V T h c + (if h = ?a \<and> T = tokenOut p then m else 0)
       - (if h = ?a \<and> T = tokenIn p then unat (amountIn p) else 0)"
    using swap_on_runs [of V "tokenIn p" C "poolA p" "tokenOut p" xa ya c "amountIn p"] ch funds m(2) unfolding m by blast
  have "shows_pool V (poolB p) (tokenOut p) (tokenIn p) xb yb c1"
  proof (rule shows_pool_frame [OF _ f1])
    show "shows_pool V (poolB p) (tokenOut p) (tokenIn p) xb yb c" "poolB p \<in> - {poolA p}" using ch by auto
    show "bal V T (poolB p) c1 = bal V T (poolB p) c" for T using neq b1 [of "poolB p" T] by simp
  qed
  moreover have "unat (word_of_nat m :: u256) = m"
    unfolding m using ch by (intro uint112_quote(2)) auto
  ultimately show ?thesis using A mb neq by (simp add: b1)
qed

lemma second_swap_runs:
  assumes chain: "arb_chain V C p xa ya xb yb c" and view: "shows_pool V (poolB p) (tokenOut p) (tokenIn p) xb yb c1"
    and bound: "bal V (tokenIn p) (ac_this C) c - unat (amountIn p) + unat yb < 2 ^ 256"
    and m: "m < unat ya" "unat (word_of_nat m :: u256) = m"
    and b1: "bal V (tokenOut p) (ac_this C) c1 = bal V (tokenOut p) (ac_this C) c + m"
      "bal V (tokenIn p) (ac_this C) c1 = bal V (tokenIn p) (ac_this C) c - unat (amountIn p)"
    and q: "q = swap_out m (unat xb) (unat yb)" "0 < q"
  shows "\<exists>c2. swap_on V C (poolB p) (tokenOut p) (tokenIn p) (word_of_nat m) c1 = Inr (word_of_nat q, c2) \<and>
    unat (word_of_nat q :: u256) = q \<and> bal V (tokenIn p) (ac_this C) c2 = bal V (tokenIn p) (ac_this C) c - unat (amountIn p) + q"
proof -
  let ?a = "ac_this C"
  note ch = chain [unfolded arb_chain_def]
  have neq: "tokenOut p \<noteq> tokenIn p" using ch by auto
  have "q < unat yb" unfolding q using ch by (intro swap_out_below) (simp_all add: unat_gt_0)
  then have room: "unat xb + m < 2 ^ 112" "bal V (tokenIn p) ?a c1 + q < 2 ^ 256" "m \<le> bal V (tokenOut p) ?a c1"
    using ch bound m b1 by auto
  then obtain c2 where "swap_on V C (poolB p) (tokenOut p) (tokenIn p) (word_of_nat m) c1 = Inr (word_of_nat q, c2)"
    "\<And>T h. h \<noteq> poolB p \<Longrightarrow> bal V T h c2 = bal V T h c1 + (if h = ?a \<and> T = tokenIn p then q else 0)
       - (if h = ?a \<and> T = tokenOut p then m else 0)"
    using swap_on_runs [of V "tokenOut p" C "poolB p" "tokenIn p" xb yb c1 "word_of_nat m", OF _ _ view neq] ch q(2)
    unfolding m(2) q by blast
  moreover have "unat (word_of_nat m :: u256) < 2 ^ 128" using room(1) m by simp
  then have "unat (word_of_nat q :: u256) = q"
    using uint112_quote(2) [of "word_of_nat m" xb yb] ch unfolding m(2) q by blast
  ultimately show ?thesis using ch neq b1(2) by simp
qed

text \<open>The callback goes through exactly when the chained quotes return loan, premium and floor.\<close>

lemma executeOperation_pays:
  assumes chain: "arb_chain V C p xa ya xb yb c" and funds: "unat (amountIn p) \<le> bal V (tokenIn p) (ac_this C) c"
    and bound: "bal V (tokenIn p) (ac_this C) c - unat (amountIn p) + unat yb < 2 ^ 256"
    and enough: "unat (amountIn p) + unat premium + unat (minProfit p) \<le> arb_returned p xa ya xb yb" and pos: "0 < minProfit p"
  shows "\<exists>c'. executeOperation V C (ac_aavePool C) (tokenIn p) (amountIn p) premium (ac_this C) (abi_encode p) c = Inr (True, c') \<and>
    allowance V (tokenIn p) (ac_this C) (ac_aavePool C) c' = Some (amountIn p + premium) \<and>
    bal V (tokenIn p) (ac_this C) c' = bal V (tokenIn p) (ac_this C) c - unat (amountIn p) + arb_returned p xa ya xb yb"
proof -
  let ?a = "ac_this C" and ?q = "arb_returned p xa ya xb yb"
  note ch = chain [unfolded arb_chain_def]
  define m where "m = swap_out (unat (amountIn p)) (unat xa) (unat ya)"
  have q: "?q = swap_out m (unat xb) (unat yb)" "0 < ?q" using enough pos by (simp_all add: arb_returned_def m_def word_less_nat_alt)
  have m0: "0 < m" using q by (cases "m = 0") (simp_all add: swap_out_def)
  obtain c1 where A: "swap_on V C (poolA p) (tokenIn p) (tokenOut p) (amountIn p) c = Inr (word_of_nat m, c1)"
    and c1: "shows_pool V (poolB p) (tokenOut p) (tokenIn p) xb yb c1" "m < unat ya" "unat (word_of_nat m :: u256) = m"
      "bal V (tokenOut p) ?a c1 = bal V (tokenOut p) ?a c + m" "bal V (tokenIn p) ?a c1 = bal V (tokenIn p) ?a c - unat (amountIn p)"
    using first_swap_runs [OF chain funds m_def m0] by blast
  obtain c2 where B: "swap_on V C (poolB p) (tokenOut p) (tokenIn p) (word_of_nat m) c1 = Inr (word_of_nat ?q, c2)"
    and uq: "unat (word_of_nat ?q :: u256) = ?q" and b2: "bal V (tokenIn p) ?a c2 = bal V (tokenIn p) ?a c - unat (amountIn p) + ?q"
    using second_swap_runs [OF chain c1(1) bound c1(2-) q] by blast
  obtain c' where R: "approve_call V (tokenIn p) ?a (ac_aavePool C) (amountIn p + premium) c2 = Some (True, c')"
    "allowance V (tokenIn p) ?a (ac_aavePool C) c' = Some (amountIn p + premium)" "paid V ?a (ac_aavePool C) (\<lambda>_. 0) c2 c'"
    using ch unfolding erc20_moves_def by blast
  have "?q < 2 ^ 256" using unsigned_less [where w = "word_of_nat ?q :: u256" and ?'a = nat] uq by simp
  then have sums: "sol_add (amountIn p) premium = Some (amountIn p + premium)"
    "sol_add (amountIn p + premium) (minProfit p) = Some (amountIn p + premium + minProfit p)"
    "amountIn p + premium + minProfit p \<le> word_of_nat ?q"
    using enough by (simp_all add: sol_add_Some word_le_nat_alt uq unat_add_fits)
  have valid: "validatePool V (poolA p) (tokenIn p) (tokenOut p) c = Inr ((), c)"
    "validatePool V (poolB p) (tokenOut p) (tokenIn p) c = Inr ((), c)"
    by (rule shows_pool_valid, use ch in blast)+
  have "abi_decode (abi_encode p) = Some p" using abi_roundtrip [of p "[]"] by simp
  then have "executeOperation V C (ac_aavePool C) (tokenIn p) (amountIn p) premium ?a (abi_encode p) c = Inr (True, c')"
    using valid A B sums R(1)
    by (simp add: executeOperation_def bindC_def require_def checkedC_def externalC_def returnC_def)
  then show ?thesis using R b2 by (simp add: paid_def)
qed

lemma executeOperation_returns:
  assumes chain: "arb_chain V C p xa ya xb yb c" and funds: "unat (amountIn p) \<le> bal V (tokenIn p) (ac_this C) c"
    and bound: "bal V (tokenIn p) (ac_this C) c - unat (amountIn p) + unat yb < 2 ^ 256"
    and x: "executeOperation V C sender asset amount premium initiator (abi_encode p) c = Inr (ok, c')"
  shows "unat (amountIn p) + unat premium + unat (minProfit p) \<le> arb_returned p xa ya xb yb"
  using x
proof (cases rule: executeOperation_Inr)
  case (1 r received returned c1 c2 b repay)
  note ch = chain [unfolded arb_chain_def]
  from 1(3) have r: "r = p" using abi_roundtrip [of p "[]"] by simp
  define m where "m = swap_out (unat (amountIn p)) (unat xa) (unat ya)"
  have q: "arb_returned p xa ya xb yb = swap_out m (unat xb) (unat yb)" by (simp add: arb_returned_def m_def)
  have A: "swap_on V C (poolA p) (tokenIn p) (tokenOut p) (amountIn p) c = Inr (received, c1)"
    and B: "swap_on V C (poolB p) (tokenOut p) (tokenIn p) received c1 = Inr (returned, c2)"
    using 1(5,8,9) unfolding r swap_on_Inr by simp_all
  have "m \<noteq> 0"
    using swap_on_zero [of V "poolA p" "tokenIn p" "tokenOut p" xa ya c "amountIn p" C] A ch by (auto simp: m_def)
  then obtain w1: "received = word_of_nat m" and view: "shows_pool V (poolB p) (tokenOut p) (tokenIn p) xb yb c1"
    and b1: "m < unat ya" "unat (word_of_nat m :: u256) = m" "bal V (tokenOut p) (ac_this C) c1 = bal V (tokenOut p) (ac_this C) c + m"
      "bal V (tokenIn p) (ac_this C) c1 = bal V (tokenIn p) (ac_this C) c - unat (amountIn p)"
    using first_swap_runs [OF chain funds m_def] A by auto
  have "arb_returned p xa ya xb yb \<noteq> 0"
    using swap_on_zero [of V "poolB p" "tokenOut p" "tokenIn p" xb yb c1 received C] B ch view b1(1,2) w1 q by (auto intro!: gr0I)
  then have "unat returned = arb_returned p xa ya xb yb"
    using second_swap_runs [OF chain view bound b1 q] B w1 by auto
  then show ?thesis using 1(5,11) r by simp
qed

section \<open>The run of \<^verbatim>\<open>executeArb\<close>\<close>

lemma arb_chain_paid:
  assumes "arb_chain V C p xa ya xb yb c" "paid V pool (ac_this C) ((\<lambda>_. 0)(tokenIn p := n)) c c1"
    "same_reserves V UNIV c c1" "same_tokens V c c1" "pool \<notin> {poolA p, poolB p}"
  shows "arb_chain V C p xa ya xb yb c1"
proof -
  note ch = assms(1) [unfolded arb_chain_def]
  have same: "bal V T h c1 = bal V T h c" if "h \<in> {poolA p, poolB p} \<or> h = ac_this C \<and> T = tokenOut p" for T h
    using that assms(2,5) ch by (auto simp: paid_def)
  have "shows_pool V (poolA p) (tokenIn p) (tokenOut p) xa ya c1" "shows_pool V (poolB p) (tokenOut p) (tokenIn p) xb yb c1"
    by (rule shows_pool_frame [OF _ assms(4,3)]; use ch same in blast)+
  then show ?thesis using ch same unfolding arb_chain_def by simp
qed

lemma executeArb_iff:
  assumes chain: "arb_chain V C p xa ya xb yb c" and loan: "aave_lends V (ac_aavePool C) (ac_this C) premium"
    and pos: "0 < minProfit p" and apart: "ac_aavePool C \<notin> {ac_this C, poolA p, poolB p}"
    and funds: "unat (amountIn p) \<le> bal V (tokenIn p) (ac_aavePool C) c"
    and room: "bal V (tokenIn p) (ac_this C) c + unat (amountIn p) + unat yb < 2 ^ 256"
  shows "(\<exists>c'. executeArb V C (ac_owner C) p c = Inr ((), c')) \<longleftrightarrow>
    unat (amountIn p) + unat (premium (amountIn p)) + unat (minProfit p) \<le> arb_returned p xa ya xb yb"
proof -
  let ?a = "ac_this C" and ?n = "amountIn p" and ?T = "tokenIn p" and ?q = "arb_returned p xa ya xb yb"
  let ?cb = "executeOperation V C"
  have guards: "poolA p \<noteq> poolB p" "tokenIn p \<noteq> tokenOut p" using chain by (simp_all add: arb_chain_def)
  have run: "executeArb V C (ac_owner C) p c = Inr ((), c') \<longleftrightarrow>
      flashLoanSimple V (ac_aavePool C) ?a ?a ?T ?n (abi_encode p) ?cb c = Some ((), c')" for c'
    using guards pos by (simp add: executeArb_def onlyOwner_def bindC_Inr_iff)
  have "bal V ?T ?a c + unat ?n < 2 ^ 256" using room by linarith
  then obtain c1 where c1: "paid V (ac_aavePool C) ?a ((\<lambda>_. 0)(?T := unat ?n)) c c1" "same_reserves V UNIV c c1" "same_tokens V c c1"
    and iff: "(\<exists>c'. flashLoanSimple V (ac_aavePool C) ?a ?a ?T ?n (abi_encode p) ?cb c = Some ((), c')) \<longleftrightarrow>
      (\<exists>c2 w. ?cb (ac_aavePool C) ?T ?n (premium ?n) ?a (abi_encode p) c1 = Inr (True, c2) \<and>
         unat ?n + unat (premium ?n) \<le> bal V ?T ?a c2 \<and> allowance V ?T ?a (ac_aavePool C) c2 = Some w \<and>
         unat ?n + unat (premium ?n) \<le> unat w)"
    using loan funds unfolding aave_lends_def by blast
  have chain1: "arb_chain V C p xa ya xb yb c1" using arb_chain_paid [OF chain c1] apart by simp
  have b1: "bal V ?T ?a c1 = bal V ?T ?a c + unat ?n" using c1(1) apart by (auto simp: paid_def)
  have "\<exists>c2. ?cb (ac_aavePool C) ?T ?n (premium ?n) ?a (abi_encode p) c1 = Inr (True, c2) \<and>
      bal V ?T ?a c2 = bal V ?T ?a c + ?q \<and> allowance V ?T ?a (ac_aavePool C) c2 = Some (?n + premium ?n)"
    if "unat ?n + unat (premium ?n) + unat (minProfit p) \<le> ?q"
    using executeOperation_pays [OF chain1 _ _ that pos] room b1 by auto
  moreover have "unat (?n + premium ?n) = unat ?n + unat (premium ?n)" if "unat ?n + unat (premium ?n) + unat (minProfit p) \<le> ?q"
    using that chain arb_returned_less [OF chain] by (intro unat_add_fits) simp
  moreover have "unat ?n + unat (premium ?n) + unat (minProfit p) \<le> ?q"
    if "?cb (ac_aavePool C) ?T ?n (premium ?n) ?a (abi_encode p) c1 = Inr (True, c2)" for c2
    using executeOperation_returns [OF chain1 _ _ that] room b1 by simp
  ultimately show ?thesis unfolding run iff by fastforce
qed

end
