(* ===== verification/Arb_Bot.thy ===== *)
theory Arb_Bot
  imports Arb_Market
begin

text \<open>
  The properties of the contract and of bot and contract together, with the reference market on which
  the laws of the other contracts are checked and the witnesses run.
\<close>

section \<open>A reference market\<close>

text \<open>
  An instance of the other contracts on which the laws are checked and witnesses run: token balances and
  pair reserves, pairs that pay out first and then check the product less the fee of 0.3\%, and a lender
  that asks 0.05\%.
\<close>

record market =
  mk_bal :: "address \<Rightarrow> address \<Rightarrow> u256"
  mk_res :: "address \<Rightarrow> 112 word \<times> 112 word"
  mk_allow :: "address \<Rightarrow> address \<Rightarrow> address \<Rightarrow> u256"

definition mk_pay :: "address \<Rightarrow> address \<Rightarrow> address \<Rightarrow> u256 \<Rightarrow> market \<Rightarrow> market option" where
  "mk_pay T a b n m =
     (if n \<le> mk_bal m T a then
        let f = (mk_bal m)(T := (mk_bal m T)(a := mk_bal m T a - n))
        in if unat (f T b) + unat n < 2 ^ 256 then Some (m\<lparr>mk_bal := f(T := (f T)(b := f T b + n))\<rparr>) else None
      else None)"

text \<open>The repayment leaves the market: what the lender does with it is left out.\<close>

definition mk_take :: "address \<Rightarrow> address \<Rightarrow> u256 \<Rightarrow> market \<Rightarrow> market option" where
  "mk_take T a n m =
     (if n \<le> mk_bal m T a then Some (m\<lparr>mk_bal := (mk_bal m)(T := (mk_bal m T)(a := mk_bal m T a - n))\<rparr>) else None)"

definition mk_swap :: "(address \<Rightarrow> (address \<times> address) option) \<Rightarrow> address \<Rightarrow> u256 \<Rightarrow> u256 \<Rightarrow> address \<Rightarrow> market \<Rightarrow> market option" where
  "mk_swap toks P out0 out1 to m =
     do {
       (t0, t1) \<leftarrow> toks P;
       m1 \<leftarrow> mk_pay t0 P to out0 m;
       m2 \<leftarrow> mk_pay t1 P to out1 m1;
       (if uniswap_accepts (unat (fst (mk_res m P))) (unat (snd (mk_res m P))) (unat (mk_bal m t0 P)) (unat (mk_bal m t1 P))
             (unat out0) (unat out1)
        then Some (m2\<lparr>mk_res := (mk_res m2)(P := (ucast (mk_bal m2 t0 P), ucast (mk_bal m2 t1 P)))\<rparr>)
        else None)
     }"

definition mk_flash ::
  "address \<Rightarrow> address \<Rightarrow> address \<Rightarrow> address \<Rightarrow> u256 \<Rightarrow> bytes \<Rightarrow> market callback \<Rightarrow> market \<Rightarrow> market option" where
  "mk_flash pool initiator receiver asset amount params cb m =
     do {
       m1 \<leftarrow> mk_pay asset pool receiver amount m;
       (case cb pool asset amount (amount * 5 div 10000) initiator params m1 of
          Inl e \<Rightarrow> None
        | Inr (ok, m2) \<Rightarrow>
            if ok \<and> unat amount + unat (amount * 5 div 10000) \<le> unat (mk_allow m2 asset receiver pool)
            then mk_take asset receiver (amount + amount * 5 div 10000) m2 else None)
     }"

definition market_evm :: "(address \<Rightarrow> (address \<times> address) option) \<Rightarrow> market evm" where
  "market_evm toks =
     \<lparr>getPool = (\<lambda>provider m. Some provider),
      flashLoanSimple = (\<lambda>pool initiator receiver asset amount params cb m.
        map_option (Pair ()) (mk_flash pool initiator receiver asset amount params cb m)),
      token0_of = (\<lambda>P m. map_option fst (toks P)),
      token1_of = (\<lambda>P m. map_option snd (toks P)),
      getReserves = (\<lambda>P m. Some (mk_res m P)),
      swap_call = (\<lambda>P out0 out1 to m. map_option (Pair ()) (mk_swap toks P out0 out1 to m)),
      transfer_call = (\<lambda>T a to n m. map_option (Pair True) (mk_pay T a to n m)),
      approve_call = (\<lambda>T a spender n m.
        Some (True, m\<lparr>mk_allow := (mk_allow m)(T := (mk_allow m T)(a := (mk_allow m T a)(spender := n)))\<rparr>)),
      balanceOf = (\<lambda>T a m. Some (mk_bal m T a)),
      allowance = (\<lambda>T a b m. Some (mk_allow m T a b)),
      eth_balance = (\<lambda>a m. 0),
      send_eth = (\<lambda>a b n m. Some ((), m))\<rparr>"

lemma market_bal [simp]: "bal (market_evm toks) T a m = unat (mk_bal m T a)"
  by (simp add: bal_def market_evm_def)

lemma market_tokens [simp]: "same_tokens (market_evm toks) m m'"
  by (simp add: same_tokens_def market_evm_def)

lemma mk_pay_bal:
  assumes "mk_pay T a b n m = Some m'" "a \<noteq> b"
  shows "unat (mk_bal m' T' h) = unat (mk_bal m T' h) + (if T' = T \<and> h = b then unat n else 0) - (if T' = T \<and> h = a then unat n else 0)"
  using assms by (auto simp: mk_pay_def Let_def unat_add_fits unat_sub word_le_nat_alt split: if_splits)

lemma mk_pay_enough: "mk_pay T a b n m = Some m' \<Longrightarrow> unat n \<le> unat (mk_bal m T a)"
  by (auto simp: mk_pay_def word_le_nat_alt split: if_splits)

lemma mk_pay_self: "mk_pay T a a n m = Some m' \<Longrightarrow> mk_bal m' = mk_bal m"
  by (auto simp: mk_pay_def Let_def split: if_splits)

lemma mk_pay_res: "mk_pay T a b n m = Some m' \<Longrightarrow> mk_res m' = mk_res m"
  by (auto simp: mk_pay_def Let_def split: if_splits)

lemma market_calls [simp]:
  "transfer_call (market_evm toks) T a b n m = Some (ok, m') \<longleftrightarrow> ok \<and> mk_pay T a b n m = Some m'"
  "approve_call (market_evm toks) T a b n m = Some (ok, m') \<longleftrightarrow>
     ok \<and> m' = m\<lparr>mk_allow := (mk_allow m)(T := (mk_allow m T)(a := (mk_allow m T a)(b := n)))\<rparr>"
  "swap_call (market_evm toks) P out0 out1 to m = Some (u, m') \<longleftrightarrow> mk_swap toks P out0 out1 to m = Some m'"
  "flashLoanSimple (market_evm toks) pool a b T n params cb m = Some (u, m') \<longleftrightarrow> mk_flash pool a b T n params cb m = Some m'"
  "token0_of (market_evm toks) P m = map_option fst (toks P)" "token1_of (market_evm toks) P m = map_option snd (toks P)"
  "getReserves (market_evm toks) P m = Some (mk_res m P)" "balanceOf (market_evm toks) T a m = Some (mk_bal m T a)"
  "allowance (market_evm toks) T a b m = Some (mk_allow m T a b)"
  by (auto simp: market_evm_def)

lemma mk_pay_lowers:
  assumes "mk_pay T a b n m = Some m'"
  shows "unat (mk_bal m T' h) \<le> unat (mk_bal m' T' h) + (if T' = T \<and> h = a then unat n else 0)"
  using mk_pay_enough [OF assms] mk_pay_self assms by (cases "a = b") (auto simp: mk_pay_bal [OF assms])

lemma market_erc20: "erc20_ok (market_evm toks) T a"
proof -
  have "\<forall>T'. unat (mk_bal m T' a) \<le> unat (mk_bal m' T' a) + (if T' = T then unat n else 0)"
    if "mk_pay T a to n m = Some m'" for to n m m'
    using mk_pay_lowers [OF that, where h = a] by simp
  then have "\<forall>to n m b m'. transfer_call (market_evm toks) T a to n m = Some (b, m') \<longrightarrow> same_tokens (market_evm toks) m m' \<and>
      (\<forall>T'. bal (market_evm toks) T' a m \<le> bal (market_evm toks) T' a m' + (if T' = T then unat n else 0))"
    unfolding market_calls market_bal using market_tokens by blast
  then show ?thesis unfolding erc20_ok_def by simp
qed

lemma market_pair:
  assumes "P \<noteq> a"
  shows "pair_ok (market_evm toks) P a"
  unfolding pair_ok_def
proof (intro allI impI conjI)
  fix out0 out1 m m' T'
  assume "swap_call (market_evm toks) P out0 out1 a m = Some ((), m')"
  then obtain t0 t1 m1 m2 where t: "toks P = Some (t0, t1)" and p: "mk_pay t0 P a out0 m = Some m1" "mk_pay t1 P a out1 m1 = Some m2"
    and m': "mk_bal m' = mk_bal m2"
    by (auto simp: mk_swap_def split: bind_splits if_splits)
  show "same_tokens (market_evm toks) m m'" by simp
  show "bal (market_evm toks) T' a m + (if token0_of (market_evm toks) P m = Some T' then unat out0 else 0)
      \<le> bal (market_evm toks) T' a m'"
    "bal (market_evm toks) T' a m + (if token1_of (market_evm toks) P m = Some T' then unat out1 else 0)
      \<le> bal (market_evm toks) T' a m'"
    using assms by (auto simp: t m' mk_pay_bal [OF p(1)] mk_pay_bal [OF p(2)])
qed

lemma market_aave:
  assumes "pool \<noteq> a"
  shows "aave_ok (market_evm toks) pool a"
  unfolding aave_ok_def
proof (intro allI impI)
  fix asset amount params cb m m'
  let ?fee = "amount * 5 div 10000 :: u256"
  assume "flashLoanSimple (market_evm toks) pool a a asset amount params cb m = Some ((), m')"
  then obtain m1 m2 where p: "mk_pay asset pool a amount m = Some m1" "cb pool asset amount ?fee a params m1 = Inr (True, m2)"
    "mk_take asset a (amount + ?fee) m2 = Some m'"
    by (auto simp: mk_flash_def split: bind_splits sum.splits if_splits)
  have "unat (amount + ?fee) \<le> unat amount + unat ?fee" by (simp add: unat_word_ariths)
  then have "unat (mk_bal m2 T' a) \<le> unat (mk_bal m' T' a) + (if T' = asset then unat amount + unat ?fee else 0)" for T'
    using p(3) by (auto simp: mk_take_def unat_sub word_le_nat_alt split: if_splits)
  moreover have "unat (mk_bal m T' a) + (if T' = asset then unat amount else 0) \<le> unat (mk_bal m1 T' a)" for T'
    using assms by (simp add: mk_pay_bal [OF p(1)])
  ultimately show "\<exists>premium m1 m2. (\<forall>T'. bal (market_evm toks) T' a m + (if T' = asset then unat amount else 0) \<le> bal (market_evm toks) T' a m1) \<and>
      cb pool asset amount premium a params m1 = Inr (True, m2) \<and>
      (\<forall>T'. bal (market_evm toks) T' a m2 \<le> bal (market_evm toks) T' a m' + (if T' = asset then unat amount + unat premium else 0))"
    unfolding market_bal using p(2) by blast
qed

lemma mk_pay_Some:
  assumes "a \<noteq> b" "unat n \<le> unat (mk_bal m T a)" "unat (mk_bal m T b) + unat n < 2 ^ 256"
  shows "\<exists>m'. mk_pay T a b n m = Some m'"
  using assms by (simp add: mk_pay_def Let_def word_le_nat_alt)

lemma mk_pay_paid:
  assumes "mk_pay T a b n m = Some m'" "a \<noteq> b"
  shows "paid (market_evm toks) a b ((\<lambda>_. 0)(T := unat n)) m m'"
  by (simp add: paid_def mk_pay_bal [OF assms])

lemma market_reserves [simp]: "same_reserves (market_evm toks) Ps m m' \<longleftrightarrow> (\<forall>P\<in>Ps. mk_res m' P = mk_res m P)"
  by (simp add: same_reserves_def)

lemma market_erc20_moves: "erc20_moves (market_evm toks) T a"
  unfolding erc20_moves_def
proof (intro conjI allI impI)
  fix b m and n :: u256
  assume *: "a \<noteq> b" "unat n \<le> bal (market_evm toks) T a m" "bal (market_evm toks) T b m + unat n < 2 ^ 256"
  then obtain m' where "mk_pay T a b n m = Some m'" using mk_pay_Some [OF *(1), of n m T] by auto
  then show "\<exists>m'. transfer_call (market_evm toks) T a b n m = Some (True, m') \<and>
      paid (market_evm toks) a b ((\<lambda>_. 0)(T := unat n)) m m' \<and> same_reserves (market_evm toks) UNIV m m' \<and> same_tokens (market_evm toks) m m'"
    using mk_pay_paid *(1) mk_pay_res by (fastforce simp: market_calls)
qed (simp add: paid_def)

lemma market_pair_swaps: "pair_swaps (market_evm toks) P a"
  unfolding pair_swaps_def
proof (intro allI impI)
  fix out0 out1 :: u256 and m t0 t1 r0 r1
  assume ne: "P \<noteq> a" "t0 \<noteq> t1" and t: "token0_of (market_evm toks) P m = Some t0" "token1_of (market_evm toks) P m = Some t1"
    and r: "getReserves (market_evm toks) P m = Some (r0, r1)"
    and acc: "uniswap_accepts (unat r0) (unat r1) (bal (market_evm toks) t0 P m) (bal (market_evm toks) t1 P m) (unat out0) (unat out1)"
    and room: "bal (market_evm toks) t0 a m + unat out0 < 2 ^ 256" "bal (market_evm toks) t1 a m + unat out1 < 2 ^ 256"
  have toks: "toks P = Some (t0, t1)" using t by auto
  have le: "unat out0 \<le> unat (mk_bal m t0 P)" "unat out1 \<le> unat (mk_bal m t1 P)" using acc by (simp_all add: uniswap_accepts_def)
  obtain m1 where p1: "mk_pay t0 P a out0 m = Some m1" using mk_pay_Some [OF ne(1) le(1)] room(1) by auto
  have b1: "unat (mk_bal m1 t1 h) = unat (mk_bal m t1 h)" for h using ne by (simp add: mk_pay_bal [OF p1])
  obtain m2 where p2: "mk_pay t1 P a out1 m1 = Some m2"
    using mk_pay_Some [OF ne(1), of out1 m1 t1] le(2) room(2) b1 by auto
  define m' where "m' = m2\<lparr>mk_res := (mk_res m2)(P := (ucast (mk_bal m2 t0 P), ucast (mk_bal m2 t1 P)))\<rparr>"
  have "mk_swap toks P out0 out1 a m = Some m'"
    using toks p1 p2 acc r by (simp add: mk_swap_def m'_def)
  moreover have "paid (market_evm toks) P a ((\<lambda>_. 0)(t0 := unat out0, t1 := unat out1)) m m'"
    using ne by (simp add: paid_def m'_def mk_pay_bal [OF p2] mk_pay_bal [OF p1])
  moreover have "\<forall>Q \<in> - {P}. mk_res m' Q = mk_res m Q" by (simp add: m'_def mk_pay_res [OF p2] mk_pay_res [OF p1])
  ultimately show "\<exists>m'. swap_call (market_evm toks) P out0 out1 a m = Some ((), m') \<and>
      paid (market_evm toks) P a ((\<lambda>_. 0)(t0 := unat out0, t1 := unat out1)) m m' \<and>
      same_reserves (market_evm toks) (- {P}) m m' \<and> same_tokens (market_evm toks) m m'"
    by auto
qed

definition aave_premium :: "u256 \<Rightarrow> u256" where
  "aave_premium n = n * 5 div 10000"

lemma market_aave_lends:
  assumes "pool \<noteq> a"
  shows "aave_lends (market_evm toks) pool a aave_premium"
  unfolding aave_lends_def
proof (intro allI impI)
  fix asset params cb m and amount :: u256
  let ?V = "market_evm toks" and ?fee = "aave_premium amount"
  assume *: "unat amount \<le> bal ?V asset pool m" "bal ?V asset a m + unat amount < 2 ^ 256"
  then obtain m1 where p: "mk_pay asset pool a amount m = Some m1" using mk_pay_Some [OF assms, of amount m asset] by auto
  have take: "(\<exists>m'. mk_take asset a (amount + ?fee) m2 = Some m') \<longleftrightarrow> unat amount + unat ?fee \<le> unat (mk_bal m2 asset a)"
    if "unat amount + unat ?fee \<le> unat (w :: u256)" for m2 w
    using that unsigned_less [where w = w and ?'a = nat] by (simp add: mk_take_def word_le_nat_alt unat_add_fits)
  have "(\<exists>m'. flashLoanSimple ?V pool a a asset amount params cb m = Some ((), m')) \<longleftrightarrow>
      (\<exists>m2 w. cb pool asset amount ?fee a params m1 = Inr (True, m2) \<and> unat amount + unat ?fee \<le> bal ?V asset a m2 \<and>
         allowance ?V asset a pool m2 = Some w \<and> unat amount + unat ?fee \<le> unat w)"
    using take by (auto simp: mk_flash_def p aave_premium_def [symmetric] split: sum.splits)
  moreover have "same_reserves ?V UNIV m m1" using mk_pay_res [OF p] by simp
  ultimately show "\<exists>m1. paid ?V pool a ((\<lambda>_. 0)(asset := unat amount)) m m1 \<and> same_reserves ?V UNIV m m1 \<and> same_tokens ?V m m1 \<and>
      ((\<exists>m'. flashLoanSimple ?V pool a a asset amount params cb m = Some ((), m')) \<longleftrightarrow>
       (\<exists>m2 w. cb pool asset amount ?fee a params m1 = Inr (True, m2) \<and> unat amount + unat ?fee \<le> bal ?V asset a m2 \<and>
         allowance ?V asset a pool m2 = Some w \<and> unat amount + unat ?fee \<le> unat w))"
    using mk_pay_paid [OF p assms] market_tokens by blast
qed

section \<open>What the bot asks for\<close>

definition arb_call :: "arbitrage_opportunity \<Rightarrow> u256 \<Rightarrow> arb_params" where
  "arb_call opp least = \<lparr>tokenIn = opp_token_in opp, tokenOut = opp_token_out opp, poolA = opp_pool_a opp,
     poolB = opp_pool_b opp, amountIn = opp_input_amount opp, minProfit = least\<rparr>"

definition arb_calldata :: "eth_lib \<Rightarrow> arbitrage_opportunity \<Rightarrow> u256 \<Rightarrow> bytes" where
  "arb_calldata K opp least = build_execute_arb_calldata K (opp_token_in opp) (opp_token_out opp) (opp_pool_a opp)
     (opp_pool_b opp) (opp_input_amount opp) least"

lemma calldata_calls:
  assumes "calldata_ok K selector"
  shows "call_executeArb V C selector sender (arb_calldata K opp least) = executeArb V C sender (arb_call opp least)"
proof -
  have "arb_calldata K opp least = selector @ abi_encode (arb_call opp least)"
    using assms by (simp add: arb_calldata_def build_execute_arb_calldata_def arb_call_def calldata_ok_def)
  then have "call_decode selector (arb_calldata K opp least) = Some (arb_call opp least)"
    using assms abi_roundtrip [of "arb_call opp least" "[]"] by (simp add: call_decode_def calldata_ok_def)
  then show ?thesis by (simp add: fun_eq_iff call_executeArb_def bindC_def checkedC_def)
qed

text \<open>A pool of the store is the pair on the chain, with reserves and balances up to date and room to trade.\<close>

definition pool_live :: "'c evm \<Rightarrow> 'c \<Rightarrow> pool \<Rightarrow> bool" where
  "pool_live V c pl \<longleftrightarrow>
     token0_of V (pool_address pl) c = Some (token0 pl) \<and> token1_of V (pool_address pl) c = Some (token1 pl) \<and>
     (\<exists>r0 r1. getReserves V (pool_address pl) c = Some (r0, r1) \<and> reserve0 pl = ucast r0 \<and> reserve1 pl = ucast r1 \<and>
        bal V (token0 pl) (pool_address pl) c = unat r0 \<and> bal V (token1 pl) (pool_address pl) c = unat r1 \<and>
        unat r0 < 2 ^ 111 \<and> unat r1 < 2 ^ 111)"

lemma pool_live_shows:
  assumes "pool_live V c pl" "reserves_for_swap pl a b = Some (x, y)"
  shows "\<exists>r s. x = ucast r \<and> y = ucast s \<and> shows_pool V (pool_address pl) a b r s c \<and> unat r < 2 ^ 111 \<and> unat s < 2 ^ 111"
proof -
  from assms(1) obtain r0 r1 where r: "getReserves V (pool_address pl) c = Some (r0, r1)" "reserve0 pl = ucast r0" "reserve1 pl = ucast r1"
    "bal V (token0 pl) (pool_address pl) c = unat r0" "bal V (token1 pl) (pool_address pl) c = unat r1"
    "unat r0 < 2 ^ 111" "unat r1 < 2 ^ 111" unfolding pool_live_def by blast
  have t: "token0_of V (pool_address pl) c = Some (token0 pl)" "token1_of V (pool_address pl) c = Some (token1 pl)"
    using assms(1) by (simp_all add: pool_live_def)
  show ?thesis
  proof (cases "a = token0 pl \<and> b = token1 pl")
    case True
    then show ?thesis using assms(2) r t by (intro exI [of _ r0] exI [of _ r1]) (auto simp: reserves_for_swap_def shows_pool_def)
  next
    case False
    then show ?thesis
      using assms(2) r t by (intro exI [of _ r1] exI [of _ r0]) (auto simp: reserves_for_swap_def shows_pool_def split: if_splits)
  qed
qed

text \<open>The laws of the contracts a call touches, and its parties apart.\<close>

definition arb_laws :: "'c evm \<Rightarrow> arb_contract \<Rightarrow> arb_params \<Rightarrow> (u256 \<Rightarrow> u256) \<Rightarrow> bool" where
  "arb_laws V C p premium \<longleftrightarrow>
     erc20_moves V (tokenIn p) (ac_this C) \<and> erc20_moves V (tokenOut p) (ac_this C) \<and>
     pair_swaps V (poolA p) (ac_this C) \<and> pair_swaps V (poolB p) (ac_this C) \<and>
     aave_lends V (ac_aavePool C) (ac_this C) premium \<and>
     poolA p \<noteq> poolB p \<and> ac_this C \<notin> {poolA p, poolB p} \<and> ac_aavePool C \<notin> {ac_this C, poolA p, poolB p}"

lemma calculate_profit_returned:
  fixes xa ya xb yb :: "112 word"
  assumes nz: "xa \<noteq> 0" "ya \<noteq> 0" "xb \<noteq> 0" "yb \<noteq> 0" and "unat (amountIn p) < 2 ^ 112"
    and c: "calculate_profit (amountIn p) (ucast xa) (ucast ya) (ucast xb) (ucast yb) = Ret (Some pr)"
  shows "unat (amountIn p) + unat pr = arb_returned p xa ya xb yb"
proof -
  have l: "unat w < 2 ^ 112" for w :: "112 word" using unsigned_less [where w = w and ?'a = nat] by simp
  let ?m = "swap_out (unat (amountIn p)) (unat xa) (unat ya)"
  have "?m < unat ya" using nz by (intro swap_out_below) (simp_all add: unat_gt_0)
  then have "swap_fits (unat (amountIn p)) (unat xa) (unat ya)" "swap_fits ?m (unat xb) (unat yb)"
    using assms(5) l [of xa] l [of ya] l [of xb] l [of yb] by (auto intro!: uint112_fits)
  then show ?thesis
    using calculate_profit_Some [OF c] by (simp add: unat_ucast_112 arb_returned_def)
qed

lemma opportunity_runs:
  assumes b: "build_opportunity L pa pb t one_eth price = Ret (Some opp)" and t: "t \<noteq> WETH"
    and live: "pool_live V c pa" "pool_live V c pb"
    and laws: "arb_laws V C (arb_call opp least) premium" and pos: "0 < least"
    and lend: "unat one_eth \<le> bal V WETH (ac_aavePool C) c"
    and room: "bal V WETH (ac_this C) c < 2 ^ 255" "bal V t (ac_this C) c < 2 ^ 255"
  shows "\<exists>pr. opp_estimated_profit_usd opp = f64_mul (wei_to_eth_f64 L pr) price \<and>
    ((\<exists>c'. executeArb V C (ac_owner C) (arb_call opp least) c = Inr ((), c')) \<longleftrightarrow> unat (premium one_eth) + unat least \<le> unat pr)"
  using b
proof (cases rule: build_opportunity_Some)
  case (1 xa ya xb yb pr sa sb)
  let ?p = "arb_call opp least"
  have p: "tokenIn ?p = WETH" "tokenOut ?p = t" "poolA ?p = pool_address pa" "poolB ?p = pool_address pb"
    "amountIn ?p = one_eth" "minProfit ?p = least"
    using 1(8) by (simp_all add: arb_call_def)
  obtain ra sa' where A: "xa = ucast ra" "ya = ucast sa'" "shows_pool V (pool_address pa) WETH t ra sa' c" "unat ra < 2 ^ 111" "unat sa' < 2 ^ 111"
    using pool_live_shows [OF live(1) 1(1)] by blast
  obtain rb sb' where B: "xb = ucast rb" "yb = ucast sb'" "shows_pool V (pool_address pb) t WETH rb sb' c" "unat rb < 2 ^ 111" "unat sb' < 2 ^ 111"
    using pool_live_shows [OF live(2) 1(2)] by blast
  have "xa \<noteq> 0" "ya \<noteq> 0" "xb \<noteq> 0" "yb \<noteq> 0"
    using 1(3) by (auto simp: calculate_profit_def try_opt_Some_iff get_amount_out_def split: if_splits)
  then have nz: "ra \<noteq> 0" "sa' \<noteq> 0" "rb \<noteq> 0" "sb' \<noteq> 0" unfolding A(1,2) B(1,2) by auto
  have chain: "arb_chain V C ?p ra sa' rb sb' c"
    using laws nz A B t room(2) unfolding arb_chain_def arb_laws_def p unat_one_eth by auto
  have ret: "unat one_eth + unat pr = arb_returned ?p ra sa' rb sb'"
    using calculate_profit_returned [OF nz, of ?p pr] 1(3) unfolding A(1,2) B(1,2) p by (simp add: unat_one_eth)
  have "bal V WETH (ac_this C) c + unat one_eth + unat sb' < 2 ^ 256" using room(1) B(5) by (simp add: unat_one_eth)
  then have "(\<exists>c'. executeArb V C (ac_owner C) ?p c = Inr ((), c')) \<longleftrightarrow>
      unat one_eth + unat (premium one_eth) + unat least \<le> unat one_eth + unat pr"
    using executeArb_iff [OF chain, of premium] laws pos lend unfolding arb_laws_def p ret by blast
  then show ?thesis using 1(8) by (intro exI [of _ pr]) simp
qed

lemma executeArb_gains:
  assumes "executeArb V C sender p c = Inr ((), c')" "aave_ok V (ac_aavePool C) (ac_this C)"
    "erc20_ok V (tokenIn p) (ac_this C)" "erc20_ok V (tokenOut p) (ac_this C)"
    "pair_ok V (poolA p) (ac_this C)" "pair_ok V (poolB p) (ac_this C)"
  shows "sender = ac_owner C \<and> 0 < unat (minProfit p) \<and>
    bal V T (ac_this C) c + (if tokenIn p = T then unat (minProfit p) else 0) \<le> bal V T (ac_this C) c'"
proof -
  let ?a = "ac_this C" and ?T = "tokenIn p"
  have g: "sender = ac_owner C" "0 < minProfit p" "?T \<noteq> tokenOut p"
    and f: "flashLoanSimple V (ac_aavePool C) ?a ?a ?T (amountIn p) (abi_encode p) (executeOperation V C) c = Some ((), c')"
    using assms(1) by (auto simp: executeArb_def onlyOwner_def bindC_Inr_iff)
  obtain premium c1 c2 where lent: "\<And>T. bal V T ?a c + (if T = ?T then unat (amountIn p) else 0) \<le> bal V T ?a c1"
    and cb: "executeOperation V C (ac_aavePool C) ?T (amountIn p) premium ?a (abi_encode p) c1 = Inr (True, c2)"
    and back_paid: "\<And>T. bal V T ?a c2 \<le> bal V T ?a c' + (if T = ?T then unat (amountIn p) + unat premium else 0)"
    using assms(2) f unfolding aave_ok_def by meson
  have "\<And>T. bal V T ?a c1 + (if T = ?T then unat premium + unat (minProfit p) else 0) \<le> bal V T ?a c2"
    using executeOperation_balances [OF cb g(3) assms(3-6)] by blast
  then have "bal V T ?a c + (if ?T = T then unat (minProfit p) else 0) \<le> bal V T ?a c'"
    using lent [of T] back_paid [of T] by (fastforce split: if_splits)
  then show ?thesis using g by (simp add: word_less_nat_alt)
qed

section \<open>Properties\<close>

text \<open>
  C4: a call of \<^verbatim>\<open>executeArb\<close> that does not revert was made by the owner and leaves the contract with at
  least the requested, positive profit more of the traded token and with no less of any other: the loan,
  its premium and both swaps are paid for out of the trade itself, whatever pools the parameters name.
\<close>

theorem executeArb_profits:
  assumes "executeArb V C sender p c = Inr ((), c')" "aave_ok V (ac_aavePool C) (ac_this C)"
    "erc20_ok V (tokenIn p) (ac_this C)" "erc20_ok V (tokenOut p) (ac_this C)"
    "pair_ok V (poolA p) (ac_this C)" "pair_ok V (poolB p) (ac_this C)"
  shows "sender = ac_owner C \<and> 0 < unat (minProfit p) \<and>
    bal V (tokenIn p) (ac_this C) c + unat (minProfit p) \<le> bal V (tokenIn p) (ac_this C) c' \<and>
    (\<forall>T. bal V T (ac_this C) c \<le> bal V T (ac_this C) c')"
proof -
  have "bal V T (ac_this C) c \<le> bal V T (ac_this C) c'" for T using executeArb_gains [OF assms, of T] by linarith
  then show ?thesis using executeArb_gains [OF assms, of "tokenIn p"] by simp
qed

definition demo_toks :: "address \<Rightarrow> (address \<times> address) option" where
  "demo_toks P = (if P = 1 \<or> P = 2 then Some (USDC, WETH) else None)"

definition demo_contract :: arb_contract where
  "demo_contract = \<lparr>ac_this = 900, ac_owner = 901, ac_aavePool = 902\<rparr>"

definition demo_market :: "u256 \<Rightarrow> u256 \<Rightarrow> u256 \<Rightarrow> u256 \<Rightarrow> market" where
  "demo_market u1 e1 u2 e2 =
     \<lparr>mk_bal = (\<lambda>T a. if a = 1 then (if T = USDC then u1 else e1) else if a = 2 then (if T = USDC then u2 else e2)
                   else if a = 902 then one_eth else 0),
      mk_res = (\<lambda>P. if P = 1 then (ucast u1, ucast e1) else (ucast u2, ucast e2)),
      mk_allow = (\<lambda>T a b. 0)\<rparr>"

lemma uint111_small:
  fixes u :: u256
  assumes "u < 2 ^ 111"
  shows "unat (ucast u :: 112 word) = unat u" "ucast (ucast u :: 112 word) = u" "unat u < 2 ^ 111"
proof -
  show b: "unat u < 2 ^ 111" using assms by (simp add: word_less_nat_alt)
  then show e: "unat (ucast u :: 112 word) = unat u" by (simp add: unsigned_ucast_eq take_bit_nat_eq_self)
  show "ucast (ucast u :: 112 word) = u" by (rule word_unat_eq_iff [THEN iffD2]) (simp add: unat_ucast_112 e)
qed

lemma demo_market_live:
  assumes "u1 < 2 ^ 111" "e1 < 2 ^ 111" "u2 < 2 ^ 111" "e2 < 2 ^ 111"
  shows "pool_live (market_evm demo_toks) (demo_market u1 e1 u2 e2) (demo_pool 1 u1 e1)"
    "pool_live (market_evm demo_toks) (demo_market u1 e1 u2 e2) (demo_pool 2 u2 e2)"
proof -
  have "WETH \<noteq> USDC" by (simp add: WETH_def USDC_def)
  then show "pool_live (market_evm demo_toks) (demo_market u1 e1 u2 e2) (demo_pool 1 u1 e1)"
    "pool_live (market_evm demo_toks) (demo_market u1 e1 u2 e2) (demo_pool 2 u2 e2)"
    using uint111_small [OF assms(1)] uint111_small [OF assms(2)] uint111_small [OF assms(3)] uint111_small [OF assms(4)]
    by (simp_all add: pool_live_def demo_pool_def demo_market_def demo_toks_def)
qed

lemma demo_market_funds:
  "unat one_eth \<le> bal (market_evm demo_toks) WETH (ac_aavePool demo_contract) (demo_market u1 e1 u2 e2)"
  "bal (market_evm demo_toks) T (ac_this demo_contract) (demo_market u1 e1 u2 e2) < 2 ^ 255"
  by (simp_all add: demo_contract_def demo_market_def)

lemma demo_laws:
  assumes "poolA p \<in> {1, 2}" "poolB p \<in> {1, 2}" "poolA p \<noteq> poolB p"
  shows "arb_laws (market_evm demo_toks) demo_contract p aave_premium"
  using assms market_erc20_moves market_pair_swaps market_aave_lends [of 902 900]
  by (auto simp: arb_laws_def demo_contract_def)

lemma scan_pairs_route:
  assumes "scan_pairs L st pairs price = Ret opps" "opp \<in> set opps"
  shows "\<exists>a b pa pb t. ((a, b) \<in> set pairs \<or> (b, a) \<in> set pairs) \<and> store_get st a = Some pa \<and> store_get st b = Some pb \<and>
    t \<in> {USDC, DAI} \<and> build_opportunity L pa pb t one_eth price = Ret (Some opp)"
proof -
  obtain a b where ab: "(a, b) \<in> set pairs" "scan_pair L st price (a, b) = Ret (Some opp)"
    using scan_pairs_elem [OF assms] by auto
  obtain pa pb t where p: "store_get st a = Some pa" "store_get st b = Some pb"
    "stable_token_out (token0 pa) (token1 pa) (token0 pb) (token1 pb) = Some t"
    "best_direction L pa pb t price opp \<or> best_direction L pb pa t price opp"
    using scan_pair_Some [OF ab(2)] by blast
  then show ?thesis using ab(1) stable_token_out_Some [OF p(3)] unfolding best_direction_def by blast
qed


lemma demo_scan_pools:
  assumes "scan_pairs L st [(1, 2)] price = Ret opps" "opp \<in> set opps"
    "\<And>a. store_get st a = (if a = 1 then Some (demo_pool 1 u1 e1) else if a = 2 then Some (demo_pool 2 u2 e2) else None)"
  shows "arb_laws (market_evm demo_toks) demo_contract (arb_call opp least) aave_premium"
proof -
  obtain a b pa pb t where r: "(a, b) = (1, 2) \<or> (b, a) = (1, 2)" "store_get st a = Some pa" "store_get st b = Some pb"
    "build_opportunity L pa pb t one_eth price = Ret (Some opp)"
    using scan_pairs_route [OF assms(1,2)] unfolding list.set by blast
  have "opp_pool_a opp = pool_address pa" "opp_pool_b opp = pool_address pb" using r(4) by (cases rule: build_opportunity_Some; simp)+
  then show ?thesis using r(1-3) by (intro demo_laws) (auto simp: arb_call_def assms(3) demo_pool_def)
qed

definition demo_chain :: market where
  "demo_chain = demo_market 3000000000000 1000000000000000000000 3300000000000 1000000000000000000000"

lemma demo_chain_facts:
  "\<forall>a pl. store_get demo_store a = Some pl \<longrightarrow> pool_live (market_evm demo_toks) demo_chain pl"
  "unat one_eth \<le> bal (market_evm demo_toks) WETH (ac_aavePool demo_contract) demo_chain"
  "bal (market_evm demo_toks) T (ac_this demo_contract) demo_chain < 2 ^ 255"
proof -
  show "\<forall>a pl. store_get demo_store a = Some pl \<longrightarrow> pool_live (market_evm demo_toks) demo_chain pl"
    unfolding demo_chain_def demo_store_get by (auto split: if_splits intro!: demo_market_live)
qed (simp_all only: demo_chain_def demo_market_funds)

definition demo_eth :: eth_lib where
  "demo_eth = eth_ref\<lparr>abi_encode_executeArb := (\<lambda>p. [1, 2, 3, 4] @ abi_encode p)\<rparr>"

lemma demo_eth_ok: "calldata_ok demo_eth [1, 2, 3, 4]"
  by (simp add: demo_eth_def calldata_ok_def)


definition demo_params :: arb_params where
  "demo_params = \<lparr>tokenIn = WETH, tokenOut = USDC, poolA = 2, poolB = 1, amountIn = one_eth, minProfit = 1\<rparr>"

text \<open>A call that buys at pool 2 and sells at pool 1 of such a market.\<close>

lemma demo_market_call:
  fixes u1 e1 u2 e2 :: u256
  assumes b: "u1 < 2 ^ 111" "e1 < 2 ^ 111" "u2 < 2 ^ 111" "e2 < 2 ^ 111" and nz: "u1 \<noteq> 0" "e1 \<noteq> 0" "u2 \<noteq> 0" "e2 \<noteq> 0"
  shows "(\<exists>m'. executeArb (market_evm demo_toks) demo_contract 901 demo_params (demo_market u1 e1 u2 e2) = Inr ((), m')) \<longleftrightarrow>
    unat one_eth + unat (aave_premium one_eth) + 1 \<le> swap_out (swap_out (unat one_eth) (unat e2) (unat u2)) (unat u1) (unat e1)"
proof -
  let ?V = "market_evm demo_toks" and ?p = demo_params and ?m = "demo_market u1 e1 u2 e2"
  have w: "WETH \<noteq> USDC" by (simp add: WETH_def USDC_def)
  note small = uint111_small [OF b(1)] uint111_small [OF b(2)] uint111_small [OF b(3)] uint111_small [OF b(4)]
  have "arb_chain ?V demo_contract ?p (ucast e2) (ucast u2) (ucast u1) (ucast e1) ?m"
    unfolding arb_chain_def shows_pool_def
    using w market_erc20_moves market_pair_swaps nz small
    by (auto simp: demo_params_def demo_market_def demo_contract_def demo_toks_def unat_one_eth simp flip: unat_eq_zero)
  moreover have "aave_lends ?V (ac_aavePool demo_contract) (ac_this demo_contract) aave_premium"
    by (rule market_aave_lends) (simp add: demo_contract_def)
  ultimately have "(\<exists>m'. executeArb ?V demo_contract (ac_owner demo_contract) ?p ?m = Inr ((), m')) \<longleftrightarrow>
      unat (amountIn ?p) + unat (aave_premium (amountIn ?p)) + unat (minProfit ?p) \<le> arb_returned ?p (ucast e2) (ucast u2) (ucast u1) (ucast e1)"
    using small
    by (intro executeArb_iff) (simp_all add: demo_params_def demo_contract_def demo_market_def unat_one_eth)
  then show ?thesis
    using small by (simp add: arb_returned_def demo_params_def demo_contract_def)
qed

lemma demo_run: "\<exists>m'. executeArb (market_evm demo_toks) demo_contract 901 demo_params demo_chain = Inr ((), m')"
  unfolding demo_chain_def by (subst demo_market_call) (simp_all add: swap_out_def aave_premium_def one_eth_def word_less_nat_alt)

theorem executeArb_profits_witness:
  "\<exists>m'. executeArb (market_evm demo_toks) demo_contract 901 demo_params demo_chain = Inr ((), m') \<and>
    bal (market_evm demo_toks) WETH 900 demo_chain + unat (1 :: u256) \<le> bal (market_evm demo_toks) WETH 900 m' \<and>
    bal (market_evm demo_toks) USDC 900 demo_chain \<le> bal (market_evm demo_toks) USDC 900 m'"
proof -
  obtain m' where r: "executeArb (market_evm demo_toks) demo_contract 901 demo_params demo_chain = Inr ((), m')"
    using demo_run by blast
  have "aave_ok (market_evm demo_toks) (ac_aavePool demo_contract) (ac_this demo_contract)"
    "pair_ok (market_evm demo_toks) (poolA demo_params) (ac_this demo_contract)"
    "pair_ok (market_evm demo_toks) (poolB demo_params) (ac_this demo_contract)"
    by (rule market_aave market_pair; simp add: demo_contract_def demo_params_def)+
  from executeArb_profits [OF r this(1) market_erc20 market_erc20 this(2,3)] r show ?thesis
    by (auto simp: demo_contract_def demo_params_def)
qed

section \<open>The contract over time\<close>

text \<open>
  What can happen to the contract, one transaction after the other: anybody calls \<^verbatim>\<open>executeArb\<close> or
  \<^verbatim>\<open>withdraw\<close>, the call goes through or reverts, and in between the rest of the chain moves on
  without taking the contract's tokens. A list of the trades that went through and of the withdrawals
  (token and amount) is kept.
\<close>

datatype arb_event = Traded arb_params | Withdrawn address nat

inductive arb_run :: "'c evm \<Rightarrow> arb_contract \<Rightarrow> 'c \<Rightarrow> arb_event list \<Rightarrow> 'c \<Rightarrow> bool" for V C where
  start: "arb_run V C c [] c"
| trade: "arb_run V C c es c1 \<Longrightarrow> executeArb V C sender p c1 = Inr ((), c2) \<Longrightarrow> arb_run V C c (Traded p # es) c2"
| withdrawal: "arb_run V C c es c1 \<Longrightarrow> withdraw V C sender T c1 = Inr ((), c2) \<Longrightarrow>
    arb_run V C c (Withdrawn T (bal V T (ac_this C) c1) # es) c2"
| reverted: "arb_run V C c es c1 \<Longrightarrow> executeArb V C sender p c1 = Inl e \<or> withdraw V C sender T c1 = Inl e \<Longrightarrow> arb_run V C c es c1"
| elsewhere: "arb_run V C c es c1 \<Longrightarrow> (\<And>T. bal V T (ac_this C) c1 \<le> bal V T (ac_this C) c2) \<Longrightarrow> arb_run V C c es c2"

fun event_ok :: "'c evm \<Rightarrow> arb_contract \<Rightarrow> arb_event \<Rightarrow> bool" where
  "event_ok V C (Traded p) \<longleftrightarrow> erc20_ok V (tokenIn p) (ac_this C) \<and> erc20_ok V (tokenOut p) (ac_this C) \<and>
     pair_ok V (poolA p) (ac_this C) \<and> pair_ok V (poolB p) (ac_this C)"
| "event_ok V C (Withdrawn T n) \<longleftrightarrow> erc20_ok V T (ac_this C)"

fun earned :: "address \<Rightarrow> arb_event \<Rightarrow> nat" where
  "earned T (Traded p) = (if tokenIn p = T then unat (minProfit p) else 0)"
| "earned T (Withdrawn T' n) = 0"

fun taken_out :: "address \<Rightarrow> arb_event \<Rightarrow> nat" where
  "taken_out T (Traded p) = 0"
| "taken_out T (Withdrawn T' n) = (if T' = T then n else 0)"

lemma withdraw_Inr:
  assumes "withdraw V C sender T c = Inr ((), c')"
  shows "sender = ac_owner C \<and> 0 < bal V T (ac_this C) c \<and>
    (\<exists>n. transfer_call V T (ac_this C) (ac_owner C) n c = Some (True, c') \<and> unat n = bal V T (ac_this C) c)"
  using assms by (auto simp: withdraw_def onlyOwner_def bindC_Inr_iff bal_def word_less_nat_alt)

lemma withdraw_balances:
  assumes "withdraw V C sender T c = Inr ((), c')" "erc20_ok V T (ac_this C)"
  shows "bal V T' (ac_this C) c \<le> bal V T' (ac_this C) c' + (if T' = T then bal V T (ac_this C) c else 0)"
proof -
  obtain n where n: "transfer_call V T (ac_this C) (ac_owner C) n c = Some (True, c')" "unat n = bal V T (ac_this C) c"
    using withdraw_Inr [OF assms(1)] by blast
  have "bal V T' (ac_this C) c \<le> bal V T' (ac_this C) c' + (if T' = T then unat n else 0)"
    using assms(2) n(1) unfolding erc20_ok_def by blast
  then show ?thesis by (simp only: n(2))
qed



text \<open>
  Whoever is not the owner can neither trade, withdraw tokens nor take the ether; the callback refuses every
  caller but the Aave pool, and also the pool when the loan was started by somebody else.
\<close>

theorem entry_points_guarded:
  "(sender \<noteq> ac_owner C \<longrightarrow> executeArb V C sender p c = Inl (Revert ''Not owner'') \<and>
     withdraw V C sender token c = Inl (Revert ''Not owner'') \<and> rescueEth V C sender c = Inl (Revert ''Not owner'')) \<and>
   (caller \<noteq> ac_aavePool C \<longrightarrow>
     executeOperation V C caller asset amount premium initiator params c = Inl (Revert ''Caller not Aave pool'')) \<and>
   (initiator \<noteq> ac_this C \<longrightarrow>
     executeOperation V C (ac_aavePool C) asset amount premium initiator params c = Inl (Revert ''Initiator not self''))"
  by (simp add: executeArb_def withdraw_def rescueEth_def executeOperation_def onlyOwner_def bindC_def require_def)

section \<open>The premium the bot leaves out\<close>

definition thin_store :: pool_store where
  "thin_store = upsert_pool (demo_pool 1 3000000000000000 1000000000000000000000000)
     (upsert_pool (demo_pool 2 3019350000000000 1000000000000000000000000) PoolStore_new)"

definition thin_chain :: market where
  "thin_chain = demo_market 3000000000000000 1000000000000000000000000 3019350000000000 1000000000000000000000000"

definition thin_gas :: gas_estimate where
  "thin_gas = \<lparr>base_fee_gwei = f64_of_int 1, priority_fee_gwei = F64_Zero False, recommended_total_gwei = f64_of_int 1\<rparr>"

lemma thin_store_get: "store_get thin_store a =
    (if a = 1 then Some (demo_pool 1 3000000000000000 1000000000000000000000000)
     else if a = 2 then Some (demo_pool 2 3019350000000000 1000000000000000000000000) else None)"
  unfolding thin_store_def by (auto simp: store.look_put store.look_empty demo_pool_def)

lemma two_pool_scan:
  assumes st: "\<And>a. store_get st a = (if a = 1 then Some (demo_pool 1 u1 e1) else if a = 2 then Some (demo_pool 2 u2 e2) else None)"
    and gain: "calculate_profit one_eth e2 u2 u1 e1 = Ret (Some pr)" "calculate_profit one_eth e1 u1 u2 e2 = Ret None"
    and nz: "u1 \<noteq> 0" "e1 \<noteq> 0" "u2 \<noteq> 0" "e2 \<noteq> 0" "pr \<noteq> 0"
    and est: "usd = f64_mul (f64_div (f64_of_int (int (unat pr))) (f64_of_int 1000000000000000000)) price" "\<not> f64_le usd (F64_Zero False)"
  shows "\<exists>opp. scan_pairs alloy_ref st [(1, 2)] price = Ret [opp] \<and> opp_estimated_profit_usd opp = usd \<and> arb_call opp 1 = demo_params"
proof -
  have tok: "WETH \<noteq> USDC" "USDC \<noteq> WETH" "USDC \<noteq> 0" "WETH \<noteq> 0" by (simp_all add: WETH_def USDC_def)
  have r: "reserves_for_swap (demo_pool a r0 r1) WETH USDC = Some (r1, r0)"
    "reserves_for_swap (demo_pool a r0 r1) USDC WETH = Some (r0, r1)" for a r0 r1
    using tok by (simp_all add: reserves_for_swap_def demo_pool_def)
  have addr: "pool_address (demo_pool a r0 r1) = a" for a r0 r1 by (simp add: demo_pool_def)
  have wei: "f64_mul (wei_to_eth_f64 alloy_ref pr) price = usd"
    by (simp add: wei_to_eth_f64_def alloy_ref_def f64_parse_dec_string est)
  have "build_opportunity alloy_ref (demo_pool 1 u1 e1) (demo_pool 2 u2 e2) USDC 1000000000000000000 price = Ret None"
    "\<exists>opp. build_opportunity alloy_ref (demo_pool 2 u2 e2) (demo_pool 1 u1 e1) USDC 1000000000000000000 price = Ret (Some opp) \<and>
       opp_estimated_profit_usd opp = usd \<and> arb_call opp 1 = demo_params"
    using gain nz est(2) unfolding one_eth_def
    by (simp_all add: build_opportunity_def r wei get_spot_price_def u256_div_def Let_def arb_call_def demo_params_def addr one_eth_def)
  moreover have "stable_token_out (token0 (demo_pool a x y)) (token1 (demo_pool a x y))
      (token0 (demo_pool b u v)) (token1 (demo_pool b u v)) = Some USDC" for a x y b u v
    using tok by (simp add: stable_token_out_def demo_pool_def)
  ultimately show ?thesis by (auto simp: scan_pair_def st)
qed


end
