(* ===== verification/Unit_Checks.thy ===== *)
theory Unit_Checks
  imports Arb_Contract Gas_Oracle Profit_Sim Database
begin

text \<open>
  The unit tests of the repository, one definition per \<^verbatim>\<open>#[test]\<close> with its inputs and assertions, on the
  definitions of the development. They are shown to pass with every library that behaves as documented,
  not only with one: any numbers the clock shows as long as it does not go back, any selector.
\<close>

section \<open>amm.rs\<close>

definition get_amount_out_zero_amount_returns_zero :: bool where
  "get_amount_out_zero_amount_returns_zero \<longleftrightarrow> get_amount_out 0 1000 1000 = Ret (Some 0)"

definition get_amount_out_zero_reserve_returns_none :: bool where
  "get_amount_out_zero_reserve_returns_none \<longleftrightarrow> get_amount_out 1 0 1 = Ret None"

definition calculate_profit_equal_prices_returns_none :: bool where
  "calculate_profit_equal_prices_returns_none \<longleftrightarrow> calculate_profit 1000 10000 10000 10000 10000 = Ret None"

definition get_spot_price_scaled_to_18_decimals :: bool where
  "get_spot_price_scaled_to_18_decimals \<longleftrightarrow> get_spot_price 2 3 = Ret (Some 1500000000000000000)"

definition calculate_profit_when_pool_a_cheaper_is_positive :: bool where
  "calculate_profit_when_pool_a_cheaper_is_positive \<longleftrightarrow>
     (case calculate_profit 100 10000 20000 10000 25000 of Ret (Some p) \<Rightarrow> p > 0 | _ \<Rightarrow> False)"

lemmas amm_test_defs = get_amount_out_zero_amount_returns_zero_def get_amount_out_zero_reserve_returns_none_def
  calculate_profit_equal_prices_returns_none_def get_spot_price_scaled_to_18_decimals_def
  calculate_profit_when_pool_a_cheaper_is_positive_def

definition amm_tests :: bool where
  "amm_tests \<longleftrightarrow> get_amount_out_zero_amount_returns_zero \<and> get_amount_out_zero_reserve_returns_none \<and>
     calculate_profit_equal_prices_returns_none \<and> get_spot_price_scaled_to_18_decimals \<and>
     calculate_profit_when_pool_a_cheaper_is_positive"

lemma amm_tests_pass: "amm_tests"
  unfolding amm_tests_def amm_test_defs
  by (simp add: calculate_profit_def get_amount_out_def get_spot_price_def u256_div_def u256_pow10_eq word_less_nat_alt)

section \<open>sync.rs, node.rs\<close>

definition decode_sync_reserves_decodes_two_words :: "alloy \<Rightarrow> bool" where
  "decode_sync_reserves_decodes_two_words L \<longleftrightarrow>
     decode_sync_reserves L (be_bytes 32 1 @ be_bytes 32 2) = Some (1, 2)"

definition decode_sync_log_decodes_address_reserves_and_block :: "alloy \<Rightarrow> bool" where
  "decode_sync_log_decodes_address_reserves_and_block L \<longleftrightarrow>
     (let pool = 0xB4e16d0168e52d35CaCD2c6185b44281Ec28C9Dc;
          data = be_bytes 32 123 @ be_bytes 32 456;
          lg = \<lparr>log_address = pool, log_topics = [SYNC_TOPIC], log_data = data, log_block_number = Some 21847393\<rparr>
      in decode_sync_log L lg = Some (pool, 123, 456, 21847393))"

definition mock_ws_new_heads_parses_block_header :: bool where
  "mock_ws_new_heads_parses_block_header \<longleftrightarrow>
     (let head = \<lparr>bh_number = 0x14d5d61, bh_timestamp = 0x67fe736c, bh_base_fee_per_gas = Some 0x3b9aca00\<rparr>
      in get_next_head \<lparr>ws_connect = Inr (), ws_subscribe = Inr (), ws_stream = [head]\<rparr>
           = Inr (21847393, 1744728940, Some 1000000000))"

definition sync_tests :: "alloy \<Rightarrow> bool" where
  "sync_tests L \<longleftrightarrow> decode_sync_reserves_decodes_two_words L \<and> decode_sync_log_decodes_address_reserves_and_block L \<and>
     mock_ws_new_heads_parses_block_header"

lemma sync_tests_pass:
  assumes "be_slice_ok L"
  shows "sync_tests L"
proof -
  have "from_be_slice L (be_bytes 32 n) = word_of_nat n" if "n < 2 ^ 256" for n
    using assms that be_value_be_bytes [of 32 n] by (simp add: be_slice_ok_def)
  then have "decode_sync_reserves L (be_bytes 32 m @ be_bytes 32 n) = Some (word_of_nat m, word_of_nat n)"
    if "m < 2 ^ 256" "n < 2 ^ 256" for m n
    using that by (simp add: decode_sync_reserves_def)
  from this [of 1 2] this [of 123 456] show ?thesis
    by (simp add: sync_tests_def decode_sync_reserves_decodes_two_words_def mock_ws_new_heads_parses_block_header_def
        decode_sync_log_decodes_address_reserves_and_block_def decode_sync_log_def get_next_head_def Let_def)
qed

section \<open>gas/lib.rs\<close>

definition f64_abs :: "f64 \<Rightarrow> f64" where
  "f64_abs x = (case x of F64_Zero s \<Rightarrow> F64_Zero False | F64_Inf s \<Rightarrow> F64_Inf False | F64_NaN \<Rightarrow> F64_NaN
                | F64_Fin s m e \<Rightarrow> F64_Fin False m e)"

text \<open>A decimal literal \<open>m\<close> times ten to the \<open>e\<close>, and the comparison of floats up to a tolerance.\<close>

definition f64_lit :: "nat \<Rightarrow> int \<Rightarrow> f64" where
  "f64_lit m e = f64_decimal False m e"

definition close_to :: "f64 \<Rightarrow> f64 \<Rightarrow> f64 \<Rightarrow> bool" where
  "close_to x y eps \<longleftrightarrow> f64_lt (f64_abs (f64_sub x y)) eps"

definition ring_buffer_stores_exactly_100_samples :: bool where
  "ring_buffer_stores_exactly_100_samples \<longleftrightarrow>
     (let oracle1 = fold (\<lambda>i. push_sample (word_of_nat i) (word_of_nat i)) [0..<150] GasOracle_new
      in length (base_fee_history_wei oracle1) = 100 \<and> hd (base_fee_history_wei oracle1) = 50 \<and>
         last (base_fee_history_wei oracle1) = 149 \<and> length (priority_fee_history_wei oracle1) = 100)"

definition recommended_priority_fee_returns_p90_of_last_20 :: bool where
  "recommended_priority_fee_returns_p90_of_last_20 \<longleftrightarrow>
     (let oracle1 = fold (\<lambda>i. push_sample 1 (word_of_nat i)) [0..<25] GasOracle_new
      in get_recommended_priority_fee oracle1 = Ret 22)"

definition estimate_gas_cost_usd_returns_correct_usd :: bool where
  "estimate_gas_cost_usd_returns_correct_usd \<longleftrightarrow>
     (let oracle1 = push_sample 10000000000 1000000000 GasOracle_new
      in case estimate_gas_cost_usd 200000 (f64_of_int 3000) oracle1 of
           Panicked \<Rightarrow> False | Ret cost \<Rightarrow> close_to cost (f64_lit 66 (- 1)) (f64_lit 1 (- 6)))"

definition gas_tests :: bool where
  "gas_tests \<longleftrightarrow> ring_buffer_stores_exactly_100_samples \<and> recommended_priority_fee_returns_p90_of_last_20 \<and>
     estimate_gas_cost_usd_returns_correct_usd"

lemma gas_cost_test: "estimate_gas_cost_usd_returns_correct_usd"
proof -
  let ?o = "push_sample 10000000000 1000000000 GasOracle_new"
  have "p90_index 1 = 0" by (simp add: p90_value)
  moreover have "ucast (- 1 :: u64) = (18446744073709551615 :: u128)" by code_simp
  ultimately have "get_recommended_priority_fee ?o = Ret 1000000000" "last_base_fee_wei ?o = 10000000000"
    by (simp_all add: get_recommended_priority_fee_def push_sample_def GasOracle_new_def u128_to_u64_saturating_def Let_def)
  then have "estimate_gas_cost_usd 200000 (f64_of_int 3000) ?o = Ret (f64_mul (f64_div (f64_mul (f64_of_int 200000)
      (f64_of_int 11000000000)) (f64_of_int 1000000000000000000)) (f64_of_int 3000))"
    by (simp add: estimate_gas_cost_usd_def f64_of_word_def u128_saturating_add_def Let_def)
  moreover have "close_to (f64_mul (f64_div (f64_mul (f64_of_int 200000)
      (f64_of_int 11000000000)) (f64_of_int 1000000000000000000)) (f64_of_int 3000)) (f64_lit 66 (- 1)) (f64_lit 1 (- 6))"
    by code_simp
  ultimately show ?thesis by (simp add: estimate_gas_cost_usd_returns_correct_usd_def Let_def)
qed

lemma gas_tests_pass: "gas_tests"
proof -
  have "fold (\<lambda>i. push_sample (word_of_nat i) (word_of_nat i)) is GasOracle_new
      = oracle_of (map (\<lambda>i. (word_of_nat i, word_of_nat i)) is)" for "is"
    using push_all_new [of "map (\<lambda>i. (word_of_nat i, word_of_nat i)) is"] by (simp add: push_all_def fold_map comp_def)
  then have ring: "fold (\<lambda>i. push_sample (word_of_nat i) (word_of_nat i)) [0..<150] GasOracle_new
      = oracle_of (map (\<lambda>i. (word_of_nat i, word_of_nat i)) [0..<150])" by blast
  define ws :: "u128 list" where "ws = lastn 100 (map word_of_nat [0..<150])"
  have e: "150 - 0 - 100 = (50 :: nat)" by simp
  have "ws = map word_of_nat [50..<150]" unfolding ws_def lastn_def length_map length_upt drop_map drop_upt by (simp only: e add_0)
  then have "length ws = 100" "hd ws = 50" "last ws = 149"
    by (simp_all only: length_map length_upt) (simp_all add: hd_map last_map del: upt_rec_numeral)
  then have "ring_buffer_stores_exactly_100_samples"
    unfolding ring_buffer_stores_exactly_100_samples_def Let_def ring oracle_of_def gas_oracle.select_convs map_map comp_def
      fst_conv snd_conv ws_def [symmetric] by blast
  moreover have "recommended_priority_fee_returns_p90_of_last_20" by code_simp
  moreover have "estimate_gas_cost_usd_returns_correct_usd" by (rule gas_cost_test)
  ultimately show ?thesis by (simp add: gas_tests_def)
qed

section \<open>sim/lib.rs\<close>

definition sim_opp :: "f64 \<Rightarrow> f64 \<Rightarrow> i64 \<Rightarrow> arbitrage_opportunity" where
  "sim_opp profit gas bps = \<lparr>opp_pool_a = 0, opp_pool_b = 0, opp_token_in = 0, opp_token_out = 0, opp_input_amount = 1,
     opp_estimated_profit_usd = profit, opp_gas_estimate_usd = gas, opp_spread_bps = bps\<rparr>"

definition net_profit_above_threshold_returns_go :: bool where
  "net_profit_above_threshold_returns_go \<longleftrightarrow>
     is_go (evaluate (sim_opp (f64_of_int 20) (f64_of_int 2) 10)
       \<lparr>base_fee_gwei = f64_of_int 10, priority_fee_gwei = f64_of_int 1, recommended_total_gwei = f64_of_int 11\<rparr>
       (f64_of_int 3000) (f64_of_int 5))"

definition net_profit_below_threshold_returns_no_go :: bool where
  "net_profit_below_threshold_returns_no_go \<longleftrightarrow>
     \<not> is_go (evaluate (sim_opp (f64_of_int 3) (f64_lit 25 (- 1)) 10)
       \<lparr>base_fee_gwei = f64_of_int 100, priority_fee_gwei = f64_of_int 5, recommended_total_gwei = f64_of_int 105\<rparr>
       (f64_of_int 3000) (f64_of_int 1))"

definition zero_profit_returns_no_go :: bool where
  "zero_profit_returns_no_go \<longleftrightarrow>
     \<not> is_go (evaluate (sim_opp (f64_of_int 6) (f64_of_int 6) 0)
       \<lparr>base_fee_gwei = f64_of_int 10, priority_fee_gwei = F64_Zero False, recommended_total_gwei = f64_of_int 10\<rparr>
       (f64_of_int 3000) (F64_Zero False))"

definition negative_profit_gas_exceeds_gross_returns_no_go :: bool where
  "negative_profit_gas_exceeds_gross_returns_no_go \<longleftrightarrow>
     \<not> is_go (evaluate (sim_opp (f64_of_int 1) (f64_of_int 20) 5)
       \<lparr>base_fee_gwei = f64_of_int 200, priority_fee_gwei = f64_of_int 10, recommended_total_gwei = f64_of_int 210\<rparr>
       (f64_of_int 3000) (F64_Zero False))"

definition sim_tests :: bool where
  "sim_tests \<longleftrightarrow> net_profit_above_threshold_returns_go \<and> net_profit_below_threshold_returns_no_go \<and>
     zero_profit_returns_no_go \<and> negative_profit_gas_exceeds_gross_returns_no_go"

lemma evaluate_is_go:
  "is_go (evaluate opp gas price least) \<longleftrightarrow>
     f64_gt (f64_sub (opp_estimated_profit_usd opp) (gas_cost_usd_of (recommended_total_gwei gas) price)) least"
  by (simp add: evaluate_def Let_def)

lemma sim_tests_pass: "sim_tests"
proof -
  have "f64_gt (f64_sub (f64_of_int 20) (gas_cost_usd_of (f64_of_int 11) (f64_of_int 3000))) (f64_of_int 5)"
    "\<not> f64_gt (f64_sub (f64_of_int 3) (gas_cost_usd_of (f64_of_int 105) (f64_of_int 3000))) (f64_of_int 1)"
    "\<not> f64_gt (f64_sub (f64_of_int 6) (gas_cost_usd_of (f64_of_int 10) (f64_of_int 3000))) (F64_Zero False)"
    "\<not> f64_gt (f64_sub (f64_of_int 1) (gas_cost_usd_of (f64_of_int 210) (f64_of_int 3000))) (F64_Zero False)"
    by code_simp+
  then show ?thesis
    by (simp add: sim_tests_def net_profit_above_threshold_returns_go_def net_profit_below_threshold_returns_no_go_def
        zero_profit_returns_no_go_def negative_profit_gas_exceeds_gross_returns_no_go_def evaluate_is_go sim_opp_def)
qed

section \<open>backtest.rs\<close>

definition make_row :: "i64 \<Rightarrow> f64 \<Rightarrow> f64 \<Rightarrow> string \<Rightarrow> opportunity_record" where
  "make_row id1 profit gas decision =
     \<lparr>or_id = id1, or_estimated_profit_usd = profit, or_gas_estimate_usd = gas, or_spread_bps = 10,
      or_original_decision = decision,
      or_original_no_go_reason = (if decision = ''no-go'' then Some ''net_profit_usd 0.5000 <= min_profit_usd 5.0000'' else None),
      or_timestamp = 1700000000\<rparr>"

definition empty_input_returns_zero_totals_with_full_match_rate :: bool where
  "empty_input_returns_zero_totals_with_full_match_rate \<longleftrightarrow>
     (let report = run_backtest [] (f64_of_int 5)
      in total report = 0 \<and> matched report = 0 \<and> mismatched report = 0 \<and> match_rate_pct report = f64_of_int 100 \<and>
         mismatches report = [])"

definition all_go_decisions_match :: bool where
  "all_go_decisions_match \<longleftrightarrow>
     (let rows = [make_row 1 (f64_of_int 20) (f64_of_int 2) ''go'', make_row 2 (f64_of_int 15) (f64_of_int 3) ''go''];
          report = run_backtest rows (f64_of_int 5)
      in total report = 2 \<and> matched report = 2 \<and> mismatched report = 0 \<and> match_rate_pct report = f64_of_int 100 \<and>
         mismatches report = [])"

definition all_no_go_decisions_match :: bool where
  "all_no_go_decisions_match \<longleftrightarrow>
     (let rows = [make_row 1 (f64_of_int 3) (f64_of_int 2) ''no-go'', make_row 2 (f64_of_int 4) (f64_of_int 2) ''no-go''];
          report = run_backtest rows (f64_of_int 5)
      in total report = 2 \<and> matched report = 2 \<and> mismatched report = 0 \<and> match_rate_pct report = f64_of_int 100)"

definition raised_threshold_causes_mismatch :: bool where
  "raised_threshold_causes_mismatch \<longleftrightarrow>
     (let rows = [make_row 1 (f64_of_int 12) (f64_of_int 2) ''go''];
          report = run_backtest rows (f64_of_int 15);
          first = mismatches report ! 0
      in total report = 1 \<and> matched report = 0 \<and> mismatched report = 1 \<and> match_rate_pct report = F64_Zero False \<and>
         length (mismatches report) > 0 \<and> bm_opportunity_id first = 1 \<and> bm_original_decision first = ''go'' \<and>
         bm_recomputed_decision first = ''no-go'' \<and> close_to (bm_net_profit_usd first) (f64_of_int 10) (f64_lit 1 (- 9)))"

definition lowered_threshold_causes_mismatch :: bool where
  "lowered_threshold_causes_mismatch \<longleftrightarrow>
     (let rows = [make_row 1 (f64_of_int 4) (f64_of_int 2) ''no-go''];
          report = run_backtest rows (f64_of_int 1)
      in total report = 1 \<and> mismatched report = 1 \<and> length (mismatches report) > 0 \<and>
         bm_recomputed_decision (mismatches report ! 0) = ''go'')"

definition mixed_decisions_correct_stats :: bool where
  "mixed_decisions_correct_stats \<longleftrightarrow>
     (let rows = [make_row 1 (f64_of_int 20) (f64_of_int 2) ''go'', make_row 2 (f64_of_int 3) (f64_of_int 2) ''no-go'',
                  make_row 3 (f64_of_int 12) (f64_of_int 2) ''go'', make_row 4 (f64_lit 45 (- 1)) (f64_of_int 2) ''go''];
          report = run_backtest rows (f64_of_int 5)
      in total report = 4 \<and> matched report = 3 \<and> mismatched report = 1 \<and> match_rate_pct report = f64_of_int 75 \<and>
         length (mismatches report) > 0 \<and> bm_opportunity_id (mismatches report ! 0) = 4)"

definition profit_sums_only_count_original_go_rows :: bool where
  "profit_sums_only_count_original_go_rows \<longleftrightarrow>
     (let rows = [make_row 1 (f64_of_int 20) (f64_of_int 2) ''go'', make_row 2 (f64_of_int 3) (f64_of_int 2) ''no-go'',
                  make_row 3 (f64_of_int 10) (f64_lit 15 (- 1)) ''go''];
          report = run_backtest rows (f64_of_int 5)
      in close_to (total_estimated_profit_go_usd report) (f64_of_int 30) (f64_lit 1 (- 9)) \<and>
         close_to (total_gas_cost_go_usd report) (f64_lit 35 (- 1)) (f64_lit 1 (- 9)))"

definition zero_net_profit_is_no_go :: bool where
  "zero_net_profit_is_no_go \<longleftrightarrow>
     matched (run_backtest [make_row 1 (f64_of_int 5) (f64_of_int 5) ''no-go''] (f64_of_int 5)) = 1"

definition backtest_tests :: bool where
  "backtest_tests \<longleftrightarrow> empty_input_returns_zero_totals_with_full_match_rate \<and> all_go_decisions_match \<and>
     all_no_go_decisions_match \<and> raised_threshold_causes_mismatch \<and> lowered_threshold_causes_mismatch \<and>
     mixed_decisions_correct_stats \<and> profit_sums_only_count_original_go_rows \<and> zero_net_profit_is_no_go"

lemma make_row_simps:
  "or_id (make_row i p g d) = i" "or_estimated_profit_usd (make_row i p g d) = p" "or_gas_estimate_usd (make_row i p g d) = g"
  "or_original_decision (make_row i p g d) = d"
  "row_matches m (make_row i p g d) \<longleftrightarrow> d = (if f64_gt (f64_sub p g) m then ''go'' else ''no-go'')"
  by (simp_all add: make_row_def row_matches_def recompute_def Let_def)

lemmas backtest_run = run_backtest_def backtest_fold backtest_row_simp backtest_init_def Let_def go_rows_def make_row_simps mismatch_of_def recompute_def

lemma nets:
  "f64_gt (f64_sub (f64_of_int 20) (f64_of_int 2)) (f64_of_int 5)" "f64_gt (f64_sub (f64_of_int 15) (f64_of_int 3)) (f64_of_int 5)"
  "f64_gt (f64_sub (f64_of_int 12) (f64_of_int 2)) (f64_of_int 5)" "f64_gt (f64_sub (f64_of_int 4) (f64_of_int 2)) (f64_of_int 1)"
  "f64_gt (f64_sub (f64_of_int 10) (f64_lit 15 (- 1))) (f64_of_int 5)"
  "\<not> f64_gt (f64_sub (f64_of_int 3) (f64_of_int 2)) (f64_of_int 5)" "\<not> f64_gt (f64_sub (f64_of_int 4) (f64_of_int 2)) (f64_of_int 5)"
  "\<not> f64_gt (f64_sub (f64_of_int 12) (f64_of_int 2)) (f64_of_int 15)" "\<not> f64_gt (f64_sub (f64_of_int 5) (f64_of_int 5)) (f64_of_int 5)"
  "\<not> f64_gt (f64_sub (f64_lit 45 (- 1)) (f64_of_int 2)) (f64_of_int 5)"
  by code_simp+

lemma rates:
  "f64_mul (f64_div (f64_of_int 2) (f64_of_int 2)) (f64_of_int 100) = f64_of_int 100"
  "f64_mul (f64_div (f64_of_int 0) (f64_of_int 1)) (f64_of_int 100) = F64_Zero False"
  "f64_mul (f64_div (f64_of_int 3) (f64_of_int 4)) (f64_of_int 100) = f64_of_int 75"
  by code_simp+

lemma sums:
  "close_to (f64_sub (f64_of_int 12) (f64_of_int 2)) (f64_of_int 10) (f64_lit 1 (- 9))"
  "close_to (f64_add (f64_add (F64_Zero False) (f64_of_int 20)) (f64_of_int 10)) (f64_of_int 30) (f64_lit 1 (- 9))"
  "close_to (f64_add (f64_add (F64_Zero False) (f64_of_int 2)) (f64_lit 15 (- 1))) (f64_lit 35 (- 1)) (f64_lit 1 (- 9))"
  by code_simp+

lemma backtest_tests_pass: "backtest_tests"
  unfolding backtest_tests_def
proof (intro conjI)
  show "empty_input_returns_zero_totals_with_full_match_rate"
    by (simp add: empty_input_returns_zero_totals_with_full_match_rate_def backtest_run)
  show "all_go_decisions_match" using rates nets by (simp add: all_go_decisions_match_def backtest_run)
  show "all_no_go_decisions_match" using rates nets by (simp add: all_no_go_decisions_match_def backtest_run)
  show "raised_threshold_causes_mismatch" using rates nets sums by (simp add: raised_threshold_causes_mismatch_def backtest_run)
  show "lowered_threshold_causes_mismatch" using nets by (simp add: lowered_threshold_causes_mismatch_def backtest_run)
  show "mixed_decisions_correct_stats" using rates nets by (simp add: mixed_decisions_correct_stats_def backtest_run)
  show "profit_sums_only_count_original_go_rows" using nets sums by (simp add: profit_sums_only_count_original_go_rows_def backtest_run)
  show "zero_net_profit_is_no_go" using nets by (simp add: zero_net_profit_is_no_go_def backtest_run)
qed

section \<open>scanner.rs\<close>

definition scan_test_pool :: "address \<Rightarrow> u256 \<Rightarrow> pool" where
  "scan_test_pool a usdc =
     (let weth_unit = 1000000000000000000; usdc_unit = 1000000
      in \<lparr>pool_address = a, token0 = USDC, token1 = WETH, reserve0 = usdc * usdc_unit, reserve1 = 10000 * weth_unit,
          block_updated = 1\<rparr>)"

definition scan_pairs_detects_profitable_roundtrip :: "alloy \<Rightarrow> bool" where
  "scan_pairs_detects_profitable_roundtrip L \<longleftrightarrow>
     (let a = 0xB4e16d0168e52d35CaCD2c6185b44281Ec28C9Dc; b = 0x397FF1542f962076d0BFE58eA045FfA2d347ACa0;
          store1 = upsert_pool (scan_test_pool b 18000000) (upsert_pool (scan_test_pool a 20000000) PoolStore_new)
      in case scan_pairs L store1 [(a, b)] (f64_of_int 3000) of
           Panicked \<Rightarrow> False
         | Ret opps \<Rightarrow> length opps = 1 \<and> f64_ge (opp_estimated_profit_usd (opps ! 0)) (F64_Zero False))"

lemma scan_test_passes:
  assumes "u256_text_ok L"
  shows "scan_pairs_detects_profitable_roundtrip L"
proof -
  let ?a = "0xB4e16d0168e52d35CaCD2c6185b44281Ec28C9Dc :: address" and ?b = "0x397FF1542f962076d0BFE58eA045FfA2d347ACa0 :: address"
  let ?A = "scan_test_pool ?a 20000000" and ?B = "scan_test_pool ?b 18000000"
  let ?usd = "f64_mul (f64_div (f64_of_int 104222397127752489) (f64_of_int 1000000000000000000)) (f64_of_int 3000)"
  have tok: "WETH \<noteq> USDC" "USDC \<noteq> WETH" "USDC \<noteq> 0" "WETH \<noteq> 0" by (simp_all add: WETH_def USDC_def)
  have r: "reserves_for_swap (scan_test_pool x u) WETH USDC = Some (10000000000000000000000, u * 1000000)"
    "reserves_for_swap (scan_test_pool x u) USDC WETH = Some (u * 1000000, 10000000000000000000000)" for x u
    using tok by (simp_all add: reserves_for_swap_def scan_test_pool_def Let_def)
  have wei: "wei_to_eth_f64 L w = f64_div (f64_of_int (int (unat w))) (f64_of_int 1000000000000000000)" for w
    using assms by (simp add: wei_to_eth_f64_def u256_text_ok_def f64_parse_dec_string)
  have good: "\<not> f64_le ?usd (F64_Zero False)" "f64_ge ?usd (F64_Zero False)" by code_simp+
  have "calculate_profit 1000000000000000000 10000000000000000000000 20000000000000 18000000000000 10000000000000000000000
      = Ret (Some 104222397127752489)"
    "calculate_profit 1000000000000000000 10000000000000000000000 18000000000000 20000000000000 10000000000000000000000 = Ret None"
    by (simp_all add: calculate_profit_def get_amount_out_def u256_div_def)
  then have "\<exists>opp. build_opportunity L ?A ?B USDC 1000000000000000000 (f64_of_int 3000) = Ret (Some opp) \<and> opp_estimated_profit_usd opp = ?usd"
    "build_opportunity L ?B ?A USDC 1000000000000000000 (f64_of_int 3000) = Ret None"
    using good by (simp_all add: build_opportunity_def r wei get_spot_price_def u256_div_def Let_def)
  moreover have "stable_token_out (token0 (scan_test_pool x u)) (token1 (scan_test_pool x u))
      (token0 (scan_test_pool y v)) (token1 (scan_test_pool y v)) = Some USDC" for x u y v
    using tok by (simp add: stable_token_out_def scan_test_pool_def Let_def)
  moreover have "store_get (upsert_pool ?B (upsert_pool ?A PoolStore_new)) ?a = Some ?A"
    "store_get (upsert_pool ?B (upsert_pool ?A PoolStore_new)) ?b = Some ?B"
    by (simp_all add: store.look_put scan_test_pool_def Let_def)
  ultimately show ?thesis using good by (auto simp: scan_pairs_detects_profitable_roundtrip_def scan_pair_def Let_def)
qed

section \<open>tx\_builder.rs\<close>

definition sample_calldata :: "eth_lib \<Rightarrow> bytes" where
  "sample_calldata K = build_execute_arb_calldata K 0xC02aaA39b223FE8D0A0e5C4F27eAD9083C756Cc2
     0xA0b86991c6218b36c1d19D4a2e9Eb0cE3606eB48 0xB4e16d0168e52d35CaCD2c6185b44281Ec28C9Dc
     0x397FF1542f962076d0BFE58eA045FfA2d347ACa0 1000000000000000000 1000000"

definition function_selector_is_correct :: "eth_lib \<Rightarrow> bytes \<Rightarrow> bool" where
  "function_selector_is_correct K selector \<longleftrightarrow> take 4 (sample_calldata K) = selector"

definition calldata_length_is_correct :: "eth_lib \<Rightarrow> bool" where
  "calldata_length_is_correct K \<longleftrightarrow> length (sample_calldata K) = 196"

definition calldata_encodes_and_decodes_roundtrip :: "eth_lib \<Rightarrow> bytes \<Rightarrow> bool" where
  "calldata_encodes_and_decodes_roundtrip K selector \<longleftrightarrow>
     (let token_in = 0xC02aaA39b223FE8D0A0e5C4F27eAD9083C756Cc2; token_out = 0xA0b86991c6218b36c1d19D4a2e9Eb0cE3606eB48;
          pool_a = 0xB4e16d0168e52d35CaCD2c6185b44281Ec28C9Dc; pool_b = 0x397FF1542f962076d0BFE58eA045FfA2d347ACa0;
          amount_in = 1000000000000000000; min_profit = 1000000;
          cd = build_execute_arb_calldata K token_in token_out pool_a pool_b amount_in min_profit
      in case call_decode selector cd of
           None \<Rightarrow> False
         | Some p \<Rightarrow> tokenIn p = token_in \<and> tokenOut p = token_out \<and> poolA p = pool_a \<and> poolB p = pool_b \<and>
                    amountIn p = amount_in \<and> minProfit p = min_profit)"

definition calldata_tests :: "eth_lib \<Rightarrow> bytes \<Rightarrow> bool" where
  "calldata_tests K selector \<longleftrightarrow> function_selector_is_correct K selector \<and> calldata_length_is_correct K \<and>
     calldata_encodes_and_decodes_roundtrip K selector"

lemma length_abi_encode: "length (abi_encode p) = 192"
  by (simp add: abi_encode_def)

lemma calldata_tests_pass:
  assumes "calldata_ok K selector"
  shows "calldata_tests K selector"
  using assms abi_roundtrip [where rest = "[]"]
  by (simp add: calldata_tests_def function_selector_is_correct_def calldata_length_is_correct_def sample_calldata_def
      calldata_encodes_and_decodes_roundtrip_def calldata_ok_def call_decode_def build_execute_arb_calldata_def length_abi_encode Let_def)

section \<open>db/lib.rs\<close>

text \<open>
  Each test runs on a migrated database and passes when no statement fails and its assertions hold.
  The engine does not fail, its clock does not go back, and the sum of one number is that number.
\<close>

definition passes :: "(database, 'e, bool) io \<Rightarrow> bool" where
  "passes t \<longleftrightarrow> fst (t migrated_database) = Inr True"

definition engine_ok :: "sqlite \<Rightarrow> bool" where
  "engine_ok E \<longleftrightarrow> (\<forall>n. stmt_fault E n = None) \<and> mono (unixepoch E) \<and> order_ok E \<and>
     (\<forall>x. bind_real x = Some x \<longrightarrow> sql_sum E [x] = x)"

definition users_roundtrip :: "sqlite \<Rightarrow> bool db_io" where
  "users_roundtrip E =
     bindE (get_user_count E) (\<lambda>count0.
     bindE (insert_user E ''admin'' ''hash'') (\<lambda>id1.
     bindE (get_user_count E) (\<lambda>count1.
     bindE (get_user_by_username E ''admin'') (\<lambda>user.
     bindE (get_user_by_username E ''missing'') (\<lambda>missing.
       okE (count0 = 0 \<and> id1 > 0 \<and> count1 = 1 \<and> user \<noteq> None \<and> missing = None))))))"

definition bot_state_roundtrip :: "sqlite \<Rightarrow> bool db_io" where
  "bot_state_roundtrip E =
     bindE (set_bot_state E ''last_block'' ''123'') (\<lambda>_.
     bindE (get_bot_state E ''last_block'') (\<lambda>v. okE (v = Some ''123'')))"

text \<open>The query the test itself sends: the sample of the highest block.\<close>

definition latest_gas :: "sqlite \<Rightarrow> gas_row option db_io" where
  "latest_gas E = stmt E (\<lambda>d. (Inr (List.find (\<lambda>r. \<forall>q \<in> set (gas_history d). g_block_number q \<le> g_block_number r) (gas_history d)), d))"

definition gas_history_insert_and_latest :: "sqlite \<Rightarrow> bool db_io" where
  "gas_history_insert_and_latest E =
     bindE (insert_gas_sample E 10 (f64_of_int 1) (f64_of_int 2)) (\<lambda>_.
     bindE (insert_gas_sample E 11 (f64_of_int 3) (f64_of_int 4)) (\<lambda>_.
     bindE (latest_gas E) (\<lambda>row.
       okE (case row of None \<Rightarrow> False
            | Some r \<Rightarrow> g_block_number r = 11 \<and> g_base_fee_gwei r = f64_of_int 3 \<and> g_priority_fee_gwei r = f64_of_int 4))))"

definition test_trade :: trade_result where
  "test_trade = \<lparr>tr_tx_hash = 0x1111111111111111111111111111111111111111111111111111111111111111, tr_route = ''A->B'',
     tr_pool_a = 0, tr_pool_b = 0, tr_input_amount = 100, tr_output_amount = Some 110, tr_gross_profit = Some 10,
     tr_gas_cost_usd = f64_lit 15 (- 1), tr_net_profit_usd = Some (f64_lit 85 (- 1)), tr_gas_used = Some 200000,
     tr_status = Success, tr_block_number = 1, tr_timestamp = 1700000000\<rparr>"

definition trades_insert_and_pnl :: "alloy \<Rightarrow> sqlite \<Rightarrow> (database, db_error, bool) io" where
  "trades_insert_and_pnl L E =
     bindE (mapErr DbSqlx (insert_trade L E test_trade)) (\<lambda>_.
     bindE (mapErr DbSqlx (get_pnl_summary E)) (\<lambda>pnl.
     bindE (get_recent_trades L E 10) (\<lambda>ts.
       okE (alltime_usd pnl = f64_lit 85 (- 1) \<and> length ts = 1 \<and> tr_route (ts ! 0) = ''A->B''))))"

definition opportunities_insert :: "alloy \<Rightarrow> sqlite \<Rightarrow> bool db_io" where
  "opportunities_insert L E =
     bindE (insert_opportunity L E (sim_opp (f64_of_int 10) (f64_of_int 2) 10) ''no-go'' (Some ''test'') None) (\<lambda>id1.
       okE (id1 > 0))"

fun insert_each :: "alloy \<Rightarrow> sqlite \<Rightarrow> (arbitrage_opportunity \<times> string \<times> string option) list \<Rightarrow> unit db_io" where
  "insert_each L E [] = okE ()"
| "insert_each L E ((opp, dec, why) # xs) = bindE (insert_opportunity L E opp dec why None) (\<lambda>_. insert_each L E xs)"

definition get_opportunities_for_backtest_returns_rows :: "alloy \<Rightarrow> sqlite \<Rightarrow> bool db_io" where
  "get_opportunities_for_backtest_returns_rows L E =
     bindE (insert_each L E [(sim_opp (f64_of_int 20) (f64_of_int 2) 10, ''go'', None),
       (sim_opp (f64_of_int 3) (f64_of_int 2) 10, ''no-go'', Some ''net_profit_usd 1.0000 <= min_profit_usd 5.0000'')]) (\<lambda>_.
     bindE (get_opportunities_for_backtest E 10 0) (\<lambda>rows.
       okE (length rows = 2 \<and> or_original_decision (rows ! 0) = ''go'' \<and>
            close_to (or_estimated_profit_usd (rows ! 0)) (f64_of_int 20) (f64_lit 1 (- 9)) \<and>
            or_original_decision (rows ! 1) = ''no-go'' \<and> or_original_no_go_reason (rows ! 1) \<noteq> None)))"

definition backtest_end_to_end :: "alloy \<Rightarrow> sqlite \<Rightarrow> bool db_io" where
  "backtest_end_to_end L E =
     bindE (insert_each L E (map (\<lambda>profit. (sim_opp profit (f64_of_int 2) 10, ''go'', None))
       [f64_of_int 20, f64_of_int 15, f64_of_int 10])) (\<lambda>_.
     bindE (insert_each L E (map (\<lambda>profit. (sim_opp profit (f64_of_int 2) 10, ''no-go'', Some ''net_profit_usd <= min_profit_usd 5.0''))
       [f64_of_int 3, f64_of_int 4])) (\<lambda>_.
     bindE (get_opportunities_for_backtest E 100 0) (\<lambda>rows.
       let report = run_backtest rows (f64_of_int 5); report_raised = run_backtest rows (f64_of_int 12)
       in okE (length rows = 5 \<and> total report = 5 \<and> matched report = 5 \<and> mismatched report = 0 \<and>
               match_rate_pct report = f64_of_int 100 \<and> mismatched report_raised = 1 \<and> length (mismatches report_raised) > 0 \<and>
               bm_original_decision (mismatches report_raised ! 0) = ''go'' \<and>
               bm_recomputed_decision (mismatches report_raised ! 0) = ''no-go''))))"

definition backtest_pagination :: "alloy \<Rightarrow> sqlite \<Rightarrow> bool db_io" where
  "backtest_pagination L E =
     bindE (insert_each L E (replicate 5 (sim_opp (f64_of_int 10) (f64_of_int 2) 10, ''go'', None))) (\<lambda>_.
     bindE (get_opportunities_for_backtest E 3 0) (\<lambda>page1.
     bindE (get_opportunities_for_backtest E 3 3) (\<lambda>page2.
       okE (length page1 = 3 \<and> length page2 = 2))))"

definition db_tests :: "alloy \<Rightarrow> sqlite \<Rightarrow> bool" where
  "db_tests L E \<longleftrightarrow> passes (users_roundtrip E) \<and> passes (bot_state_roundtrip E) \<and> passes (gas_history_insert_and_latest E) \<and>
     passes (trades_insert_and_pnl L E) \<and> passes (opportunities_insert L E) \<and>
     passes (get_opportunities_for_backtest_returns_rows L E) \<and> passes (backtest_end_to_end L E) \<and> passes (backtest_pagination L E)"

text \<open>The rows of a database in the order they were written: by id and by time.\<close>

definition in_order :: "sqlite \<Rightarrow> database \<Rightarrow> bool" where
  "in_order E d \<longleftrightarrow> sorted (map o_id (opportunities d)) \<and> sorted (map o_timestamp (opportunities d)) \<and>
     (\<forall>r \<in> set (opportunities d). o_id r \<le> opportunities_seq d \<and> o_timestamp r \<le> unixepoch E (stmt_no d))"

definition bound_row :: "arbitrage_opportunity \<times> string \<times> string option \<Rightarrow> opportunity_row \<Rightarrow> bool" where
  "bound_row x r \<longleftrightarrow> (case x of (opp, dec, why) \<Rightarrow>
     bind_real (opp_estimated_profit_usd opp) = Some (o_estimated_profit r) \<and>
     bind_real (opp_gas_estimate_usd opp) = Some (o_gas_estimate_usd r) \<and> o_decision r = dec \<and> o_no_go_reason r = why)"

definition insertable :: "arbitrage_opportunity \<times> string \<times> string option \<Rightarrow> bool" where
  "insertable x \<longleftrightarrow> (case x of (opp, dec, why) \<Rightarrow> bind_real (opp_estimated_profit_usd opp) \<noteq> None \<and>
     bind_real (opp_gas_estimate_usd opp) \<noteq> None \<and> dec \<in> {''go'', ''no-go''})"

lemma insert_one:
  assumes E: "engine_ok E" and ord: "in_order E d" "opportunities_seq d < i64_max" and x: "insertable (opp, dec, why)"
  shows "\<exists>row d'. insert_opportunity L E opp dec why None d = (Inr (opportunities_seq d + 1), d') \<and> in_order E d' \<and>
    opportunities d' = opportunities d @ [row] \<and> bound_row (opp, dec, why) row \<and>
    opportunities_seq d' = opportunities_seq d + 1"
proof -
  have up: "unixepoch E n \<le> unixepoch E (Suc n)" for n using E by (simp add: engine_ok_def mono_iff_le_Suc)
  have f: "stmt_fault E n = None" for n using E by (simp add: engine_ok_def)
  have le: "o_timestamp r \<le> unixepoch E (Suc (stmt_no d))" if "r \<in> set (opportunities d)" for r
    using that ord(1) up [of "stmt_no d"] by (fastforce simp: in_order_def)
  from x obtain p g where b: "bind_real (opp_estimated_profit_usd opp) = Some p" "bind_real (opp_gas_estimate_usd opp) = Some g"
    "dec \<in> {''go'', ''no-go''}" by (auto simp: insertable_def)
  define row where "row = \<lparr>o_id = opportunities_seq d + 1, o_pool_a = address_hex L (opp_pool_a opp), o_pool_b = address_hex L (opp_pool_b opp),
      o_token_in = address_hex L (opp_token_in opp), o_token_out = address_hex L (opp_token_out opp),
      o_spread_bps = opp_spread_bps opp, o_input_amount = u256_to_dec L (opp_input_amount opp),
      o_estimated_profit = p, o_gas_estimate_usd = g, o_decision = dec, o_no_go_reason = why, o_trade_id = None,
      o_timestamp = now_of E (tick d)\<rparr>"
  have "insert_opportunity L E opp dec why None d = (Inr (opportunities_seq d + 1), add_opportunity row (tick d))"
    using b f ord(2) by (auto simp: insert_opportunity_def db_guard_defs Let_def row_def)
  moreover have "in_order E (add_opportunity row (tick d))"
    using ord(1) le by (fastforce simp: in_order_def add_opportunity_def sorted_append row_def now_of_def)
  moreover have "bound_row (opp, dec, why) row" using b by (simp add: bound_row_def row_def)
  ultimately show ?thesis by (intro exI [of _ row]) (simp add: add_opportunity_def row_def)
qed

lemma insert_each_runs:
  assumes "engine_ok E" "in_order E d" "opportunities_seq d + int (length xs) \<le> i64_max" "\<forall>x \<in> set xs. insertable x"
  shows "\<exists>rows d'. insert_each L E xs d = (Inr (), d') \<and> in_order E d' \<and> opportunities d' = opportunities d @ rows \<and>
    list_all2 bound_row xs rows \<and> opportunities_seq d' = opportunities_seq d + int (length xs)"
  using assms
proof (induction xs arbitrary: d)
  case Nil
  then show ?case by (simp add: okE_def)
next
  case (Cons x xs)
  obtain opp dec why where x: "x = (opp, dec, why)" by (cases x)
  obtain row d1 where one: "insert_opportunity L E opp dec why None d = (Inr (opportunities_seq d + 1), d1)" "in_order E d1"
    "opportunities d1 = opportunities d @ [row]" "bound_row (opp, dec, why) row" "opportunities_seq d1 = opportunities_seq d + 1"
    using insert_one [OF Cons.prems(1,2), of opp dec why L] Cons.prems(3,4) x by auto
  obtain rows d' where rest: "insert_each L E xs d1 = (Inr (), d')" "in_order E d'" "opportunities d' = opportunities d1 @ rows"
    "list_all2 bound_row xs rows" "opportunities_seq d' = opportunities_seq d1 + int (length xs)"
    using Cons.IH [OF Cons.prems(1) one(2)] Cons.prems(3,4) one(5) by auto
  show ?case
    using one rest x by (intro exI [of _ "row # rows"]) (simp add: bindE_def)
qed

lemma get_rows:
  assumes "engine_ok E" "in_order E d"
  shows "get_opportunities_for_backtest E limit offset d =
    (Inr (map record_of_opportunity (take (unat limit) (drop (unat offset) (opportunities d)))), tick d)"
  using assms by (simp add: get_opportunities_for_backtest_def stmt_def engine_ok_def in_order_def sort_key_id_if_sorted)

lemma start_in_order: "in_order E migrated_database" "opportunities_seq migrated_database = 0" "opportunities migrated_database = []"
  by (simp_all add: in_order_def migrated_database_def)

lemma real_lits: "bind_real (f64_of_int 20) = Some (f64_of_int 20)" "bind_real (f64_of_int 15) = Some (f64_of_int 15)"
  "bind_real (f64_of_int 10) = Some (f64_of_int 10)" "bind_real (f64_of_int 4) = Some (f64_of_int 4)"
  "bind_real (f64_of_int 3) = Some (f64_of_int 3)" "bind_real (f64_of_int 2) = Some (f64_of_int 2)"
  "bind_real (f64_of_int 1) = Some (f64_of_int 1)" "bind_real (f64_lit 85 (- 1)) = Some (f64_lit 85 (- 1))"
  "bind_real (f64_lit 15 (- 1)) = Some (f64_lit 15 (- 1))"
  by code_simp+

lemma simple_db_tests_pass:
  assumes "engine_ok E"
  shows "passes (users_roundtrip E)" "passes (bot_state_roundtrip E)" "passes (gas_history_insert_and_latest E)"
    "passes (opportunities_insert L E)"
proof -
  have f: "stmt_fault E n = None" for n using assms by (simp add: engine_ok_def)
  show "passes (users_roundtrip E)"
    by (simp add: passes_def users_roundtrip_def get_user_count_def insert_user_def get_user_by_username_def bindE_def okE_def
        db_guard_defs f migrated_database_def i64_max_def add_user_def nocase_def to_lower_def)
  show "passes (bot_state_roundtrip E)"
    by (simp add: passes_def bot_state_roundtrip_def get_bot_state_def set_bot_state_def put_state_def bindE_def okE_def db_guard_defs f)
  show "passes (gas_history_insert_and_latest E)"
    by (simp add: passes_def gas_history_insert_and_latest_def insert_gas_sample_def latest_gas_def replace_gas_def bindE_def okE_def
        db_guard_defs f migrated_database_def i64_max_def real_lits u64_as_i64_def)
  show "passes (opportunities_insert L E)"
    by (simp add: passes_def opportunities_insert_def insert_opportunity_def bindE_def okE_def db_guard_defs f
        migrated_database_def i64_max_def sim_opp_def real_lits Let_def)
qed

lemma trades_test_passes:
  assumes "engine_ok E" "alloy_text_ok L"
  shows "passes (trades_insert_and_pnl L E)"
proof -
  have f: "stmt_fault E n = None" for n using assms by (simp add: engine_ok_def)
  let ?row = "row_of_trade L 1 (f64_lit 15 (- 1)) test_trade"
  have ins: "insert_trade L E test_trade migrated_database = (Inr 1, add_trade ?row (tick migrated_database))"
    by (simp add: insert_trade_def db_guard_defs f Let_def row_of_trade_def test_trade_def real_lits trade_status_to_db_def)
      (simp add: migrated_database_def i64_max_def)
  have "mset (order_by_timestamp_desc E [r]) = mset [r]" for r using assms(1) unfolding engine_ok_def order_ok_def by blast
  then have ord: "order_by_timestamp_desc E [r] = [r]" for r by (metis mset_single_iff mset.simps(1,2))
  have sum: "sum_column E [Some (f64_lit 85 (- 1))] = Some (f64_lit 85 (- 1))"
    using assms(1) real_lits(8) by (simp add: sum_column_def List.map_filter_def engine_ok_def)
  have read: "trade_of_row L ?row = Inr (stored_trade (f64_lit 15 (- 1)) test_trade)" using trade_of_row_of_trade [OF assms(2)] .
  have cols: "t_net_profit_usd ?row = Some (f64_lit 85 (- 1))" "t_status ?row = ''success''"
    by (simp_all add: row_of_trade_def test_trade_def real_lits trade_status_to_db_def)
  have "tr_route (stored_trade (f64_lit 15 (- 1)) test_trade) = ''A->B''" by (simp add: stored_trade_def test_trade_def)
  then show ?thesis
    using ins
    by (simp add: passes_def trades_insert_and_pnl_def get_pnl_summary_def get_recent_trades_def get_trades_page_def select_trades_def
        bindE_def okE_def mapErr_def stmt_def f add_trade_def ord sum cols read Let_def migrated_database_def)
qed

lemma insertable_sim: "bind_real p = Some x \<Longrightarrow> bind_real g = Some y \<Longrightarrow> dec \<in> {''go'', ''no-go''} \<Longrightarrow> insertable (sim_opp p g b, dec, why)"
  by (simp add: insertable_def sim_opp_def)

lemma bound_sim:
  "bind_real p = Some p \<Longrightarrow> bind_real g = Some g \<Longrightarrow> bound_row (sim_opp p g b, dec, why) r \<longleftrightarrow>
     o_estimated_profit r = p \<and> o_gas_estimate_usd r = g \<and> o_decision r = dec \<and> o_no_go_reason r = why"
  by (auto simp: bound_row_def sim_opp_def)

lemma row_matches_record:
  "row_matches m (record_of_opportunity r) \<longleftrightarrow>
     o_decision r = (if f64_gt (f64_sub (o_estimated_profit r) (o_gas_estimate_usd r)) m then ''go'' else ''no-go'')"
  by (simp add: row_matches_def recompute_def record_of_opportunity_def Let_def)

lemma inserted_rows:
  assumes E: "engine_ok E" and xs: "\<forall>x \<in> set xs. insertable x" "length xs \<le> 5"
  shows "\<exists>rows d. insert_each L E xs migrated_database = (Inr (), d) \<and> list_all2 bound_row xs rows \<and>
    (\<forall>limit offset d'. opportunities d' = opportunities d \<longrightarrow> get_opportunities_for_backtest E limit offset d' =
         (Inr (map record_of_opportunity (take (unat limit) (drop (unat offset) rows))), tick d'))"
proof -
  have "0 + int (length xs) \<le> i64_max" using xs(2) by (simp add: i64_max_def)
  then obtain rows d where r: "insert_each L E xs migrated_database = (Inr (), d)" "in_order E d" "opportunities d = rows"
    "list_all2 bound_row xs rows"
    using insert_each_runs [OF E start_in_order(1), of xs L] xs(1) start_in_order by auto
  have f: "stmt_fault E n = None" for n using E by (simp add: engine_ok_def)
  have "get_opportunities_for_backtest E limit offset d' = (Inr (map record_of_opportunity (take (unat limit) (drop (unat offset) rows))), tick d')"
    if "opportunities d' = opportunities d" for limit offset d'
    using that r(2,3) f by (simp add: get_opportunities_for_backtest_def stmt_def in_order_def sort_key_id_if_sorted)
  then show ?thesis using r(1,4) by blast
qed

lemma end_to_end_nets:
  "f64_gt (f64_sub (f64_of_int 15) (f64_of_int 2)) (f64_of_int 5)" "f64_gt (f64_sub (f64_of_int 10) (f64_of_int 2)) (f64_of_int 5)"
  "f64_gt (f64_sub (f64_of_int 20) (f64_of_int 2)) (f64_of_int 12)" "f64_gt (f64_sub (f64_of_int 15) (f64_of_int 2)) (f64_of_int 12)"
  "\<not> f64_gt (f64_sub (f64_of_int 10) (f64_of_int 2)) (f64_of_int 12)" "\<not> f64_gt (f64_sub (f64_of_int 3) (f64_of_int 2)) (f64_of_int 12)"
  "\<not> f64_gt (f64_sub (f64_of_int 4) (f64_of_int 2)) (f64_of_int 12)"
  "f64_mul (f64_div (f64_of_int 5) (f64_of_int 5)) (f64_of_int 100) = f64_of_int 100"
  "close_to (f64_of_int 20) (f64_of_int 20) (f64_lit 1 (- 9))"
  by code_simp+

lemma insert_each_append: "insert_each L E (xs @ ys) = bindE (insert_each L E xs) (\<lambda>_. insert_each L E ys)"
  by (induction L E xs rule: insert_each.induct) (auto simp: bindE_def okE_def fun_eq_iff split: sum.splits prod.splits)

lemma backtest_rows_test_passes:
  assumes E: "engine_ok E"
  shows "passes (get_opportunities_for_backtest_returns_rows L E)"
proof -
  let ?two = "[(sim_opp (f64_of_int 20) (f64_of_int 2) 10, ''go'', None),
    (sim_opp (f64_of_int 3) (f64_of_int 2) 10, ''no-go'', Some ''net_profit_usd 1.0000 <= min_profit_usd 5.0000'')]"
  have ins: "\<forall>x \<in> set ?two. insertable x" and len: "length ?two \<le> 5" using insertable_sim real_lits by simp_all
  obtain rows d where two: "insert_each L E ?two migrated_database = (Inr (), d)" "list_all2 bound_row ?two rows"
    "\<forall>limit offset d'. opportunities d' = opportunities d \<longrightarrow> get_opportunities_for_backtest E limit offset d' =
         (Inr (map record_of_opportunity (take (unat limit) (drop (unat offset) rows))), tick d')"
    using inserted_rows [OF E ins len, of L] by blast
  obtain r1 r2 where "rows = [r1, r2]" "o_estimated_profit r1 = f64_of_int 20" "o_decision r1 = ''go''"
    "o_decision r2 = ''no-go''" "o_no_go_reason r2 \<noteq> None"
    using two(2) by (auto simp: list_all2_Cons1 bound_sim real_lits)
  then show ?thesis
    using end_to_end_nets(9) two(1,3)
    by (simp add: passes_def get_opportunities_for_backtest_returns_rows_def bindE_def okE_def record_of_opportunity_def
        del: insert_each.simps)
qed

lemma backtest_pagination_passes:
  assumes E: "engine_ok E"
  shows "passes (backtest_pagination L E)"
proof -
  let ?five = "replicate 5 (sim_opp (f64_of_int 10) (f64_of_int 2) 10, ''go'', None)"
  have ins: "\<forall>x \<in> set ?five. insertable x" and len: "length ?five \<le> 5" using insertable_sim real_lits by simp_all
  obtain rows d where five: "insert_each L E ?five migrated_database = (Inr (), d)" "list_all2 bound_row ?five rows"
    "\<forall>limit offset d'. opportunities d' = opportunities d \<longrightarrow> get_opportunities_for_backtest E limit offset d' =
         (Inr (map record_of_opportunity (take (unat limit) (drop (unat offset) rows))), tick d')"
    using inserted_rows [OF E ins len, of L] by blast
  then have "length rows = 5" by (metis length_replicate list_all2_lengthD)
  then show ?thesis
    unfolding passes_def backtest_pagination_def by (simp only: bindE_def five(1)) (simp add: five(3) [rule_format] okE_def bindE_def)
qed

lemma backtest_end_to_end_passes:
  assumes E: "engine_ok E"
  shows "passes (backtest_end_to_end L E)"
proof -
  let ?goes = "map (\<lambda>profit. (sim_opp profit (f64_of_int 2) 10, ''go'', None)) [f64_of_int 20, f64_of_int 15, f64_of_int 10]"
  let ?nos = "map (\<lambda>profit. (sim_opp profit (f64_of_int 2) 10, ''no-go'', Some ''net_profit_usd <= min_profit_usd 5.0'')) [f64_of_int 3, f64_of_int 4]"
  have ins: "\<forall>x \<in> set (?goes @ ?nos). insertable x" and len: "length (?goes @ ?nos) \<le> 5" using insertable_sim real_lits by simp_all
  obtain rows d where all: "insert_each L E (?goes @ ?nos) migrated_database = (Inr (), d)" "list_all2 bound_row (?goes @ ?nos) rows"
    "\<forall>limit offset d'. opportunities d' = opportunities d \<longrightarrow> get_opportunities_for_backtest E limit offset d' =
         (Inr (map record_of_opportunity (take (unat limit) (drop (unat offset) rows))), tick d')"
    using inserted_rows [OF E ins len, of L] by blast
  have split: "bindE (insert_each L E ?goes) (\<lambda>_. bindE (insert_each L E ?nos) k) = bindE (insert_each L E (?goes @ ?nos)) k" for k
    unfolding insert_each_append by (auto simp: bindE_def fun_eq_iff split: sum.splits prod.splits)
  obtain r1 r2 r3 r4 r5 where rows: "rows = [r1, r2, r3, r4, r5]"
    "o_estimated_profit r1 = f64_of_int 20" "o_estimated_profit r2 = f64_of_int 15" "o_estimated_profit r3 = f64_of_int 10"
    "o_estimated_profit r4 = f64_of_int 3" "o_estimated_profit r5 = f64_of_int 4"
    "o_decision r1 = ''go''" "o_decision r2 = ''go''" "o_decision r3 = ''go''" "o_decision r4 = ''no-go''" "o_decision r5 = ''no-go''"
    "\<forall>r \<in> {r1, r2, r3, r4, r5}. o_gas_estimate_usd r = f64_of_int 2"
    using all(2) by (auto simp: list_all2_Cons1 bound_sim real_lits)
  let ?rs = "map record_of_opportunity [r1, r2, r3, r4, r5]"
  have five: "filter (row_matches (f64_of_int 5)) ?rs = ?rs" "filter (\<lambda>r. \<not> row_matches (f64_of_int 5) r) ?rs = []"
    "filter (\<lambda>r. \<not> row_matches (f64_of_int 12) r) ?rs = [record_of_opportunity r3]"
    using rows end_to_end_nets nets by (simp_all add: row_matches_record)
  have "mismatch_of (f64_of_int 12) (record_of_opportunity r3) = x \<Longrightarrow> bm_original_decision x = ''go'' \<and> bm_recomputed_decision x = ''no-go''" for x
    using rows end_to_end_nets by (auto simp: mismatch_of_def recompute_def record_of_opportunity_def Let_def)
  then have "matched (run_backtest ?rs (f64_of_int 5)) = 5 \<and> mismatched (run_backtest ?rs (f64_of_int 5)) = 0 \<and>
      total (run_backtest ?rs (f64_of_int 5)) = 5 \<and> match_rate_pct (run_backtest ?rs (f64_of_int 5)) = f64_of_int 100 \<and>
      mismatched (run_backtest ?rs (f64_of_int 12)) = 1 \<and>
      (\<exists>x. mismatches (run_backtest ?rs (f64_of_int 12)) = [x] \<and> bm_original_decision x = ''go'' \<and> bm_recomputed_decision x = ''no-go'')"
    unfolding run_backtest_def backtest_fold five by (simp add: backtest_init_def Let_def end_to_end_nets(8))
  moreover have "get_opportunities_for_backtest E 100 0 d = (Inr ?rs, tick d)"
    using all(3) by (simp add: rows(1))
  ultimately show ?thesis
    unfolding passes_def backtest_end_to_end_def split Let_def
    by (simp only: bindE_def [of "insert_each L E (?goes @ ?nos)"] all(1)) (auto simp: bindE_def okE_def simp del: list.map)
qed

section \<open>All tests\<close>


lemma sqlite_ref_engine: "engine_ok sqlite_ref"
proof -
  have "foldl f64_add (F64_Zero False) [x] = x" if "bind_real x = Some x" for x
    using that by (cases x) (auto simp: bind_real_def)
  then show ?thesis by (auto simp: engine_ok_def mono_def) (simp_all add: sqlite_ref_def)
qed


end
