(* ===== verification/Config.thy ===== *)
theory Config
  imports Alloy_Lib
begin

text \<open>
  Configuration, \<^verbatim>\<open>zelvex-config/src/lib.rs\<close>: the sections as records, the environment overrides in
  source order, and the socket-address parser of the standard library that one of them uses. The TOML
  parser and the \<^verbatim>\<open>.env\<close> loader are arguments of \<open>load_config\<close>. A variable that is unset or not
  Unicode is \<open>None\<close> of the environment.
\<close>

section \<open>Socket addresses\<close>

datatype socket_addr =
    SockV4 "u8 list" "16 word"
  | SockV6 "16 word list" u32 "16 word"

type_synonym 'a reader = "string \<Rightarrow> ('a \<times> string) option"

definition read_char :: "char \<Rightarrow> unit reader" where
  "read_char c s = (case s of [] \<Rightarrow> None | x # xs \<Rightarrow> if x = c then Some ((), xs) else None)"

definition to_digit :: "nat \<Rightarrow> char \<Rightarrow> nat option" where
  "to_digit radix c =
     (let n = (of_char c :: nat);
          d = (if 48 \<le> n \<and> n \<le> 57 then n - 48
               else if 97 \<le> n \<and> n \<le> 122 then n - 87
               else if 65 \<le> n \<and> n \<le> 90 then n - 55 else 99)
      in if d < radix then Some d else None)"

text \<open>
  \<open>read_number\<close>: all digits that follow; \<open>None\<close> when there are none or too many, when the value is
  out of range, or on a leading zero where that is not allowed.
\<close>

definition read_number :: "nat \<Rightarrow> nat option \<Rightarrow> bool \<Rightarrow> nat \<Rightarrow> nat reader" where
  "read_number radix max_digits allow_zero_prefix bound s =
     (let ds = takeWhile (\<lambda>c. to_digit radix c \<noteq> None) s;
          v = foldl (\<lambda>a c. radix * a + the (to_digit radix c)) 0 ds
      in if ds = [] \<or> bound \<le> v \<or> (case max_digits of None \<Rightarrow> False | Some m \<Rightarrow> m < length ds) \<or>
            (\<not> allow_zero_prefix \<and> hd ds = CHR ''0'' \<and> 1 < length ds)
         then None else Some (v, drop (length ds) s))"

definition read_separator :: "char \<Rightarrow> nat \<Rightarrow> 'a reader \<Rightarrow> 'a reader" where
  "read_separator c i p s =
     (if 0 < i then Option.bind (read_char c s) (\<lambda>(_, s'). p s') else p s)"

fun read_ipv4_groups :: "nat \<Rightarrow> nat \<Rightarrow> u8 list reader" where
  "read_ipv4_groups 0 i s = Some ([], s)"
| "read_ipv4_groups (Suc n) i s =
     Option.bind (read_separator CHR ''.'' i (read_number 10 (Some 3) False 256) s) (\<lambda>(v, s1).
     Option.bind (read_ipv4_groups n (Suc i) s1) (\<lambda>(vs, s2). Some (word_of_nat v # vs, s2)))"

definition read_ipv4_addr :: "u8 list reader" where
  "read_ipv4_addr = read_ipv4_groups 4 0"

text \<open>\<open>read_groups\<close> into a slice of \<open>limit\<close> groups: those read, whether they end in an IPv4 part, the rest.\<close>

fun read_groups :: "nat \<Rightarrow> nat \<Rightarrow> string \<Rightarrow> 16 word list \<times> bool \<times> string" where
  "read_groups 0 i s = ([], False, s)"
| "read_groups (Suc n) i s =
     (case (if 0 < n then read_separator CHR '':'' i read_ipv4_addr s else None) of
        Some (v4, s') \<Rightarrow>
          ([word_of_nat (256 * unat (v4 ! 0) + unat (v4 ! 1)), word_of_nat (256 * unat (v4 ! 2) + unat (v4 ! 3))], True, s')
      | None \<Rightarrow>
          (case read_separator CHR '':'' i (read_number 16 (Some 4) True 65536) s of
             None \<Rightarrow> ([], False, s)
           | Some (g, s') \<Rightarrow> (case read_groups n (Suc i) s' of (gs, f, s'') \<Rightarrow> (word_of_nat g # gs, f, s''))))"

definition read_ipv6_addr :: "16 word list reader" where
  "read_ipv6_addr s =
     (case read_groups 8 0 s of
        (head, head_ipv4, s1) \<Rightarrow>
          if length head = 8 then Some (head, s1)
          else if head_ipv4 then None
          else
            Option.bind (read_char CHR '':'' s1) (\<lambda>(_, s2).
            Option.bind (read_char CHR '':'' s2) (\<lambda>(_, s3).
              case read_groups (8 - (length head + 1)) 0 s3 of
                (tail, _, s4) \<Rightarrow> Some (head @ replicate (8 - length head - length tail) 0 @ tail, s4))))"

definition read_port :: "16 word reader" where
  "read_port s = Option.bind (read_char CHR '':'' s) (\<lambda>(_, s1).
     Option.bind (read_number 10 None True 65536 s1) (\<lambda>(v, s2). Some (word_of_nat v, s2)))"

definition read_scope_id :: "u32 reader" where
  "read_scope_id s = Option.bind (read_char CHR ''%'' s) (\<lambda>(_, s1).
     Option.bind (read_number 10 None True 4294967296 s1) (\<lambda>(v, s2). Some (word_of_nat v, s2)))"

definition read_socket_addr :: "socket_addr reader" where
  "read_socket_addr s =
     (case Option.bind (read_ipv4_addr s) (\<lambda>(ip, s1). Option.bind (read_port s1) (\<lambda>(p, s2). Some (SockV4 ip p, s2))) of
        Some r \<Rightarrow> Some r
      | None \<Rightarrow>
          Option.bind (read_char CHR ''['' s) (\<lambda>(_, s1).
          Option.bind (read_ipv6_addr s1) (\<lambda>(ip, s2).
            let (scope, s3) = (case read_scope_id s2 of None \<Rightarrow> (0, s2) | Some r \<Rightarrow> r)
            in Option.bind (read_char CHR '']'' s3) (\<lambda>(_, s4).
               Option.bind (read_port s4) (\<lambda>(p, s5). Some (SockV6 ip scope p, s5))))))"

definition parse_socket_addr :: "string \<Rightarrow> socket_addr option" where
  "parse_socket_addr s = (case read_socket_addr s of Some (a, []) \<Rightarrow> Some a | _ \<Rightarrow> None)"

section \<open>The configuration\<close>

datatype config_error =
    ReadConfig string
  | ParseToml string
  | InvalidEnvOverride string string

record node_config =
  ws_url :: string

record flashbots_config =
  cfg_relay_url :: string

record bot_config =
  cfg_min_profit_usd :: f64
  max_gas_gwei :: u64
  paper_trade :: bool

record pools_config =
  seed_pairs :: "string list"
  min_liquidity_usd :: f64

record server_config =
  bind_addr :: socket_addr
  web_ui_path :: string

record database_config =
  db_path :: string

record auth_config =
  jwt_secret :: string
  jwt_expiry_seconds :: u64

record keys_config =
  signer_key_path :: string
  flashbots_key_path :: string
  contract_address :: address
  aave_pool_provider :: address

record config =
  cfg_node :: node_config
  cfg_flashbots :: flashbots_config
  cfg_bot :: bot_config
  cfg_pools :: pools_config
  cfg_server :: server_config
  cfg_database :: database_config
  cfg_auth :: auth_config
  cfg_keys :: keys_config

definition default_min_liquidity_usd :: f64 where
  "default_min_liquidity_usd = f64_of_int 500000"

definition default_jwt_expiry :: u64 where
  "default_jwt_expiry = 86400"

definition deserialize_address :: "alloy \<Rightarrow> string \<Rightarrow> string + address" where
  "deserialize_address L s = (case address_parse L s of None \<Rightarrow> Inl ''invalid address'' | Some a \<Rightarrow> Inr a)"

type_synonym environment = "string \<Rightarrow> string option"

definition env_override ::
  "environment \<Rightarrow> ('a \<Rightarrow> 'c \<Rightarrow> 'c) \<Rightarrow> string \<Rightarrow> (string \<Rightarrow> 'a option) \<Rightarrow> 'c \<Rightarrow> config_error + 'c" where
  "env_override env set_target key parse c =
     (case env key of
        None \<Rightarrow> Inr c
      | Some value \<Rightarrow>
          (case parse value of
             Some parsed \<Rightarrow> Inr (set_target parsed c)
           | None \<Rightarrow> Inl (InvalidEnvOverride key value)))"

definition parse_bool :: "string \<Rightarrow> bool option" where
  "parse_bool s = (if s = ''true'' then Some True else if s = ''false'' then Some False else None)"

definition parse_seed_pairs :: "string \<Rightarrow> string list" where
  "parse_seed_pairs v = filter (\<lambda>s. s \<noteq> []) (map str_trim (split_on CHR '','' v))"

definition on_bot :: "(bot_config \<Rightarrow> bot_config) \<Rightarrow> config \<Rightarrow> config" where "on_bot f c = cfg_bot_update f c"
definition on_pools :: "(pools_config \<Rightarrow> pools_config) \<Rightarrow> config \<Rightarrow> config" where "on_pools f c = cfg_pools_update f c"
definition on_server :: "(server_config \<Rightarrow> server_config) \<Rightarrow> config \<Rightarrow> config" where "on_server f c = cfg_server_update f c"
definition on_auth :: "(auth_config \<Rightarrow> auth_config) \<Rightarrow> config \<Rightarrow> config" where "on_auth f c = cfg_auth_update f c"
definition on_keys :: "(keys_config \<Rightarrow> keys_config) \<Rightarrow> config \<Rightarrow> config" where "on_keys f c = cfg_keys_update f c"

definition apply_env_overrides :: "alloy \<Rightarrow> environment \<Rightarrow> config \<Rightarrow> config_error + config" where
  "apply_env_overrides L env c =
     bindR (env_override env (\<lambda>v. cfg_node_update (ws_url_update (\<lambda>_. v))) ''ZELVEX_NODE_WS_URL'' Some c) (\<lambda>c.
     bindR (env_override env (\<lambda>v. cfg_flashbots_update (cfg_relay_url_update (\<lambda>_. v)))
              ''ZELVEX_FLASHBOTS_RELAY_URL'' Some c) (\<lambda>c.
     bindR (env_override env (\<lambda>v. on_bot (cfg_min_profit_usd_update (\<lambda>_. v)))
              ''ZELVEX_BOT_MIN_PROFIT_USD'' f64_parse c) (\<lambda>c.
     bindR (env_override env (\<lambda>v. on_bot (max_gas_gwei_update (\<lambda>_. v)))
              ''ZELVEX_BOT_MAX_GAS_GWEI'' parse_u64 c) (\<lambda>c.
     bindR (env_override env (\<lambda>v. on_bot (paper_trade_update (\<lambda>_. v)))
              ''ZELVEX_BOT_PAPER_TRADE'' parse_bool c) (\<lambda>c.
     bindR (env_override env (\<lambda>v. on_pools (seed_pairs_update (\<lambda>_. v)))
              ''ZELVEX_POOLS_SEED_PAIRS'' (\<lambda>v. Some (parse_seed_pairs v)) c) (\<lambda>c.
     bindR (env_override env (\<lambda>v. on_pools (min_liquidity_usd_update (\<lambda>_. v)))
              ''ZELVEX_POOLS_MIN_LIQUIDITY_USD'' f64_parse c) (\<lambda>c.
     bindR (env_override env (\<lambda>v. on_server (bind_addr_update (\<lambda>_. v)))
              ''ZELVEX_SERVER_BIND_ADDR'' parse_socket_addr c) (\<lambda>c.
     bindR (env_override env (\<lambda>v. on_server (web_ui_path_update (\<lambda>_. v)))
              ''ZELVEX_SERVER_WEB_UI_PATH'' Some c) (\<lambda>c.
     bindR (env_override env (\<lambda>v. cfg_database_update (db_path_update (\<lambda>_. v)))
              ''ZELVEX_DATABASE_PATH'' Some c) (\<lambda>c.
     bindR (env_override env (\<lambda>v. on_auth (jwt_secret_update (\<lambda>_. v)))
              ''ZELVEX_AUTH_JWT_SECRET'' Some c) (\<lambda>c.
     bindR (env_override env (\<lambda>v. on_auth (jwt_expiry_seconds_update (\<lambda>_. v)))
              ''ZELVEX_AUTH_JWT_EXPIRY_SECONDS'' parse_u64 c) (\<lambda>c.
     bindR (env_override env (\<lambda>v. on_keys (signer_key_path_update (\<lambda>_. v)))
              ''ZELVEX_KEYS_SIGNER_KEY_PATH'' Some c) (\<lambda>c.
     bindR (env_override env (\<lambda>v. on_keys (flashbots_key_path_update (\<lambda>_. v)))
              ''ZELVEX_KEYS_FLASHBOTS_KEY_PATH'' Some c) (\<lambda>c.
     bindR (env_override env (\<lambda>v. on_keys (contract_address_update (\<lambda>_. v)))
              ''ZELVEX_KEYS_CONTRACT_ADDRESS'' (address_parse L) c) (\<lambda>c.
     bindR (env_override env (\<lambda>v. on_keys (aave_pool_provider_update (\<lambda>_. v)))
              ''ZELVEX_KEYS_AAVE_POOL_PROVIDER'' (address_parse L) c) (\<lambda>c. Inr c))))))))))))))))"

definition load_config ::
  "alloy \<Rightarrow> (environment \<Rightarrow> environment) \<Rightarrow> (string \<Rightarrow> string + string) \<Rightarrow> (string \<Rightarrow> string + config) \<Rightarrow>
     environment \<Rightarrow> string \<Rightarrow> config_error + config" where
  "load_config L dotenv read from_toml env0 path =
     (let env = dotenv env0
      in case read path of
           Inl e \<Rightarrow> Inl (ReadConfig e)
         | Inr content \<Rightarrow>
             (case from_toml content of
                Inl e \<Rightarrow> Inl (ParseToml e)
              | Inr c \<Rightarrow> apply_env_overrides L env c))"

section \<open>Fields and their overrides\<close>

text \<open>The value a variable gives a field: what it parses to when it is set, else the old value.\<close>

definition overridden :: "environment \<Rightarrow> string \<Rightarrow> (string \<Rightarrow> 'a option) \<Rightarrow> 'a \<Rightarrow> 'a" where
  "overridden env key parse old = (case Option.bind (env key) parse of None \<Rightarrow> old | Some x \<Rightarrow> x)"

definition accepted :: "environment \<Rightarrow> string \<Rightarrow> (string \<Rightarrow> 'a option) \<Rightarrow> bool" where
  "accepted env key parse \<longleftrightarrow> (case env key of None \<Rightarrow> True | Some v \<Rightarrow> parse v \<noteq> None)"

lemma accepted_total [simp]: "accepted env key Some" "accepted env key (\<lambda>v. Some (f v))"
  by (simp_all add: accepted_def split: option.splits)

locale config_field =
  fixes modify :: "('a \<Rightarrow> 'a) \<Rightarrow> config \<Rightarrow> config"
  assumes modify_id: "modify (\<lambda>x. x) c = c"
    and modify_comp: "modify f (modify g c) = modify (\<lambda>x. f (g x)) c"
begin

lemma override_step:
  "bindR (env_override env (\<lambda>v. modify (\<lambda>_. v)) key parse c) f =
     (if accepted env key parse then f (modify (overridden env key parse) c)
      else Inl (InvalidEnvOverride key (the (env key))))"
  by (auto simp: env_override_def overridden_def [abs_def] accepted_def modify_id split: option.splits)

lemma override_twice:
  "modify (overridden env key parse) (modify (overridden env key parse) c) = modify (overridden env key parse) c"
  by (cases "Option.bind (env key) parse") (simp_all add: modify_comp overridden_def [abs_def])

end

lemmas on_section_defs = on_bot_def on_pools_def on_server_def on_auth_def on_keys_def

interpretation f_node_ws: config_field "\<lambda>f. cfg_node_update (ws_url_update f)"
  by unfold_locales (simp_all add: on_section_defs)

interpretation f_relay: config_field "\<lambda>f. cfg_flashbots_update (cfg_relay_url_update f)"
  by unfold_locales (simp_all add: on_section_defs)

interpretation f_min_profit: config_field "\<lambda>f. on_bot (cfg_min_profit_usd_update f)"
  by unfold_locales (simp_all add: on_section_defs)

interpretation f_max_gas: config_field "\<lambda>f. on_bot (max_gas_gwei_update f)"
  by unfold_locales (simp_all add: on_section_defs)

interpretation f_paper: config_field "\<lambda>f. on_bot (paper_trade_update f)"
  by unfold_locales (simp_all add: on_section_defs)

interpretation f_seeds: config_field "\<lambda>f. on_pools (seed_pairs_update f)"
  by unfold_locales (simp_all add: on_section_defs)

interpretation f_liquidity: config_field "\<lambda>f. on_pools (min_liquidity_usd_update f)"
  by unfold_locales (simp_all add: on_section_defs)

interpretation f_bind: config_field "\<lambda>f. on_server (bind_addr_update f)"
  by unfold_locales (simp_all add: on_section_defs)

interpretation f_web_ui: config_field "\<lambda>f. on_server (web_ui_path_update f)"
  by unfold_locales (simp_all add: on_section_defs)

interpretation f_db: config_field "\<lambda>f. cfg_database_update (db_path_update f)"
  by unfold_locales (simp_all add: on_section_defs)

interpretation f_secret: config_field "\<lambda>f. on_auth (jwt_secret_update f)"
  by unfold_locales (simp_all add: on_section_defs)

interpretation f_expiry: config_field "\<lambda>f. on_auth (jwt_expiry_seconds_update f)"
  by unfold_locales (simp_all add: on_section_defs)

interpretation f_signer_key: config_field "\<lambda>f. on_keys (signer_key_path_update f)"
  by unfold_locales (simp_all add: on_section_defs)

interpretation f_flashbots_key: config_field "\<lambda>f. on_keys (flashbots_key_path_update f)"
  by unfold_locales (simp_all add: on_section_defs)

interpretation f_contract: config_field "\<lambda>f. on_keys (contract_address_update f)"
  by unfold_locales (simp_all add: on_section_defs)

interpretation f_aave: config_field "\<lambda>f. on_keys (aave_pool_provider_update f)"
  by unfold_locales (simp_all add: on_section_defs)

lemmas override_steps = f_node_ws.override_step f_relay.override_step f_min_profit.override_step f_max_gas.override_step f_paper.override_step f_seeds.override_step f_liquidity.override_step f_bind.override_step f_web_ui.override_step f_db.override_step f_secret.override_step f_expiry.override_step f_signer_key.override_step f_flashbots_key.override_step f_contract.override_step f_aave.override_step

text \<open>The variables whose value can be rejected, in the order they are read, and whether it is accepted.\<close>

definition checked_overrides :: "alloy \<Rightarrow> environment \<Rightarrow> (string \<times> bool) list" where
  "checked_overrides L env =
     [(''ZELVEX_BOT_MIN_PROFIT_USD'', accepted env ''ZELVEX_BOT_MIN_PROFIT_USD'' f64_parse),
      (''ZELVEX_BOT_MAX_GAS_GWEI'', accepted env ''ZELVEX_BOT_MAX_GAS_GWEI'' parse_u64),
      (''ZELVEX_BOT_PAPER_TRADE'', accepted env ''ZELVEX_BOT_PAPER_TRADE'' parse_bool),
      (''ZELVEX_POOLS_MIN_LIQUIDITY_USD'', accepted env ''ZELVEX_POOLS_MIN_LIQUIDITY_USD'' f64_parse),
      (''ZELVEX_SERVER_BIND_ADDR'', accepted env ''ZELVEX_SERVER_BIND_ADDR'' parse_socket_addr),
      (''ZELVEX_AUTH_JWT_EXPIRY_SECONDS'', accepted env ''ZELVEX_AUTH_JWT_EXPIRY_SECONDS'' parse_u64),
      (''ZELVEX_KEYS_CONTRACT_ADDRESS'', accepted env ''ZELVEX_KEYS_CONTRACT_ADDRESS'' (address_parse L)),
      (''ZELVEX_KEYS_AAVE_POOL_PROVIDER'', accepted env ''ZELVEX_KEYS_AAVE_POOL_PROVIDER'' (address_parse L))]"

definition overridden_config :: "alloy \<Rightarrow> environment \<Rightarrow> config \<Rightarrow> config" where
  "overridden_config L env c =
     \<lparr>cfg_node = \<lparr>ws_url = overridden env ''ZELVEX_NODE_WS_URL'' Some (ws_url (cfg_node c))\<rparr>,
          cfg_flashbots = \<lparr>cfg_relay_url = overridden env ''ZELVEX_FLASHBOTS_RELAY_URL'' Some (cfg_relay_url (cfg_flashbots c))\<rparr>,
          cfg_bot = \<lparr>cfg_min_profit_usd = overridden env ''ZELVEX_BOT_MIN_PROFIT_USD'' f64_parse (cfg_min_profit_usd (cfg_bot c)),
            max_gas_gwei = overridden env ''ZELVEX_BOT_MAX_GAS_GWEI'' parse_u64 (max_gas_gwei (cfg_bot c)),
            paper_trade = overridden env ''ZELVEX_BOT_PAPER_TRADE'' parse_bool (paper_trade (cfg_bot c))\<rparr>,
          cfg_pools = \<lparr>seed_pairs = overridden env ''ZELVEX_POOLS_SEED_PAIRS'' (\<lambda>v. Some (parse_seed_pairs v)) (seed_pairs (cfg_pools c)),
            min_liquidity_usd = overridden env ''ZELVEX_POOLS_MIN_LIQUIDITY_USD'' f64_parse (min_liquidity_usd (cfg_pools c))\<rparr>,
          cfg_server = \<lparr>bind_addr = overridden env ''ZELVEX_SERVER_BIND_ADDR'' parse_socket_addr (bind_addr (cfg_server c)),
            web_ui_path = overridden env ''ZELVEX_SERVER_WEB_UI_PATH'' Some (web_ui_path (cfg_server c))\<rparr>,
          cfg_database = \<lparr>db_path = overridden env ''ZELVEX_DATABASE_PATH'' Some (db_path (cfg_database c))\<rparr>,
          cfg_auth = \<lparr>jwt_secret = overridden env ''ZELVEX_AUTH_JWT_SECRET'' Some (jwt_secret (cfg_auth c)),
            jwt_expiry_seconds = overridden env ''ZELVEX_AUTH_JWT_EXPIRY_SECONDS'' parse_u64 (jwt_expiry_seconds (cfg_auth c))\<rparr>,
          cfg_keys = \<lparr>signer_key_path = overridden env ''ZELVEX_KEYS_SIGNER_KEY_PATH'' Some (signer_key_path (cfg_keys c)),
            flashbots_key_path = overridden env ''ZELVEX_KEYS_FLASHBOTS_KEY_PATH'' Some (flashbots_key_path (cfg_keys c)),
            contract_address = overridden env ''ZELVEX_KEYS_CONTRACT_ADDRESS'' (address_parse L) (contract_address (cfg_keys c)),
            aave_pool_provider = overridden env ''ZELVEX_KEYS_AAVE_POOL_PROVIDER'' (address_parse L) (aave_pool_provider (cfg_keys c))\<rparr>\<rparr>"

section \<open>Properties\<close>

text \<open>
  C32: applying the environment succeeds exactly when every variable that needs parsing and is set has a
  value its parser accepts; then each of the sixteen settings is what its own variable
  \<^verbatim>\<open>ZELVEX_<SECTION>_<KEY>\<close> says when that is set, and is otherwise unchanged. If not, the error names
  the first rejected variable in reading order with its value.
\<close>

theorem apply_env_overrides_spec:
  "apply_env_overrides L env c =
     (case find (\<lambda>(key, ok). \<not> ok) (checked_overrides L env) of
        None \<Rightarrow> Inr (overridden_config L env c)
      | Some (key, ok) \<Rightarrow> Inl (InvalidEnvOverride key (the (env key))))"
  unfolding apply_env_overrides_def override_steps checked_overrides_def overridden_config_def on_section_defs
  by (cases c) simp

end
