(* ===== verification/Api.thy ===== *)
theory Api
  imports Scanner Config
begin

text \<open>
  The REST interface, \<^verbatim>\<open>zelvex-api/src/lib.rs\<close>: the routes and their guard, login, registration, bot
  control, statistics, wallet and trades. The state is the database and the login limiter. What the
  libraries do (password hashing, tokens, SQL error texts, the file system) is the argument \<open>A\<close>; the
  clocks are arguments of the handlers that read them.
\<close>

section \<open>Errors and answers\<close>

datatype api_error =
    BadRequest string
  | Unauthorized string
  | Forbidden string
  | Conflict string
  | RateLimited string
  | Internal string

fun api_status_code :: "api_error \<Rightarrow> nat" where
  "api_status_code (BadRequest _) = 400"
| "api_status_code (Unauthorized _) = 401"
| "api_status_code (Forbidden _) = 403"
| "api_status_code (Conflict _) = 409"
| "api_status_code (RateLimited _) = 429"
| "api_status_code (Internal _) = 500"

fun api_code :: "api_error \<Rightarrow> string" where
  "api_code (BadRequest _) = ''BAD_REQUEST''"
| "api_code (Unauthorized _) = ''UNAUTHORIZED''"
| "api_code (Forbidden _) = ''FORBIDDEN''"
| "api_code (Conflict _) = ''CONFLICT''"
| "api_code (RateLimited _) = ''RATE_LIMITED''"
| "api_code (Internal _) = ''INTERNAL_ERROR''"

fun api_error_text :: "api_error \<Rightarrow> string" where
  "api_error_text (BadRequest s) = s"
| "api_error_text (Unauthorized s) = s"
| "api_error_text (Forbidden s) = s"
| "api_error_text (Conflict s) = s"
| "api_error_text (RateLimited s) = s"
| "api_error_text (Internal s) = s"

datatype response = RespJson nat json | RespFile string bytes | RespUpgrade

definition error_response :: "api_error \<Rightarrow> response" where
  "error_response e =
     RespJson (api_status_code e) (JObject [(''error'', JString (api_error_text e)), (''code'', JString (api_code e))])"

text \<open>\<open>json!\<close> of a double and of an \<open>i64\<close>: a double that is not finite becomes \<open>null\<close>.\<close>

definition json_f64 :: "f64 \<Rightarrow> json" where
  "json_f64 x = (if f64_is_finite x then JNumber (Float x) else JNull)"

definition json_i64 :: "i64 \<Rightarrow> json" where
  "json_i64 i = JNumber (if 0 \<le> i then PosInt (word_of_int i) else NegInt i)"

section \<open>State and libraries\<close>

datatype ip_addr = IpV4 "u8 list" | IpV6 "16 word list"

record auth_request =
  rq_username :: string
  rq_password :: string

record claims =
  cl_sub :: string
  cl_uid :: i64
  cl_exp :: u64

record auth_response =
  au_token :: string
  au_expires_at :: i64

record app_config =
  app_jwt_secret :: string
  app_jwt_expiry_seconds :: u64
  app_web_ui_path :: string
  app_node_ws_url :: string
  app_wallet_address :: address
  app_start_time :: int

record api_state =
  as_db :: database
  as_limiter :: "ip_addr \<Rightarrow> int list"

record api_lib =
  password_hash_ok :: "string \<Rightarrow> bool"
  verify_password :: "string \<Rightarrow> string \<Rightarrow> bool"
  hash_password :: "string \<Rightarrow> string \<Rightarrow> string option"
  jwt_encode :: "string \<Rightarrow> claims \<Rightarrow> string option"
  jwt_decode :: "string \<Rightarrow> int \<Rightarrow> string \<Rightarrow> claims option"
  api_sqlx_text :: "sqlx_error \<Rightarrow> string"
  read_file :: "string \<Rightarrow> bytes option"

type_synonym 'a api_io = "(api_state, api_error fail, 'a) io"

definition fail_with :: "api_error \<Rightarrow> 'a api_io" where
  "fail_with e = errE (Err e)"

definition run_db :: "'a db_io \<Rightarrow> (api_state, sqlx_error, 'a) io" where
  "run_db f s = (case f (as_db s) of (r, d) \<Rightarrow> (r, s\<lparr>as_db := d\<rparr>))"

text \<open>A query whose error becomes \<open>Internal\<close>.\<close>

definition query :: "api_lib \<Rightarrow> 'a db_io \<Rightarrow> 'a api_io" where
  "query A f = mapErr (\<lambda>e. Err (Internal (api_sqlx_text A e))) (run_db f)"

section \<open>Tokens\<close>

text \<open>\<open>a + b\<close> on \<open>i64\<close>.\<close>

definition add_i64 :: "bool \<Rightarrow> i64 \<Rightarrow> i64 \<Rightarrow> i64 outcome" where
  "add_i64 chk a b =
     (if i64_min \<le> a + b \<and> a + b \<le> i64_max then Ret (a + b)
      else if chk then Panicked else Ret (u64_as_i64 (word_of_int (a + b))))"

definition issue_jwt ::
  "bool \<Rightarrow> api_lib \<Rightarrow> app_config \<Rightarrow> int \<Rightarrow> i64 \<Rightarrow> string \<Rightarrow> (string \<times> i64) api_io" where
  "issue_jwt chk A c utc uid name =
     bindE (liftO (add_i64 chk utc (u64_as_i64 (app_jwt_expiry_seconds c)))) (\<lambda>expiry.
       case jwt_encode A (app_jwt_secret c) \<lparr>cl_sub = name, cl_uid = uid, cl_exp = i64_as_u64 expiry\<rparr> of
         None \<Rightarrow> fail_with (Internal ''jwt encode failed'')
       | Some token \<Rightarrow> okE (token, expiry))"

definition decode_jwt :: "api_lib \<Rightarrow> app_config \<Rightarrow> int \<Rightarrow> string \<Rightarrow> api_error + claims" where
  "decode_jwt A c utc token =
     (case jwt_decode A (app_jwt_secret c) utc token of
        None \<Rightarrow> Inl (Unauthorized ''invalid jwt'')
      | Some cl \<Rightarrow> Inr cl)"

text \<open>
  \<open>headers\<close> is the value of the Authorization header, \<open>None\<close> when it is missing or not visible ASCII.
\<close>

definition extract_bearer :: "string option \<Rightarrow> string option" where
  "extract_bearer authorization =
     (case authorization of
        None \<Rightarrow> None
      | Some value \<Rightarrow>
          if take 7 value = ''Bearer '' then Some (str_trim (drop 7 value)) else None)"

definition require_jwt :: "api_lib \<Rightarrow> app_config \<Rightarrow> int \<Rightarrow> string option \<Rightarrow> 'a api_io \<Rightarrow> 'a api_io" where
  "require_jwt A c utc authorization run =
     (case extract_bearer authorization of
        None \<Rightarrow> fail_with (Unauthorized ''missing jwt'')
      | Some token \<Rightarrow>
          (case decode_jwt A c utc token of Inl e \<Rightarrow> fail_with e | Inr _ \<Rightarrow> run))"

section \<open>Login and registration\<close>

definition enforce_login_rate_limit :: "int \<Rightarrow> ip_addr \<Rightarrow> unit api_io" where
  "enforce_login_rate_limit now ip s =
     (let entry = filter (\<lambda>t. max 0 (now - t) < int (duration_secs 60)) (as_limiter s ip)
      in if 5 \<le> length entry
         then (Inl (Err (RateLimited ''too many attempts'')), s\<lparr>as_limiter := (as_limiter s)(ip := entry)\<rparr>)
         else (Inr (), s\<lparr>as_limiter := (as_limiter s)(ip := entry @ [now])\<rparr>))"

definition contains_text :: "string \<Rightarrow> string \<Rightarrow> bool" where
  "contains_text pat s = list_ex (\<lambda>i. take (length pat) (drop i s) = pat) [0..<Suc (length s)]"

fun is_unique_violation :: "sqlx_error \<Rightarrow> bool" where
  "is_unique_violation (SqlxDatabase msg) = contains_text ''unique'' (map to_lower msg)"
| "is_unique_violation (SqlxOther _) = False"

definition auth_login ::
  "bool \<Rightarrow> api_lib \<Rightarrow> sqlite \<Rightarrow> app_config \<Rightarrow> int \<Rightarrow> int \<Rightarrow> ip_addr \<Rightarrow> auth_request \<Rightarrow> auth_response api_io" where
  "auth_login chk A E c now utc ip req =
     (if rq_username req = [] \<or> rq_password req = [] then fail_with (BadRequest ''missing fields'')
      else
        bindE (enforce_login_rate_limit now ip) (\<lambda>_.
        bindE (query A (get_user_by_username E (rq_username req))) (\<lambda>found.
          case found of
            None \<Rightarrow> fail_with (Unauthorized ''invalid credentials'')
          | Some u \<Rightarrow>
              if \<not> password_hash_ok A (password_hash u) then fail_with (Unauthorized ''invalid credentials'')
              else if \<not> verify_password A (rq_password req) (password_hash u)
              then fail_with (Unauthorized ''invalid credentials'')
              else bindE (issue_jwt chk A c utc (user_id u) (username u)) (\<lambda>(token, expiry).
                     okE \<lparr>au_token = token, au_expires_at = expiry\<rparr>))))"

text \<open>
  Registration in the two parts between which another request may run: the check that no user exists,
  and the insertion.
\<close>

definition register_check :: "api_lib \<Rightarrow> sqlite \<Rightarrow> auth_request \<Rightarrow> unit api_io" where
  "register_check A E req =
     (if rq_username req = [] \<or> rq_password req = [] then fail_with (BadRequest ''missing fields'')
      else if length (rq_password req) < 12 then fail_with (BadRequest ''password too short'')
      else
        bindE (query A (get_user_count E)) (\<lambda>user_count.
          if user_count > 0 then fail_with (Forbidden ''registration disabled'') else okE ()))"

definition register_insert ::
  "bool \<Rightarrow> api_lib \<Rightarrow> sqlite \<Rightarrow> app_config \<Rightarrow> int \<Rightarrow> string \<Rightarrow> auth_request \<Rightarrow> auth_response api_io" where
  "register_insert chk A E c utc salt req =
     (case hash_password A salt (rq_password req) of
        None \<Rightarrow> fail_with (Internal ''password hash failure'')
      | Some hash \<Rightarrow>
          bindE (mapErr (\<lambda>e. Err (if is_unique_violation e then Conflict ''username already exists''
                                  else Internal (api_sqlx_text A e)))
                   (run_db (insert_user E (rq_username req) hash))) (\<lambda>uid.
          bindE (issue_jwt chk A c utc uid (rq_username req)) (\<lambda>(token, expiry).
            okE \<lparr>au_token = token, au_expires_at = expiry\<rparr>)))"

definition auth_register ::
  "bool \<Rightarrow> api_lib \<Rightarrow> sqlite \<Rightarrow> app_config \<Rightarrow> int \<Rightarrow> string \<Rightarrow> auth_request \<Rightarrow> auth_response api_io" where
  "auth_register chk A E c utc salt req =
     bindE (register_check A E req) (\<lambda>_. register_insert chk A E c utc salt req)"

section \<open>Bot control and statistics\<close>

definition u64_or_zero :: "string option \<Rightarrow> u64" where
  "u64_or_zero v = (case Option.bind v parse_u64 of None \<Rightarrow> 0 | Some n \<Rightarrow> n)"

definition f64_or_zero :: "string option \<Rightarrow> f64" where
  "f64_or_zero v = (case Option.bind v f64_parse of None \<Rightarrow> F64_Zero False | Some x \<Rightarrow> x)"

definition or_zero :: "f64 option \<Rightarrow> f64" where
  "or_zero v = (case v of None \<Rightarrow> F64_Zero False | Some x \<Rightarrow> x)"

definition bot_start :: "api_lib \<Rightarrow> sqlite \<Rightarrow> json api_io" where
  "bot_start A E =
     bindE (query A (set_bot_state E ''running'' ''true'')) (\<lambda>_.
     bindE (query A (get_bot_state E ''last_block'')) (\<lambda>v.
       okE (JObject [(''status'', JString ''running''), (''block'', JNumber (PosInt (u64_or_zero v)))])))"

definition bot_stop :: "api_lib \<Rightarrow> sqlite \<Rightarrow> json api_io" where
  "bot_stop A E =
     bindE (query A (set_bot_state E ''running'' ''false'')) (\<lambda>_. okE (JObject [(''status'', JString ''stopped'')]))"

definition status_text :: "string option \<Rightarrow> string" where
  "status_text running =
     (if (case running of None \<Rightarrow> ''false'' | Some s \<Rightarrow> s) = ''true'' then ''running'' else ''stopped'')"

definition bot_status :: "api_lib \<Rightarrow> sqlite \<Rightarrow> app_config \<Rightarrow> int \<Rightarrow> json api_io" where
  "bot_status A E c now =
     bindE (query A (get_bot_state E ''running'')) (\<lambda>running.
     bindE (query A (get_bot_state E ''last_block'')) (\<lambda>block.
     bindE (query A (get_bot_state E ''pools_monitored'')) (\<lambda>monitored.
       let uptime_seconds = nat (max 0 (now - app_start_time c)) div 10 ^ 9
       in okE (JObject [(''status'', JString (status_text running)), (''error_message'', JNull),
            (''current_block'', JNumber (PosInt (u64_or_zero block))),
            (''uptime_seconds'', JNumber (PosInt (word_of_nat uptime_seconds))),
            (''pools_monitored'', JNumber (PosInt (u64_or_zero monitored)))]))))"

definition stats_pnl :: "api_lib \<Rightarrow> sqlite \<Rightarrow> json api_io" where
  "stats_pnl A E =
     bindE (query A (get_pnl_summary E)) (\<lambda>pnl.
       okE (JObject [(''today_usd'', json_f64 (today_usd pnl)), (''week_usd'', json_f64 (week_usd pnl)),
         (''alltime_usd'', json_f64 (alltime_usd pnl)), (''today_trades'', json_i64 (today_trades pnl)),
         (''week_trades'', json_i64 (week_trades pnl))]))"

text \<open>The queries the interface makes itself.\<close>

definition sum_gas_cost :: "sqlite \<Rightarrow> (trade_row \<Rightarrow> bool) \<Rightarrow> f64 option db_io" where
  "sum_gas_cost E P = stmt E (\<lambda>d. (Inr (sum_column E (map (\<lambda>r. Some (t_gas_cost_usd r)) (filter P (trades d)))), d))"

definition latest_gas :: "sqlite \<Rightarrow> (f64 option \<times> f64 option) option db_io" where
  "latest_gas E = stmt E (\<lambda>d.
     (Inr (case rev (sort_key g_block_number (gas_history d)) of
             [] \<Rightarrow> None
           | g # _ \<Rightarrow> Some (Some (g_base_fee_gwei g), Some (g_priority_fee_gwei g))), d))"

definition count_rows :: "sqlite \<Rightarrow> (database \<Rightarrow> 'r list) \<Rightarrow> ('r \<Rightarrow> bool) \<Rightarrow> i64 db_io" where
  "count_rows E tab P = stmt E (\<lambda>d. (Inr (int (length (filter P (tab d)))), d))"

definition is_success :: "trade_row \<Rightarrow> bool" where
  "is_success r \<longleftrightarrow> t_status r = ''success''"

definition is_profitable :: "trade_row \<Rightarrow> bool" where
  "is_profitable r \<longleftrightarrow> is_success r \<and>
     (case t_net_profit_usd r of None \<Rightarrow> False | Some x \<Rightarrow> f64_gt x (F64_Zero False))"

definition stats_gas :: "api_lib \<Rightarrow> sqlite \<Rightarrow> json api_io" where
  "stats_gas A E =
     bindE (query A (sum_gas_cost E (\<lambda>r. True))) (\<lambda>total_spent.
     bindE (query A (sum_gas_cost E (\<lambda>r. \<not> is_success r))) (\<lambda>failed_spent.
     bindE (query A (latest_gas E)) (\<lambda>gas.
     bindE (query A (get_bot_state E ''min_profit_usd'')) (\<lambda>gate.
       let (base, priority) = (case gas of None \<Rightarrow> (None, None) | Some g \<Rightarrow> g)
       in okE (JObject [(''total_spent_usd'', json_f64 (or_zero total_spent)),
            (''failed_tx_spent_usd'', json_f64 (or_zero failed_spent)),
            (''current_base_fee_gwei'', json_f64 (or_zero base)),
            (''current_priority_fee_gwei'', json_f64 (or_zero priority)),
            (''min_profit_gate_usd'', json_f64 (f64_or_zero gate))])))))"

definition success_rate :: "i64 \<Rightarrow> i64 \<Rightarrow> f64" where
  "success_rate success_total executed_total =
     (if executed_total = 0 then F64_Zero False
      else f64_mul (f64_div (f64_of_int success_total) (f64_of_int executed_total)) (f64_of_int 100))"

definition stats_opportunities :: "api_lib \<Rightarrow> sqlite \<Rightarrow> json api_io" where
  "stats_opportunities A E =
     bindE (query A (count_rows E opportunities (\<lambda>r. True))) (\<lambda>scanned_total.
     bindE (query A (count_rows E trades (\<lambda>r. True))) (\<lambda>executed_total.
     bindE (query A (count_rows E trades is_profitable)) (\<lambda>profitable_total.
     bindE (query A (count_rows E trades is_success)) (\<lambda>success_total.
       okE (JObject [(''scanned_total'', json_i64 scanned_total), (''executed_total'', json_i64 executed_total),
         (''profitable_total'', json_i64 profitable_total), (''frontrun_estimated'', json_i64 0),
         (''success_rate_pct'', json_f64 (success_rate success_total executed_total))])))))"

section \<open>Wallet and trades\<close>

definition trim_end_zeros :: "string \<Rightarrow> string" where
  "trim_end_zeros s = rev (dropWhile (\<lambda>c. c = CHR ''0'') (rev s))"

definition format_wei_as_eth :: "alloy \<Rightarrow> u256 \<Rightarrow> string" where
  "format_wei_as_eth L wei =
     (let s = u256_to_string L wei
      in if s = ''0'' then ''0''
         else if length s \<le> 18
         then let frac = trim_end_zeros (replicate (18 - length s) CHR ''0'' @ s)
              in if frac = [] then ''0'' else ''0.'' @ frac
         else let int_part = take (length s - 18) s;
                  frac = trim_end_zeros (drop (length s - 18) s)
              in if frac = [] then int_part else int_part @ ''.'' @ frac)"

record wallet_rpc =
  wr_connect :: "string + unit"
  wr_balance :: "address \<Rightarrow> string + u256"
  wr_decimals :: "string + u8"
  wr_answer :: "string + int"
  wr_i256_to_string :: "int \<Rightarrow> string"
  wr_powi10 :: "nat \<Rightarrow> f64"

definition node_answer :: "string + 'a \<Rightarrow> 'a api_io" where
  "node_answer r = (case r of Inl e \<Rightarrow> fail_with (Internal e) | Inr a \<Rightarrow> okE a)"

definition wallet_balance :: "alloy \<Rightarrow> app_config \<Rightarrow> wallet_rpc \<Rightarrow> json api_io" where
  "wallet_balance L c W =
     bindE (node_answer (wr_connect W)) (\<lambda>_.
     bindE (node_answer (wr_balance W (app_wallet_address c))) (\<lambda>balance_wei.
       let eth_balance = format_wei_as_eth L balance_wei
       in bindE (node_answer (wr_decimals W)) (\<lambda>decimals.
          bindE (node_answer (wr_answer W)) (\<lambda>answer.
            case f64_parse (wr_i256_to_string W answer) of
              None \<Rightarrow> fail_with (Internal ''invalid price'')
            | Some price_raw \<Rightarrow>
                let eth_usd_price = f64_div price_raw (wr_powi10 W (unat decimals));
                    eth_balance_f64 = (case f64_parse eth_balance of None \<Rightarrow> F64_Zero False | Some x \<Rightarrow> x);
                    usd_value = f64_mul eth_balance_f64 eth_usd_price
                in okE (JObject [(''eth_balance'', JString eth_balance), (''eth_usd_price'', json_f64 eth_usd_price),
                     (''usd_value'', json_f64 usd_value)])))))"

definition trade_fields :: "trade_row \<Rightarrow> (string \<times> json) list" where
  "trade_fields r =
     [(''id'', json_i64 (t_id r)), (''tx_hash'', JString (t_tx_hash r)), (''route'', JString (t_route r)),
      (''pool_a'', JString (t_pool_a r)), (''pool_b'', JString (t_pool_b r)),
      (''net_profit_usd'', json_f64 (or_zero (t_net_profit_usd r))), (''gas_cost_usd'', json_f64 (t_gas_cost_usd r)),
      (''status'', JString (t_status r)), (''block_number'', json_i64 (t_block_number r)),
      (''timestamp'', json_i64 (t_timestamp r))]"

definition trades_limit :: "u32 option \<Rightarrow> u32" where
  "trades_limit l = min (case l of None \<Rightarrow> 50 | Some n \<Rightarrow> n) 200"

definition trades_list :: "api_lib \<Rightarrow> sqlite \<Rightarrow> u32 option \<Rightarrow> u32 option \<Rightarrow> json api_io" where
  "trades_list A E limit offset =
     bindE (query A (select_trades E (trades_limit limit) (case offset of None \<Rightarrow> 0 | Some n \<Rightarrow> n))) (\<lambda>rows.
     bindE (query A (get_trade_count E)) (\<lambda>total.
       okE (JObject [(''trades'', JArray (map (\<lambda>r. JObject (trade_fields r)) rows)), (''total'', json_i64 total)])))"

section \<open>Files and routes\<close>

definition path_join :: "string \<Rightarrow> string \<Rightarrow> string" where
  "path_join dir name =
     (if dir = [] then name else if last dir = CHR ''/'' then dir @ name else dir @ ''/'' @ name)"

definition serve_file :: "api_lib \<Rightarrow> string \<Rightarrow> string \<Rightarrow> response api_io" where
  "serve_file A path content_type =
     (case read_file A path of
        None \<Rightarrow> fail_with (Internal ''static file not found'')
      | Some bs \<Rightarrow> okE (RespFile content_type bs))"

definition index_file :: "api_lib \<Rightarrow> app_config \<Rightarrow> response api_io" where
  "index_file A c = serve_file A (path_join (app_web_ui_path c) ''index.html'') ''text/html; charset=utf-8''"

definition style_file :: "api_lib \<Rightarrow> app_config \<Rightarrow> response api_io" where
  "style_file A c = serve_file A (path_join (app_web_ui_path c) ''style.css'') ''text/css; charset=utf-8''"

definition app_js_file :: "api_lib \<Rightarrow> app_config \<Rightarrow> response api_io" where
  "app_js_file A c = serve_file A (path_join (app_web_ui_path c) ''app.js'') ''application/javascript; charset=utf-8''"

text \<open>The upgrade; the connection then runs \<open>handle_ws\<close>.\<close>

definition ws_handler :: "response api_io" where
  "ws_handler = okE RespUpgrade"

datatype http_method = GET | HEAD | POST | OtherMethod

datatype endpoint =
    Login | Register | WebSocket | Index | Style | AppJs
  | BotStart | BotStop | BotStatus | StatsPnl | StatsGas | StatsOpportunities | WalletBalance | TradesList

fun is_protected :: "endpoint \<Rightarrow> bool" where
  "is_protected Login = False" | "is_protected Register = False" | "is_protected WebSocket = False"
| "is_protected Index = False" | "is_protected Style = False" | "is_protected AppJs = False"
| "is_protected _ = True"

definition routes :: "(string \<times> http_method \<times> endpoint) list" where
  "routes =
     [(''/api/bot/start'', POST, BotStart), (''/api/bot/stop'', POST, BotStop), (''/api/bot/status'', GET, BotStatus),
      (''/api/stats/pnl'', GET, StatsPnl), (''/api/stats/gas'', GET, StatsGas),
      (''/api/stats/opportunities'', GET, StatsOpportunities), (''/api/wallet/balance'', GET, WalletBalance),
      (''/api/trades'', GET, TradesList), (''/api/auth/login'', POST, Login), (''/api/auth/register'', POST, Register),
      (''/ws'', GET, WebSocket), (''/'', GET, Index), (''/style.css'', GET, Style), (''/app.js'', GET, AppJs)]"

text \<open>
  Which handler a request line reaches. A \<open>get\<close> route also takes HEAD; a path with no route falls
  back to the index page; \<open>None\<close> is a method the route does not have, which the framework answers.
\<close>

definition takes_method :: "http_method \<Rightarrow> http_method \<Rightarrow> bool" where
  "takes_method m r \<longleftrightarrow> m = r \<or> m = HEAD \<and> r = GET"

definition route :: "string \<Rightarrow> http_method \<Rightarrow> endpoint option" where
  "route path m =
     (case find (\<lambda>(p, r, ep). p = path) routes of
        None \<Rightarrow> if takes_method m GET then Some Index else None
      | Some (p, r, ep) \<Rightarrow> if takes_method m r then Some ep else None)"

text \<open>A request as the extractors hand it over, with the clocks and the random salt read for it.\<close>

record request =
  req_path :: string
  req_method :: http_method
  req_authorization :: "string option"
  req_ip :: ip_addr
  req_body :: auth_request
  req_limit :: "u32 option"
  req_offset :: "u32 option"
  req_now :: int
  req_utc :: int
  req_salt :: string

definition auth_json :: "auth_response \<Rightarrow> json" where
  "auth_json a = JObject [(''token'', JString (au_token a)), (''expires_at'', json_i64 (au_expires_at a))]"

definition handler ::
  "bool \<Rightarrow> alloy \<Rightarrow> api_lib \<Rightarrow> sqlite \<Rightarrow> wallet_rpc \<Rightarrow> app_config \<Rightarrow> endpoint \<Rightarrow> request \<Rightarrow> response api_io" where
  "handler chk L A E W c ep rq =
     (let json_ok = (\<lambda>m. bindE m (\<lambda>j. okE (RespJson 200 j)))
      in case ep of
           Login \<Rightarrow> bindE (auth_login chk A E c (req_now rq) (req_utc rq) (req_ip rq) (req_body rq))
                      (\<lambda>a. okE (RespJson 200 (auth_json a)))
         | Register \<Rightarrow> bindE (auth_register chk A E c (req_utc rq) (req_salt rq) (req_body rq))
                         (\<lambda>a. okE (RespJson 201 (auth_json a)))
         | WebSocket \<Rightarrow> ws_handler
         | Index \<Rightarrow> index_file A c
         | Style \<Rightarrow> style_file A c
         | AppJs \<Rightarrow> app_js_file A c
         | BotStart \<Rightarrow> json_ok (bot_start A E)
         | BotStop \<Rightarrow> json_ok (bot_stop A E)
         | BotStatus \<Rightarrow> json_ok (bot_status A E c (req_now rq))
         | StatsPnl \<Rightarrow> json_ok (stats_pnl A E)
         | StatsGas \<Rightarrow> json_ok (stats_gas A E)
         | StatsOpportunities \<Rightarrow> json_ok (stats_opportunities A E)
         | WalletBalance \<Rightarrow> json_ok (wallet_balance L c W)
         | TradesList \<Rightarrow> json_ok (trades_list A E (req_limit rq) (req_offset rq)))"

text \<open>
  A request to an endpoint: the guard of the protected ones, the handler, and \<open>into_response\<close> on an
  error; \<open>None\<close> when the handler panics.
\<close>

definition respond ::
  "bool \<Rightarrow> alloy \<Rightarrow> api_lib \<Rightarrow> sqlite \<Rightarrow> wallet_rpc \<Rightarrow> app_config \<Rightarrow> endpoint \<Rightarrow> request \<Rightarrow> api_state \<Rightarrow>
     response option \<times> api_state" where
  "respond chk L A E W c ep rq s =
     (let run = handler chk L A E W c ep rq;
          guarded = (if is_protected ep then require_jwt A c (req_utc rq) (req_authorization rq) run else run)
      in case guarded s of
           (Inr r, s') \<Rightarrow> (Some r, s')
         | (Inl (Err e), s') \<Rightarrow> (Some (error_response e), s')
         | (Inl Panic, s') \<Rightarrow> (None, s'))"

text \<open>The whole server on a request: \<open>None\<close> when no handler answers, or the handler panics.\<close>

definition serve ::
  "bool \<Rightarrow> alloy \<Rightarrow> api_lib \<Rightarrow> sqlite \<Rightarrow> wallet_rpc \<Rightarrow> app_config \<Rightarrow> request \<Rightarrow> api_state \<Rightarrow>
     response option \<times> api_state" where
  "serve chk L A E W c rq s =
     (case route (req_path rq) (req_method rq) of
        None \<Rightarrow> (None, s)
      | Some ep \<Rightarrow> respond chk L A E W c ep rq s)"

fun serve_all ::
  "bool \<Rightarrow> alloy \<Rightarrow> api_lib \<Rightarrow> sqlite \<Rightarrow> wallet_rpc \<Rightarrow> app_config \<Rightarrow> request list \<Rightarrow> api_state \<Rightarrow> api_state" where
  "serve_all chk L A E W c [] s = s"
| "serve_all chk L A E W c (rq # rqs) s = serve_all chk L A E W c rqs (snd (serve chk L A E W c rq s))"

section \<open>What a handler can write\<close>

lemma keeps_run_db [keeps_intros]: "keeps f m \<Longrightarrow> keeps (\<lambda>s. f (as_db s)) (run_db m)"
  by (auto simp: keeps_def run_db_def split: prod.splits) (metis snd_conv)+

lemma keeps_run_db_limiter [keeps_intros]: "keeps as_limiter (run_db m)"
  by (simp add: keeps_def run_db_def split: prod.splits)

lemma keeps_fail_with [keeps_intros]: "keeps f (fail_with e)"
  by (simp add: fail_with_def keeps_errE)

lemma keeps_query [keeps_intros]: "keeps f (run_db m) \<Longrightarrow> keeps f (query A m)"
  by (simp add: query_def keeps_mapErr)

lemma keeps_stmt [keeps_intros]:
  assumes "\<And>d. f (tick d) = f d" "keeps f m"
  shows "keeps f (stmt E m)"
  using assms by (simp add: keeps_def stmt_def split: option.splits)

lemma keeps_read [keeps_intros]: "keeps f (\<lambda>d. (g d, d))"
  by (simp add: keeps_def)

text \<open>What the bot keeps in the database: everything but the users.\<close>

definition bot_data :: "database \<Rightarrow> trade_row list \<times> opportunity_row list \<times> gas_row list \<times> (string \<rightharpoonup> string)" where
  "bot_data d = (trades d, opportunities d, gas_history d, bot_state d)"

lemma keeps_insert_user: "keeps bot_data (insert_user E name hash)"
proof -
  have "bot_data (snd (insert_user E name hash d)) = bot_data d" for d
    using prod.collapse [of "insert_user E name hash d", symmetric]
    by (cases rule: insert_user_cases) (simp_all add: bot_data_def add_user_def)
  then show ?thesis by (simp add: keeps_def)
qed

lemma keeps_bot_data_db:
  "keeps (\<lambda>s. bot_data (as_db s)) (query A (get_user_by_username E name))"
  "keeps (\<lambda>s. bot_data (as_db s)) (query A (get_user_count E))"
  "keeps (\<lambda>s. bot_data (as_db s)) (run_db (insert_user E name hash))"
  unfolding get_user_by_username_def get_user_count_def
  by (intro keeps_intros keeps_insert_user; simp add: bot_data_def)+

lemma keeps_bot_data_limit: "keeps (\<lambda>s. bot_data (as_db s)) (enforce_login_rate_limit now ip)"
  by (simp add: keeps_def enforce_login_rate_limit_def Let_def)

lemma keeps_issue_jwt: "keeps f (issue_jwt chk A c utc uid name)"
  unfolding issue_jwt_def by (intro keeps_intros)

lemma keeps_split [keeps_intros]: "(\<And>a b. keeps f (g a b)) \<Longrightarrow> keeps f (case p of (a, b) \<Rightarrow> g a b)"
  by (cases p) simp

lemma public_keeps_bot_data:
  assumes "\<not> is_protected ep"
  shows "keeps (\<lambda>s. bot_data (as_db s)) (handler chk L A E W c ep rq)"
proof -
  note intro = keeps_intros keeps_issue_jwt keeps_bot_data_limit keeps_bot_data_db
  have "keeps (\<lambda>s. bot_data (as_db s)) (auth_login chk A E c now utc ip req)" for now utc ip req
    unfolding auth_login_def by (intro intro)
  moreover have "keeps (\<lambda>s. bot_data (as_db s)) (auth_register chk A E c utc salt req)" for utc salt req
    unfolding auth_register_def register_check_def register_insert_def by (intro intro)
  ultimately show ?thesis
    using assms by (cases ep) (auto simp: handler_def index_file_def style_file_def app_js_file_def serve_file_def ws_handler_def Let_def intro!: intro)
qed

text \<open>A request that carries no token the server accepts at that moment.\<close>

definition unauthenticated :: "api_lib \<Rightarrow> app_config \<Rightarrow> request \<Rightarrow> bool" where
  "unauthenticated A c rq \<longleftrightarrow>
     (case extract_bearer (req_authorization rq) of
        None \<Rightarrow> True
      | Some token \<Rightarrow> jwt_decode A (app_jwt_secret c) (req_utc rq) token = None)"

lemma respond_unauthenticated:
  assumes "unauthenticated A c rq" "is_protected ep"
  shows "\<exists>msg. respond chk L A E W c ep rq s = (Some (error_response (Unauthorized msg)), s)"
  using assms
  by (auto simp: respond_def require_jwt_def decode_jwt_def unauthenticated_def fail_with_def errE_def Let_def
      split: option.splits)

lemma serve_unauthenticated_keeps:
  assumes "unauthenticated A c rq"
  shows "bot_data (as_db (snd (serve chk L A E W c rq s))) = bot_data (as_db s)"
proof (cases "route (req_path rq) (req_method rq)")
  case (Some ep)
  show ?thesis
  proof (cases "is_protected ep")
    case True
    then show ?thesis
      using respond_unauthenticated [OF assms, of ep chk L E W s] Some by (auto simp: serve_def)
  next
    case False
    obtain r t where "handler chk L A E W c ep rq s = (r, t)" by fastforce
    moreover from keepsD [OF public_keeps_bot_data [OF False] this]
    have "bot_data (as_db t) = bot_data (as_db s)" .
    ultimately show ?thesis
      using Some False by (simp add: serve_def respond_def split: sum.splits fail.splits)
  qed
qed (simp add: serve_def)

lemma serve_all_unauthenticated_keeps:
  assumes "\<forall>rq \<in> set rqs. unauthenticated A c rq"
  shows "bot_data (as_db (serve_all chk L A E W c rqs s)) = bot_data (as_db s)"
  using assms by (induction rqs arbitrary: s) (simp_all add: serve_unauthenticated_keeps)

end
