(* ===== verification/Wiring.thy ===== *)
theory Wiring
  imports Scanner Config Api
begin

text \<open>
  Start-up of the program, \<^verbatim>\<open>zelvex-bin/src/main.rs\<close>: command line, database URL, the pools to watch,
  their metadata, the pairs handed to the scanner, the state of the server, and the order in which the
  parts are brought up. A task that is spawned is an entry of \<open>sys_tasks\<close> with its arguments.
  What the operating system, the node and the libraries answer is the argument \<open>B\<close>.
\<close>

datatype start_error =
    StartText string
  | StartConfig config_error
  | StartSqlx sqlx_error
  | StartExec exec_error
  | StartAddress string
  | StartNode string
  | StartBind string

datatype spawned =
    GasSampler string
  | SyncSubscription string "address list"
  | ArbScanner string scanner_config

fun parse_config_path :: "string list \<Rightarrow> start_error + string" where
  "parse_config_path [] = Inl (StartText ''missing --config <path>'')"
| "parse_config_path (arg # args) =
     (if arg = ''--config''
      then (case args of [] \<Rightarrow> Inl (StartText ''--config requires a value'') | path # _ \<Rightarrow> Inr path)
      else parse_config_path args)"

definition backslash :: char where
  "backslash = char_of (92 :: nat)"

definition sqlite_url :: "string \<Rightarrow> string" where
  "sqlite_url path = ''sqlite://'' @ map (\<lambda>c. if c = backslash then CHR ''/'' else c) path"

definition parse_pool_address :: "alloy \<Rightarrow> string \<Rightarrow> start_error + address" where
  "parse_pool_address L s = (case address_parse L s of None \<Rightarrow> Inl (StartAddress s) | Some a \<Rightarrow> Inr a)"

definition resolve_pool_addresses :: "alloy \<Rightarrow> config \<Rightarrow> start_error + address list" where
  "resolve_pool_addresses L c =
     (if seed_pairs (cfg_pools c) \<noteq> [] then try_all (parse_pool_address L) (seed_pairs (cfg_pools c))
      else Inr default_test_pools)"

definition fetch_pool_metadata ::
  "(string \<Rightarrow> string + unit) \<Rightarrow> (address \<Rightarrow> string + address) \<Rightarrow> (address \<Rightarrow> string + address) \<Rightarrow>
     string \<Rightarrow> address list \<Rightarrow> start_error + pool list" where
  "fetch_pool_metadata connect token0_of token1_of url pool_addresses =
     (case connect url of
        Inl e \<Rightarrow> Inl (StartNode e)
      | Inr _ \<Rightarrow>
          try_all (\<lambda>a.
            case token0_of a of
              Inl e \<Rightarrow> Inl (StartNode e)
            | Inr t0 \<Rightarrow>
                (case token1_of a of
                   Inl e \<Rightarrow> Inl (StartNode e)
                 | Inr t1 \<Rightarrow> Inr \<lparr>pool_address = a, token0 = t0, token1 = t1, reserve0 = 0, reserve1 = 0,
                                 block_updated = 0\<rparr>)) pool_addresses)"

text \<open>The loop of \<open>unique_addresses\<close> with its \<open>HashSet\<close>.\<close>

fun unique_loop :: "address set \<Rightarrow> address list \<Rightarrow> address list" where
  "unique_loop seen [] = []"
| "unique_loop seen (a # as) = (if a \<in> seen then unique_loop seen as else a # unique_loop (insert a seen) as)"

definition unique_addresses :: "address list \<Rightarrow> address list" where
  "unique_addresses addresses = unique_loop {} addresses"

definition make_pool_pairs :: "address list \<Rightarrow> (address \<times> address) list" where
  "make_pool_pairs unique_pools =
     concat (map (\<lambda>i. map (\<lambda>j. (unique_pools ! i, unique_pools ! j)) [i + 1..<length unique_pools])
       [0..<length unique_pools])"

record boot =
  bt_dotenv :: "environment \<Rightarrow> environment"
  bt_env :: environment
  bt_read :: "string \<Rightarrow> string + string"
  bt_from_toml :: "string \<Rightarrow> string + config"
  bt_connect_db :: "string \<Rightarrow> sqlx_error + database"
  bt_migrate :: "database \<Rightarrow> sqlx_error + database"
  bt_connect_node :: "string \<Rightarrow> string + unit"
  bt_token0 :: "address \<Rightarrow> string + address"
  bt_token1 :: "address \<Rightarrow> string + address"
  bt_f64_display :: "f64 \<Rightarrow> string"
  bt_now :: int
  bt_bind :: "socket_addr \<Rightarrow> string + unit"

record system =
  sys_config :: config
  sys_db :: database
  sys_store :: pool_store
  sys_pools :: "address list"
  sys_scanner :: scanner_config
  sys_oracle :: gas_oracle
  sys_tasks :: "spawned list"
  sys_app :: app_config
  sys_api :: api_state

definition start_db :: "('e \<Rightarrow> start_error) \<Rightarrow> (database, 'e, 'a) io \<Rightarrow> database \<Rightarrow> start_error + database" where
  "start_db err f d = (case f d of (Inl e, _) \<Rightarrow> Inl (err e) | (Inr _, d') \<Rightarrow> Inr d')"

lemma start_db_Inr_iff [simp]: "start_db err f d = Inr d' \<longleftrightarrow> (\<exists>a. f d = (Inr a, d'))"
  by (auto simp: start_db_def split: prod.splits sum.splits)

definition record_settings :: "sqlite \<Rightarrow> (f64 \<Rightarrow> string) \<Rightarrow> config \<Rightarrow> address list \<Rightarrow> unit db_io" where
  "record_settings E disp c addrs =
     bindE (set_bot_state E ''pools_monitored'' (dec_string (length addrs))) (\<lambda>_.
     bindE (set_bot_state E ''min_profit_usd'' (disp (cfg_min_profit_usd (cfg_bot c)))) (\<lambda>_.
     set_bot_state E ''max_gas_gwei'' (dec_string (unat (max_gas_gwei (cfg_bot c))))))"

definition startup :: "alloy \<Rightarrow> eth_lib \<Rightarrow> sqlite \<Rightarrow> boot \<Rightarrow> string list \<Rightarrow> start_error + system" where
  "startup L K E B args =
     bindR (parse_config_path args) (\<lambda>path.
     bindR (mapErrR StartConfig (load_config L (bt_dotenv B) (bt_read B) (bt_from_toml B) (bt_env B) path)) (\<lambda>c.
     bindR (mapErrR StartSqlx (bt_connect_db B (sqlite_url (db_path (cfg_database c))))) (\<lambda>d0.
     bindR (mapErrR StartSqlx (bt_migrate B d0)) (\<lambda>d1.
     bindR (mapErrR StartExec (load_signer_from_file K (bt_read B) (signer_key_path (cfg_keys c)))) (\<lambda>sgn.
     bindR (resolve_pool_addresses L c) (\<lambda>addrs.
     bindR (fetch_pool_metadata (bt_connect_node B) (bt_token0 B) (bt_token1 B) (ws_url (cfg_node c)) addrs) (\<lambda>metadata.
     bindR (start_db StartSqlx (record_settings E (bt_f64_display B) c addrs) d1) (\<lambda>d2.
     let store = fold upsert_pool metadata PoolStore_new;
         pairs = make_pool_pairs (unique_addresses addrs)
     in bindR (mapErrR StartExec (ArbitrageExecutor_new K (bt_read B) (bt_connect_node B) (ws_url (cfg_node c))
                    (signer_key_path (cfg_keys c)) (flashbots_key_path (cfg_keys c)) (cfg_relay_url (cfg_flashbots c))
                    (contract_address (cfg_keys c)) (paper_trade (cfg_bot c)))) (\<lambda>ex.
        let scanner_cfg = \<lparr>pool_pairs = pairs, min_profit_usd = cfg_min_profit_usd (cfg_bot c), sc_executor = Some ex\<rparr>;
            app = \<lparr>app_jwt_secret = jwt_secret (cfg_auth c), app_jwt_expiry_seconds = jwt_expiry_seconds (cfg_auth c),
                   app_web_ui_path = web_ui_path (cfg_server c), app_node_ws_url = ws_url (cfg_node c),
                   app_wallet_address = signer_address sgn, app_start_time = bt_now B\<rparr>
        in bindR (mapErrR StartBind (bt_bind B (bind_addr (cfg_server c)))) (\<lambda>_.
           Inr \<lparr>sys_config = c, sys_db = d2, sys_store = store, sys_pools = addrs, sys_scanner = scanner_cfg,
                sys_oracle = GasOracle_new,
                sys_tasks = [GasSampler (ws_url (cfg_node c)), SyncSubscription (ws_url (cfg_node c)) addrs,
                             ArbScanner (ws_url (cfg_node c)) scanner_cfg],
                sys_app = app, sys_api = \<lparr>as_db = d2, as_limiter = (\<lambda>ip. [])\<rparr>\<rparr>))))))))))"

section \<open>Pairs\<close>

lemma unique_loop_spec:
  "distinct (unique_loop seen as) \<and> set (unique_loop seen as) = set as - seen"
  by (induction as arbitrary: seen) auto

lemma unique_addresses_spec: "distinct (unique_addresses as) \<and> set (unique_addresses as) = set as"
  by (simp add: unique_addresses_def unique_loop_spec)

lemma make_pool_pairs_Nil [simp]: "make_pool_pairs [] = []"
  by (simp add: make_pool_pairs_def)

lemma make_pool_pairs_Cons [simp]: "make_pool_pairs (a # as) = map (Pair a) as @ make_pool_pairs as"
proof -
  let ?row = "\<lambda>us i. map (\<lambda>j. (us ! i, us ! j)) [i + 1..<length us]"
  have shift: "?row (a # as) (Suc i) = ?row as i" for i
  proof -
    have "[Suc i + 1..<length (a # as)] = map Suc [i + 1..<length as]" by (simp add: map_Suc_upt)
    then show ?thesis by (simp only: map_map comp_def nth_Cons_Suc)
  qed
  have row0: "?row (a # as) 0 = map (Pair a) as"
  proof -
    have "[0 + 1..<length (a # as)] = map Suc [0..<length as]" by (simp add: map_Suc_upt)
    then have "?row (a # as) 0 = map (\<lambda>j. (a, as ! j)) [0..<length as]"
      by (simp only: map_map comp_def nth_Cons_Suc nth_Cons_0)
    also have "\<dots> = map (Pair a) (map ((!) as) [0..<length as])" by simp
    finally show ?thesis by (simp only: map_nth)
  qed
  have "[0..<length (a # as)] = 0 # map Suc [0..<length as]" by (simp add: upt_conv_Cons map_Suc_upt del: upt_Suc)
  then have "map (?row (a # as)) [0..<length (a # as)] = map (Pair a) as # map (?row as) [0..<length as]"
    by (simp only: list.map map_map comp_def row0 shift)
  then show ?thesis by (simp only: make_pool_pairs_def concat.simps)
qed

lemma pool_pairs_members: "(a, b) \<in> set (make_pool_pairs us) \<Longrightarrow> a \<in> set us \<and> b \<in> set us"
  by (induction us) auto

lemma pool_pairs_cover: "a \<in> set us \<Longrightarrow> b \<in> set us \<Longrightarrow> a \<noteq> b \<Longrightarrow>
    (a, b) \<in> set (make_pool_pairs us) \<or> (b, a) \<in> set (make_pool_pairs us)"
  by (induction us) auto

lemma pool_pairs_once: "distinct us \<Longrightarrow> (a, b) \<in> set (make_pool_pairs us) \<Longrightarrow>
    a \<noteq> b \<and> (b, a) \<notin> set (make_pool_pairs us)"
  by (induction us) (auto dest: pool_pairs_members)

lemma distinct_pool_pairs: "distinct us \<Longrightarrow> distinct (make_pool_pairs us)"
  by (induction us) (auto simp: distinct_map inj_on_def dest: pool_pairs_members)

lemma length_pool_pairs: "2 * length (make_pool_pairs us) = length us * (length us - 1)"
proof (induction us)
  case (Cons a us)
  then show ?case by (cases us) (simp_all add: algebra_simps)
qed simp

section \<open>Properties\<close>

text \<open>
  C33: the scanner is given every unordered pair of different configured pools exactly once: no pool is
  paired with itself, of any two different pools exactly one order is in the list, the list has no
  repetition and n(n-1)/2 elements for n different pools.
\<close>

theorem pool_pairs_complete:
  "2 * length (make_pool_pairs (unique_addresses addrs)) = card (set addrs) * (card (set addrs) - 1) \<and>
   distinct (make_pool_pairs (unique_addresses addrs)) \<and>
   (\<forall>a b. (a, b) \<in> set (make_pool_pairs (unique_addresses addrs)) \<or> (b, a) \<in> set (make_pool_pairs (unique_addresses addrs))
       \<longleftrightarrow> a \<noteq> b \<and> a \<in> set addrs \<and> b \<in> set addrs) \<and>
   (\<forall>a b. \<not> ((a, b) \<in> set (make_pool_pairs (unique_addresses addrs)) \<and>
            (b, a) \<in> set (make_pool_pairs (unique_addresses addrs))))"
proof -
  let ?us = "unique_addresses addrs"
  have u: "distinct ?us" "set ?us = set addrs" using unique_addresses_spec by blast+
  then have "length ?us = card (set addrs)" by (metis distinct_card)
  moreover have "(a, b) \<in> set (make_pool_pairs ?us) \<or> (b, a) \<in> set (make_pool_pairs ?us)
      \<longleftrightarrow> a \<noteq> b \<and> a \<in> set addrs \<and> b \<in> set addrs" for a b
    using pool_pairs_members [of a b ?us] pool_pairs_members [of b a ?us] pool_pairs_cover [of a ?us b]
      pool_pairs_once [OF u(1), of a b] pool_pairs_once [OF u(1), of b a] unfolding u(2) by blast
  moreover have "\<not> ((a, b) \<in> set (make_pool_pairs ?us) \<and> (b, a) \<in> set (make_pool_pairs ?us))" for a b
    using pool_pairs_once [OF u(1)] by blast
  ultimately show ?thesis using length_pool_pairs [of ?us] distinct_pool_pairs [OF u(1)] by simp
qed

section \<open>The system after start-up\<close>

lemma fetch_pool_metadata_pools:
  assumes "fetch_pool_metadata connect t0 t1 url addrs = Inr ps"
  shows "map pool_address ps = addrs \<and>
    (\<forall>p \<in> set ps. reserve0 p = 0 \<and> reserve1 p = 0 \<and>
       t0 (pool_address p) = Inr (token0 p) \<and> t1 (pool_address p) = Inr (token1 p))"
proof -
  have "list_all2 (\<lambda>a p. pool_address p = a \<and> reserve0 p = 0 \<and> reserve1 p = 0 \<and>
      t0 a = Inr (token0 p) \<and> t1 a = Inr (token1 p)) addrs ps"
    using assms
    by (auto simp: fetch_pool_metadata_def try_all_Inr_iff split: sum.splits elim!: list_all2_mono)
  then show ?thesis
    by (induction rule: list_all2_induct) auto
qed

lemma record_settings_state:
  assumes "record_settings E disp c addrs d = (Inr (), d')"
  shows "bot_state d' = (bot_state d)(''pools_monitored'' \<mapsto> dec_string (length addrs),
    ''min_profit_usd'' \<mapsto> disp (cfg_min_profit_usd (cfg_bot c)),
    ''max_gas_gwei'' \<mapsto> dec_string (unat (max_gas_gwei (cfg_bot c))))"
  using assms
  by (auto simp: record_settings_def bindE_Inr_iff put_state_def elim!: set_bot_state_cases)

lemma store_after_upserts:
  "store_get (fold upsert_pool ps PoolStore_new) a = find (\<lambda>p. pool_address p = a) (rev ps)"
  by (simp add: store.look_fold_put store.look_empty split: option.split)

lemma startup_parts:
  assumes "startup L K E B args = Inr sys"
  obtains path d0 d1 sgn ps ex where
    "parse_config_path args = Inr path"
    "load_config L (bt_dotenv B) (bt_read B) (bt_from_toml B) (bt_env B) path = Inr (sys_config sys)"
    "bt_connect_db B (sqlite_url (db_path (cfg_database (sys_config sys)))) = Inr d0" "bt_migrate B d0 = Inr d1"
    "load_signer_from_file K (bt_read B) (signer_key_path (cfg_keys (sys_config sys))) = Inr sgn"
    "resolve_pool_addresses L (sys_config sys) = Inr (sys_pools sys)"
    "fetch_pool_metadata (bt_connect_node B) (bt_token0 B) (bt_token1 B) (ws_url (cfg_node (sys_config sys)))
       (sys_pools sys) = Inr ps"
    "record_settings E (bt_f64_display B) (sys_config sys) (sys_pools sys) d1 = (Inr (), sys_db sys)"
    "ArbitrageExecutor_new K (bt_read B) (bt_connect_node B) (ws_url (cfg_node (sys_config sys)))
       (signer_key_path (cfg_keys (sys_config sys))) (flashbots_key_path (cfg_keys (sys_config sys)))
       (cfg_relay_url (cfg_flashbots (sys_config sys))) (contract_address (cfg_keys (sys_config sys)))
       (paper_trade (cfg_bot (sys_config sys))) = Inr ex"
    "sys_store sys = fold upsert_pool ps PoolStore_new"
    "sys_scanner sys = \<lparr>pool_pairs = make_pool_pairs (unique_addresses (sys_pools sys)),
       min_profit_usd = cfg_min_profit_usd (cfg_bot (sys_config sys)), sc_executor = Some ex\<rparr>"
    "sys_app sys = \<lparr>app_jwt_secret = jwt_secret (cfg_auth (sys_config sys)),
       app_jwt_expiry_seconds = jwt_expiry_seconds (cfg_auth (sys_config sys)),
       app_web_ui_path = web_ui_path (cfg_server (sys_config sys)), app_node_ws_url = ws_url (cfg_node (sys_config sys)),
       app_wallet_address = signer_address sgn, app_start_time = bt_now B\<rparr>"
    "sys_api sys = \<lparr>as_db = sys_db sys, as_limiter = (\<lambda>ip. [])\<rparr>"
    "ArbScanner (ws_url (cfg_node (sys_config sys))) (sys_scanner sys) \<in> set (sys_tasks sys)"
    "bt_bind B (bind_addr (cfg_server (sys_config sys))) = Inr ()"
  using assms
  by (auto simp: startup_def bindR_Inr_iff Let_def)


definition config_ref :: config where
  "config_ref = \<lparr>cfg_node = \<lparr>ws_url = ''ws://node''\<rparr>, cfg_flashbots = \<lparr>cfg_relay_url = ''https://relay''\<rparr>,
     cfg_bot = \<lparr>cfg_min_profit_usd = f64_of_int 5, max_gas_gwei = 50, paper_trade = True\<rparr>,
     cfg_pools = \<lparr>seed_pairs = [], min_liquidity_usd = f64_of_int 500000\<rparr>,
     cfg_server = \<lparr>bind_addr = SockV4 [127, 0, 0, 1] 8080, web_ui_path = ''ui''\<rparr>,
     cfg_database = \<lparr>db_path = ''z.sqlite''\<rparr>, cfg_auth = \<lparr>jwt_secret = ''s'', jwt_expiry_seconds = 86400\<rparr>,
     cfg_keys = \<lparr>signer_key_path = ''k1'', flashbots_key_path = ''k2'', contract_address = 9, aave_pool_provider = 8\<rparr>\<rparr>"

definition boot_ref :: boot where
  "boot_ref = \<lparr>bt_dotenv = (\<lambda>e. e), bt_env = (\<lambda>k. None), bt_read = (\<lambda>p. Inr ''text''),
     bt_from_toml = (\<lambda>s. Inr config_ref), bt_connect_db = (\<lambda>u. Inr migrated_database), bt_migrate = Inr,
     bt_connect_node = (\<lambda>u. Inr ()), bt_token0 = (\<lambda>a. Inr USDC), bt_token1 = (\<lambda>a. Inr WETH),
     bt_f64_display = (\<lambda>x. ''5''), bt_now = 0, bt_bind = (\<lambda>a. Inr ())\<rparr>"

definition eth_boot :: eth_lib where
  "eth_boot = eth_ref\<lparr>hex_decode := (\<lambda>s. Some (replicate 32 1)), signer_from_bytes := (\<lambda>bs. Some signer_ref),
     signer_parse := (\<lambda>s. Some signer_ref)\<rparr>"

lemma startup_ref: "\<exists>sys. startup alloy_ref eth_boot sqlite_ref boot_ref [''zelvex'', ''--config'', ''c.toml''] = Inr sys"
proof -
  have load: "load_config alloy_ref (bt_dotenv boot_ref) (bt_read boot_ref) (bt_from_toml boot_ref) (bt_env boot_ref) p
      = Inr config_ref" for p
    by (simp add: load_config_def boot_ref_def apply_env_overrides_def env_override_def)
  have sgn: "load_signer_from_file eth_boot (bt_read boot_ref) p = Inr signer_ref" for p
    by (simp add: load_signer_from_file_def boot_ref_def eth_boot_def)
  have addrs: "resolve_pool_addresses alloy_ref config_ref = Inr default_test_pools"
    by (simp add: resolve_pool_addresses_def config_ref_def)
  have meta: "\<exists>ps. fetch_pool_metadata (bt_connect_node boot_ref) (bt_token0 boot_ref) (bt_token1 boot_ref) u as = Inr ps" for u as
  proof -
    have "\<exists>ps. try_all (\<lambda>a. Inr (mk a) :: start_error + pool) as = Inr ps" for mk by (induction as) auto
    then show ?thesis by (simp add: fetch_pool_metadata_def boot_ref_def)
  qed
  have set: "\<exists>d'. record_settings sqlite_ref disp c as d = (Inr (), d')" for disp c as d
    by (simp add: record_settings_def bindE_def set_bot_state_def stmt_def)
  have ex: "\<exists>ex. ArbitrageExecutor_new eth_boot (bt_read boot_ref) (bt_connect_node boot_ref) u a b c d p = Inr ex" for u a b c d p
    by (simp add: ArbitrageExecutor_new_def sgn FlashbotsClient_new_def boot_ref_def eth_boot_def load_signer_from_file_def)
  have "bt_connect_db boot_ref u = Inr migrated_database" "bt_migrate boot_ref d = Inr d" "bt_bind boot_ref a = Inr ()" for u d a
    by (simp_all add: boot_ref_def)
  moreover obtain ps d' ex where
    "fetch_pool_metadata (bt_connect_node boot_ref) (bt_token0 boot_ref) (bt_token1 boot_ref)
       (ws_url (cfg_node config_ref)) default_test_pools = Inr ps"
    "record_settings sqlite_ref (bt_f64_display boot_ref) config_ref default_test_pools migrated_database = (Inr (), d')"
    "ArbitrageExecutor_new eth_boot (bt_read boot_ref) (bt_connect_node boot_ref) (ws_url (cfg_node config_ref))
       (signer_key_path (cfg_keys config_ref)) (flashbots_key_path (cfg_keys config_ref))
       (cfg_relay_url (cfg_flashbots config_ref)) (contract_address (cfg_keys config_ref))
       (paper_trade (cfg_bot config_ref)) = Inr ex"
    using meta set ex by metis
  ultimately show ?thesis
    unfolding startup_def by (simp add: load sgn addrs start_db_def mapErrR_def Let_def)
qed


end
