(* ===== verification/Api_Auth.thy ===== *)
theory Api_Auth
  imports Api
begin

text \<open>
  Who may use the server: the login limiter, registration and tokens. Requests without an accepted
  token change nothing of the bot; the limiter is shown equal to its rule on the history of accepted
  attempts; registration is shown to be once for requests one after the other, and not for interleaved
  ones; a token from a login opens the guard until it expires.
\<close>

section \<open>The login limiter\<close>

text \<open>
  The accepted attempts of one address in a sequence of attempts, and the state after them.
\<close>

definition attempt :: "ip_addr \<Rightarrow> int \<times> ip_addr \<Rightarrow> int list \<times> api_state \<Rightarrow> int list \<times> api_state" where
  "attempt ip = (\<lambda>(now, a) (ts, s).
     case enforce_login_rate_limit now a s of
       (r, s') \<Rightarrow> (if a = ip \<and> r = Inr () then ts @ [now] else ts, s'))"

definition accepted_attempts :: "ip_addr \<Rightarrow> (int \<times> ip_addr) list \<Rightarrow> api_state \<Rightarrow> int list \<times> api_state" where
  "accepted_attempts ip attempts s = fold (attempt ip) attempts ([], s)"

definition window :: int where "window = int (duration_secs 60)"

definition recent :: "int \<Rightarrow> int list \<Rightarrow> int list" where
  "recent now ts = filter (\<lambda>t. now - t < window) ts"

text \<open>At most five accepted attempts within any window: the sixth is a window later than the first.\<close>

definition spaced :: "int list \<Rightarrow> bool" where
  "spaced ts \<longleftrightarrow> sorted ts \<and> (\<forall>i. i + 5 < length ts \<longrightarrow> ts ! i + window \<le> ts ! (i + 5))"

lemma window_pos: "0 < window"
  by (simp add: window_def duration_secs_def)

lemma enforce_limit_eq:
  "enforce_login_rate_limit now a s =
     (let entry = recent now (as_limiter s a)
      in if 5 \<le> length entry
         then (Inl (Err (RateLimited ''too many attempts'')), s\<lparr>as_limiter := (as_limiter s)(a := entry)\<rparr>)
         else (Inr (), s\<lparr>as_limiter := (as_limiter s)(a := entry @ [now])\<rparr>))"
  using window_pos by (simp add: enforce_login_rate_limit_def recent_def window_def)

lemma recent_recent: "now \<le> later \<Longrightarrow> recent later (recent now ts) = recent later ts"
  unfolding recent_def filter_filter by (rule filter_cong) auto

lemma recent_append: "recent now (ts @ us) = recent now ts @ recent now us"
  by (simp add: recent_def)

text \<open>Fewer than five recent attempts: the fifth from the end is a window old.\<close>

lemma recent_few:
  assumes "sorted ts" "length (recent now ts) < 5" "5 \<le> length ts"
  shows "ts ! (length ts - 5) + window \<le> now"
proof (rule ccontr)
  let ?k = "length ts - 5"
  assume old: "\<not> ts ! ?k + window \<le> now"
  have "now - t < window" if t: "t \<in> set (drop ?k ts)" for t
  proof -
    obtain i where "i < length (drop ?k ts)" "drop ?k ts ! i = t"
      using t unfolding in_set_conv_nth by blast
    then have "i < 5" "t = ts ! (?k + i)" using assms(3) by auto
    then have "ts ! ?k \<le> t" using assms(1,3) by (simp add: sorted_iff_nth_mono)
    then show ?thesis using old by simp
  qed
  then have "recent now (drop ?k ts) = drop ?k ts" by (simp add: recent_def)
  moreover have "recent now ts = recent now (take ?k ts) @ recent now (drop ?k ts)"
    by (metis append_take_drop_id recent_append)
  ultimately show False using assms(2,3) by simp
qed

lemma spaced_snoc:
  assumes "spaced ts" "\<forall>t \<in> set ts. t \<le> now" "length (recent now ts) < 5"
  shows "spaced (ts @ [now])"
proof -
  have "(ts @ [now]) ! i + window \<le> (ts @ [now]) ! (i + 5)" if "i + 5 < length (ts @ [now])" for i
  proof (cases "i + 5 = length ts")
    case True
    then have "i = length ts - 5" "5 \<le> length ts" by simp_all
    then show ?thesis using recent_few [of ts now] assms True by (simp add: spaced_def nth_append)
  next
    case False
    then show ?thesis using assms(1) that by (simp add: spaced_def nth_append)
  qed
  then show ?thesis using assms(1,2) by (simp add: spaced_def sorted_append)
qed

text \<open>What the limiter remembers of an address is its accepted attempts, as far as they still count.\<close>

definition limiter_inv :: "ip_addr \<Rightarrow> int \<Rightarrow> int list \<times> api_state \<Rightarrow> bool" where
  "limiter_inv ip t0 = (\<lambda>(ts, s). spaced ts \<and> (\<forall>t \<in> set ts. t \<le> t0) \<and>
     (\<forall>now \<ge> t0. recent now (as_limiter s ip) = recent now ts))"

lemma limiter_inv_attempt:
  assumes "limiter_inv ip t0 (ts, s)" "t0 \<le> now"
  shows "limiter_inv ip now (attempt ip (now, a) (ts, s))"
proof (cases "a = ip")
  case False
  then show ?thesis
    using assms by (auto simp: limiter_inv_def attempt_def enforce_limit_eq Let_def)
next
  case True
  have inv: "spaced ts" "\<forall>t \<in> set ts. t \<le> now"
    "\<And>n. t0 \<le> n \<Longrightarrow> recent n (as_limiter s ip) = recent n ts"
    using assms by (auto simp: limiter_inv_def)
  show ?thesis
  proof (cases "5 \<le> length (recent now ts)")
    case full: True
    then show ?thesis
      using True inv assms(2)
      by (simp add: limiter_inv_def attempt_def enforce_limit_eq recent_recent)
  next
    case False
    then show ?thesis
      using True inv assms(2) spaced_snoc [of ts now]
      by (simp add: limiter_inv_def attempt_def enforce_limit_eq recent_recent recent_append)
  qed
qed

lemma limiter_inv_fold:
  assumes "limiter_inv ip t0 p" "sorted (map fst attempts)" "\<forall>x \<in> set attempts. t0 \<le> fst x"
  shows "limiter_inv ip (if attempts = [] then t0 else fst (last attempts)) (fold (attempt ip) attempts p)"
  using assms
proof (induction attempts arbitrary: t0 p)
  case (Cons x xs)
  obtain now a where x: "x = (now, a)" by (cases x)
  obtain ts s where p: "p = (ts, s)" by (cases p)
  have "limiter_inv ip now (attempt ip x p)"
    using limiter_inv_attempt [of ip t0 ts s now a] Cons.prems x p by simp
  from Cons.IH [OF this] show ?case using Cons.prems x by auto
qed simp

lemma limiter_inv_initial: "as_limiter s ip = [] \<Longrightarrow> limiter_inv ip t0 ([], s)"
  by (simp add: limiter_inv_def spaced_def)

lemma accepted_inv:
  assumes "as_limiter s ip = []" "sorted (map fst attempts)" "accepted_attempts ip attempts s = (ts, s')"
    "\<forall>x \<in> set attempts. fst x \<le> now"
  shows "spaced ts" "recent now (as_limiter s' ip) = recent now ts"
proof -
  let ?start = "if attempts = [] then now else fst (hd attempts)"
  have "\<forall>x \<in> set attempts. ?start \<le> fst x" using assms(2) by (cases attempts) auto
  from limiter_inv_fold [OF limiter_inv_initial [of s ip ?start, OF assms(1)] assms(2) this]
  show "spaced ts" "recent now (as_limiter s' ip) = recent now ts"
    using assms(3,4) by (auto simp: limiter_inv_def accepted_attempts_def split: if_splits)
qed

section \<open>Registration\<close>

abbreviation users_of :: "api_state \<Rightarrow> user list" where
  "users_of s \<equiv> users (as_db s)"

lemma keeps_users_read [keeps_intros]: "keeps users (stmt E (\<lambda>d. (g d, d)))"
  by (intro keeps_intros) simp

lemma keeps_users_queries [keeps_intros]:
  "keeps users (get_user_by_username E name)" "keeps users (get_user_count E)"
  "keeps users (get_bot_state E key)" "keeps users (set_bot_state E key value)"
  "keeps users (sum_gas_cost E P)" "keeps users (latest_gas E)" "keeps users (count_rows E tab Q)"
  "keeps users (select_trades E limit offset)" "keeps users (get_trade_count E)"
  unfolding get_user_by_username_def get_user_count_def get_bot_state_def sum_gas_cost_def latest_gas_def
    count_rows_def select_trades_def get_trade_count_def
  by (rule keeps_users_read)+
    (auto simp: keeps_def set_bot_state_def put_state_def stmt_def split: option.splits)

lemma keeps_users_pnl [keeps_intros]: "keeps users (get_pnl_summary E)"
  unfolding get_pnl_summary_def Let_def
  by (intro keeps_intros; simp add: keeps_def stmt_def split: option.splits)

lemma keeps_users_handler:
  assumes "ep \<noteq> Register"
  shows "keeps users_of (handler chk L A E W c ep rq)"
proof -
  have limit: "keeps users_of (enforce_login_rate_limit now ip)" for now ip
    by (simp add: keeps_def enforce_login_rate_limit_def Let_def)
  note defs = handler_def index_file_def style_file_def app_js_file_def serve_file_def ws_handler_def node_answer_def auth_login_def bot_start_def bot_stop_def bot_status_def
    stats_pnl_def stats_gas_def stats_opportunities_def wallet_balance_def trades_list_def
  show ?thesis
    using assms
    by (cases ep; simp only: defs endpoint.case Let_def; intro keeps_intros keeps_issue_jwt limit; simp)
qed

lemma keeps_register_check: "keeps users_of (register_check A E req)"
  unfolding register_check_def by (intro keeps_intros)

lemma register_keeps_first:
  assumes "users_of s \<noteq> []" "auth_register chk A E c utc salt req s = (r, s')"
  shows "users_of s' = users_of s" "\<exists>e. r = Inl e"
proof -
  obtain q t where q: "register_check A E req s = (q, t)" by fastforce
  from keepsD [OF keeps_register_check q] have same: "users_of t = users_of s" .
  have "\<exists>e. q = Inl e"
    using q assms(1)
    by (auto simp: register_check_def fail_with_def errE_def okE_def bindE_def query_def mapErr_def run_db_def
        get_user_count_def stmt_def split: if_splits option.splits)
  then show "users_of s' = users_of s" "\<exists>e. r = Inl e"
    using assms(2) q same by (auto simp: auth_register_def bindE_def)
qed

lemma register_adds_one:
  assumes "auth_register chk A E c utc salt req s = (r, s')"
  shows "length (users_of s') \<le> Suc (length (users_of s))"
proof -
  have user: "length (users (snd (insert_user E name hash d))) \<le> Suc (length (users d))" for name hash d
    using prod.collapse [of "insert_user E name hash d", symmetric]
    by (cases rule: insert_user_cases) (simp_all add: add_user_def)
  have insert: "length (users_of (snd (register_insert chk A E c utc salt req t))) \<le> Suc (length (users_of t))" for t
  proof (cases "hash_password A salt (rq_password req)")
    case (Some hash)
    obtain q u where q: "run_db (insert_user E (rq_username req) hash) t = (q, u)" by fastforce
    then have "users_of u = users (snd (insert_user E (rq_username req) hash (as_db t)))"
      by (auto simp: run_db_def split: prod.splits)
    moreover have "users_of (snd (register_insert chk A E c utc salt req t)) = users_of u"
    proof (cases q)
      case (Inr uid)
      obtain r v where "issue_jwt chk A c utc uid (rq_username req) u = (r, v)" by fastforce
      moreover from keepsD [OF keeps_issue_jwt this] have "users_of v = users_of u" .
      ultimately show ?thesis
        using Some q Inr
        by (auto simp: register_insert_def bindE_def mapErr_def okE_def split: sum.splits prod.splits)
    qed (use Some q in \<open>simp add: register_insert_def bindE_def mapErr_def\<close>)
    ultimately show ?thesis using user by simp
  qed (simp add: register_insert_def fail_with_def errE_def)
  obtain q t where q: "register_check A E req s = (q, t)" by fastforce
  from keepsD [OF keeps_register_check q] show ?thesis
    using assms q insert [of t] by (auto simp: auth_register_def bindE_def split: sum.splits)
qed

lemma register_check_passes:
  assumes "rq_username req \<noteq> []" "12 \<le> length (rq_password req)" "users_of s = []"
    "stmt_fault E (stmt_no (as_db s)) = None"
  shows "register_check A E req s = (Inr (), s\<lparr>as_db := tick (as_db s)\<rparr>)"
proof -
  have "rq_password req \<noteq> []" using assms(2) by auto
  then show ?thesis
    using assms
    by (simp add: register_check_def query_def run_db_def get_user_count_def stmt_def bindE_def mapErr_def okE_def)
qed

lemma register_insert_adds:
  assumes "hash_password A salt (rq_password req) = Some h" "stmt_fault E (stmt_no (as_db s)) = None"
    "users_seq (as_db s) < i64_max" "\<forall>u \<in> set (users_of s). nocase (username u) \<noteq> nocase (rq_username req)"
  shows "\<exists>clock. as_db (snd (register_insert chk A E c utc salt req s)) =
    add_user \<lparr>user_id = users_seq (as_db s) + 1, username = rq_username req, password_hash = h, created_at = clock\<rparr>
      (tick (as_db s))"
proof -
  define d where "d = add_user \<lparr>user_id = users_seq (as_db s) + 1, username = rq_username req,
    password_hash = h, created_at = now_of E (tick (as_db s))\<rparr> (tick (as_db s))"
  have d: "insert_user E (rq_username req) h (as_db s) = (Inr (users_seq (as_db s) + 1), d)"
    using assms by (simp add: insert_user_def db_guard_defs d_def)
  obtain r v where r: "issue_jwt chk A c utc (users_seq (as_db s) + 1) (rq_username req) (s\<lparr>as_db := d\<rparr>) = (r, v)"
    by fastforce
  from keepsD [OF keeps_issue_jwt this, of as_db] have "as_db v = d" by simp
  moreover have "snd (register_insert chk A E c utc salt req s) = v"
    using assms(1) d r
    by (simp add: register_insert_def bindE_def mapErr_def run_db_def okE_def split: sum.splits prod.splits)
  ultimately show ?thesis unfolding d_def by auto
qed

lemma respond_state: "snd (respond chk L A E W c ep rq s) = s \<or>
    snd (respond chk L A E W c ep rq s) = snd (handler chk L A E W c ep rq s)"
  by (auto simp: respond_def Let_def require_jwt_def fail_with_def errE_def
      split: prod.splits sum.splits fail.splits option.splits)

lemma handler_users:
  "(users_of s \<noteq> [] \<longrightarrow> users_of (snd (handler chk L A E W c ep rq s)) = users_of s) \<and>
   length (users_of (snd (handler chk L A E W c ep rq s))) \<le> max 1 (length (users_of s))"
proof (cases "ep = Register")
  case False
  then show ?thesis
    using keepsD [OF keeps_users_handler [OF False], of chk L A E W c rq s] by (metis max.cobounded2 prod.collapse)
next
  case True
  obtain r s' where r: "auth_register chk A E c (req_utc rq) (req_salt rq) (req_body rq) s = (r, s')" by fastforce
  then have "snd (handler chk L A E W c ep rq s) = s'"
    using True by (auto simp: handler_def bindE_def okE_def split: sum.splits)
  then show ?thesis
    using register_keeps_first(1) [OF _ r] register_adds_one [OF r] by (cases "users_of s = []") auto
qed

lemma serve_users:
  "(users_of s \<noteq> [] \<longrightarrow> users_of (snd (serve chk L A E W c rq s)) = users_of s) \<and>
   length (users_of (snd (serve chk L A E W c rq s))) \<le> max 1 (length (users_of s))"
proof (cases "route (req_path rq) (req_method rq)")
  case (Some ep)
  then show ?thesis
    using respond_state [of chk L A E W c ep rq s] handler_users [of s chk L A E W c ep rq]
    by (auto simp: serve_def)
qed (simp add: serve_def)

lemma serve_all_users:
  "(users_of s \<noteq> [] \<longrightarrow> users_of (serve_all chk L A E W c rqs s) = users_of s) \<and>
   length (users_of (serve_all chk L A E W c rqs s)) \<le> max 1 (length (users_of s))"
proof (induction rqs arbitrary: s)
  case (Cons rq rqs)
  let ?t = "snd (serve chk L A E W c rq s)"
  show ?case using Cons.IH [of ?t] serve_users [of s chk L A E W c rq] by auto
qed simp

section \<open>Tokens\<close>

text \<open>
  What the server relies on of \<^verbatim>\<open>jsonwebtoken\<close> (HS256, default validation): a token it encoded decodes
  under the same secret to the same claims until sixty seconds after its expiry and not later, and
  tokens are base64url segments joined by dots.
\<close>

definition token_char :: "char \<Rightarrow> bool" where
  "token_char ch \<longleftrightarrow> (let n = of_char ch :: nat in
     48 \<le> n \<and> n \<le> 57 \<or> 65 \<le> n \<and> n \<le> 90 \<or> 97 \<le> n \<and> n \<le> 122 \<or> ch = CHR ''-'' \<or> ch = CHR ''_'' \<or> ch = CHR ''.'')"

definition jwt_ok :: "api_lib \<Rightarrow> bool" where
  "jwt_ok A \<longleftrightarrow> (\<forall>secret cl token. jwt_encode A secret cl = Some token \<longrightarrow>
     list_all token_char token \<and>
     (\<forall>now. jwt_decode A secret now token = (if now - 60 \<le> uint (cl_exp cl) then Some cl else None)))"

lemma strip_white_none:
  assumes "\<And>w. w \<in> set ws \<Longrightarrow> w \<noteq> [] \<Longrightarrow> s = [] \<or> hd w \<noteq> hd s"
  shows "strip_white ws s = s"
proof -
  have "take (length w) s \<noteq> w" if "w \<in> set ws" "w \<noteq> []" for w
    using assms [OF that] that(2) by (cases w; cases s) auto
  then have "starts_white ws s = None" by (auto simp: starts_white_def find_None_iff)
  then show ?thesis by (simp add: strip_white.simps)
qed

lemma white_not_token:
  "list_all (\<lambda>w. \<not> token_char (hd w) \<and> \<not> token_char (hd (rev w))) (map (map char_of) white_space)"
  by (simp add: white_space_def token_char_def upt_rec char_of_def bit_0 Let_def)

lemma str_trim_token:
  assumes "list_all token_char s"
  shows "str_trim s = s"
proof -
  let ?ws = "map (map char_of) white_space :: string list"
  have hd_token: "t = [] \<or> token_char (hd t)" if "list_all token_char t" for t
    using that by (cases t) auto
  have ws: "\<not> token_char (hd w)" "\<not> token_char (hd (rev w))" if "w \<in> set ?ws" for w
    using white_not_token that by (auto simp only: list_all_iff)
  have "strip_white ?ws s = s"
    using ws(1) hd_token [OF assms] by (intro strip_white_none) metis
  moreover have "strip_white (map rev ?ws) (rev s) = rev s"
  proof (rule strip_white_none)
    fix w assume "w \<in> set (map rev ?ws)"
    then have "\<not> token_char (hd w)" using ws(2) by auto
    then show "rev s = [] \<or> hd w \<noteq> hd (rev s)" using hd_token [of "rev s"] assms by (metis list_all_rev)
  qed
  ultimately show ?thesis by (simp add: str_trim_def Let_def)
qed

lemma issue_jwt_Inr:
  assumes "issue_jwt chk A c utc uid name s = (Inr (token, expiry), t)"
  shows "jwt_encode A (app_jwt_secret c) \<lparr>cl_sub = name, cl_uid = uid, cl_exp = i64_as_u64 expiry\<rparr> = Some token"
    "add_i64 chk utc (u64_as_i64 (app_jwt_expiry_seconds c)) = Ret expiry" "t = s"
  using assms
  by (auto simp: issue_jwt_def bindE_Inr_iff fail_with_def split: option.splits)

lemma require_jwt_issued:
  assumes "jwt_ok A" "jwt_encode A (app_jwt_secret c) cl = Some token"
  shows "require_jwt A c now (Some (''Bearer '' @ token)) run =
    (if now - 60 \<le> uint (cl_exp cl) then run else fail_with (Unauthorized ''invalid jwt''))"
proof -
  have "str_trim token = token" using assms str_trim_token by (auto simp: jwt_ok_def)
  then show ?thesis
    using assms by (simp add: require_jwt_def extract_bearer_def decode_jwt_def jwt_ok_def)
qed

lemma auth_login_Inr:
  assumes "auth_login chk A E c now utc ip req s = (Inr r, s')"
  obtains u where "u \<in> set (users_of s)" "nocase (username u) = nocase (rq_username req)"
    "verify_password A (rq_password req) (password_hash u)"
    "jwt_encode A (app_jwt_secret c)
       \<lparr>cl_sub = username u, cl_uid = user_id u, cl_exp = i64_as_u64 (au_expires_at r)\<rparr> = Some (au_token r)"
    "add_i64 chk utc (u64_as_i64 (app_jwt_expiry_seconds c)) = Ret (au_expires_at r)"
proof -
  from assms obtain t u v token expiry where
    t: "enforce_login_rate_limit now ip s = (Inr (), t)" and
    u: "query A (get_user_by_username E (rq_username req)) t = (Inr (Some u), v)"
       "verify_password A (rq_password req) (password_hash u)" and
    j: "issue_jwt chk A c utc (user_id u) (username u) v = (Inr (token, expiry), s')" and
    r: "r = \<lparr>au_token = token, au_expires_at = expiry\<rparr>"
    by (auto simp: auth_login_def fail_with_def bindE_Inr_iff split: if_splits option.splits)
  have "users_of t = users_of s"
    using t by (auto simp: enforce_login_rate_limit_def Let_def split: if_splits)
  moreover have "find (\<lambda>x. nocase (username x) = nocase (rq_username req)) (users_of t) = Some u"
    using u(1) by (auto simp: query_def run_db_def get_user_by_username_def stmt_def mapErr_def
        split: option.splits prod.splits)
  ultimately show thesis
    using that u(2) issue_jwt_Inr [OF j] r by (auto dest!: find_SomeD)
qed

lemma digits_no_point: "list_all is_digit s \<Longrightarrow> CHR ''.'' \<notin> set s"
  by (auto simp: list_all_iff is_digit_def)

section \<open>A concrete instance\<close>

definition token_ref :: "claims \<Rightarrow> string" where
  "token_ref cl = join_with CHR ''.'' [cl_sub cl, dec_string (nat (cl_uid cl)), dec_string (unat (cl_exp cl))]"

definition untoken_ref :: "string \<Rightarrow> claims option" where
  "untoken_ref s =
     (case split_on CHR ''.'' s of
        [name, uid, expiry] \<Rightarrow>
          (case (parse_dec uid, parse_u64 expiry) of
             (Some u, Some e) \<Rightarrow> Some \<lparr>cl_sub = name, cl_uid = int u, cl_exp = e\<rparr>
           | _ \<Rightarrow> None)
      | _ \<Rightarrow> None)"

definition encodable :: "claims \<Rightarrow> bool" where
  "encodable cl \<longleftrightarrow> 0 \<le> cl_uid cl \<and> list_all token_char (cl_sub cl) \<and> CHR ''.'' \<notin> set (cl_sub cl)"

definition api_ref :: api_lib where
  "api_ref = \<lparr>
     password_hash_ok = (\<lambda>h. True),
     verify_password = (\<lambda>pw h. h = ''#'' @ pw),
     hash_password = (\<lambda>salt pw. Some (''#'' @ pw)),
     jwt_encode = (\<lambda>secret cl. if encodable cl then Some (token_ref cl) else None),
     jwt_decode = (\<lambda>secret now s. case untoken_ref s of
        None \<Rightarrow> None | Some cl \<Rightarrow> if now - 60 \<le> uint (cl_exp cl) then Some cl else None),
     api_sqlx_text = (\<lambda>e. case e of SqlxDatabase m \<Rightarrow> m | SqlxOther m \<Rightarrow> m),
     read_file = (\<lambda>path. None)\<rparr>"

lemma digits_token: "list_all is_digit s \<Longrightarrow> list_all token_char s"
  by (auto simp: list_all_iff is_digit_def token_char_def Let_def)

lemma untoken_token:
  assumes "encodable cl"
  shows "untoken_ref (token_ref cl) = Some cl" "list_all token_char (token_ref cl)"
proof -
  let ?ps = "[cl_sub cl, dec_string (nat (cl_uid cl)), dec_string (unat (cl_exp cl))]"
  have dots: "CHR ''.'' \<notin> set p" if "p \<in> set ?ps" for p
    using that assms digits_no_point [OF dec_string_digits] by (auto simp: encodable_def)
  have "split_on CHR ''.'' (token_ref cl) = ?ps"
    unfolding token_ref_def by (rule split_join) (use dots in simp_all)
  then show "untoken_ref (token_ref cl) = Some cl"
    using assms by (simp add: untoken_ref_def encodable_def)
  show "list_all token_char (token_ref cl)"
    using assms digits_token [OF dec_string_digits]
    by (simp add: token_ref_def join_with_def encodable_def token_char_def)
qed

lemma jwt_ok_ref: "jwt_ok api_ref"
  by (auto simp: jwt_ok_def api_ref_def untoken_token split: if_splits)

definition app_ref :: app_config where
  "app_ref = \<lparr>app_jwt_secret = ''secret'', app_jwt_expiry_seconds = 3600, app_web_ui_path = ''web-ui'',
     app_node_ws_url = ''ws://node'', app_wallet_address = 1, app_start_time = 0\<rparr>"

definition api_start :: api_state where
  "api_start = \<lparr>as_db = migrated_database, as_limiter = (\<lambda>ip. [])\<rparr>"

definition request_ref :: request where
  "request_ref = \<lparr>req_path = ''/api/bot/start'', req_method = POST, req_authorization = None,
     req_ip = IpV4 [127, 0, 0, 1],
     req_body = \<lparr>rq_username = ''alice'', rq_password = ''correct horse''\<rparr>,
     req_limit = None, req_offset = None, req_now = 0, req_utc = 1700000000, req_salt = ''salt''\<rparr>"

definition wallet_ref :: wallet_rpc where
  "wallet_ref = \<lparr>wr_connect = Inr (), wr_balance = (\<lambda>a. Inr 0), wr_decimals = Inr 8, wr_answer = Inr 0,
     wr_i256_to_string = (\<lambda>i. dec_string (nat i)), wr_powi10 = (\<lambda>n. f64_of_int (10 ^ n))\<rparr>"

section \<open>Properties\<close>

text \<open>
  C16: however many requests without an accepted token the server gets, the trades, opportunities, gas
  history and bot state stay as they were; and each of them to a protected route is answered 401 with
  the code \<open>UNAUTHORIZED\<close> before its handler runs, with the state unchanged.
\<close>

theorem unauthenticated_requests:
  assumes "\<forall>rq \<in> set rqs. unauthenticated A c rq"
  shows "bot_data (as_db (serve_all chk L A E W c rqs s)) = bot_data (as_db s) \<and>
    (\<forall>rq \<in> set rqs. \<forall>ep t. route (req_path rq) (req_method rq) = Some ep \<and> is_protected ep \<longrightarrow>
       (\<exists>msg. serve chk L A E W c rq t =
          (Some (RespJson 401 (JObject [(''error'', JString msg), (''code'', JString ''UNAUTHORIZED'')])), t)))"
proof -
  have "\<exists>msg. serve chk L A E W c rq t =
      (Some (RespJson 401 (JObject [(''error'', JString msg), (''code'', JString ''UNAUTHORIZED'')])), t)"
    if "rq \<in> set rqs" "route (req_path rq) (req_method rq) = Some ep" "is_protected ep" for rq ep t
    using respond_unauthenticated [of A c rq ep chk L E W t] that assms
    by (auto simp: serve_def error_response_def)
  then show ?thesis using serve_all_unauthenticated_keeps [OF assms] by blast
qed

theorem unauthenticated_requests_witness:
  "unauthenticated api_ref app_ref request_ref \<and>
   bot_data (as_db (serve_all True alloy_ref api_ref sqlite_ref wallet_ref app_ref [request_ref] api_start)) =
     bot_data migrated_database \<and>
   (\<exists>msg. serve True alloy_ref api_ref sqlite_ref wallet_ref app_ref request_ref api_start =
      (Some (RespJson 401 (JObject [(''error'', JString msg), (''code'', JString ''UNAUTHORIZED'')])), api_start))"
proof -
  have u: "unauthenticated api_ref app_ref request_ref"
    by (simp add: unauthenticated_def request_ref_def extract_bearer_def)
  have "route (req_path request_ref) (req_method request_ref) = Some BotStart"
    by (simp add: request_ref_def route_def routes_def takes_method_def)
  then show ?thesis
    using unauthenticated_requests [of "[request_ref]" api_ref app_ref True alloy_ref sqlite_ref wallet_ref api_start] u
    by (simp add: api_start_def)
qed

text \<open>
  C17: with attempts in the order of the clock, an address has at most five accepted login attempts
  within sixty seconds (the sixth comes at least a window after the first), whatever the other
  addresses do; and the limiter refuses an attempt only when five accepted ones are less than sixty
  seconds old.
\<close>

theorem login_limiter:
  assumes "as_limiter s ip = []" "sorted (map fst attempts)" "accepted_attempts ip attempts s = (ts, s')"
  shows "(\<forall>i. i + 5 < length ts \<longrightarrow> ts ! i + int (duration_secs 60) \<le> ts ! (i + 5)) \<and>
    (\<forall>now. (\<forall>x \<in> set attempts. fst x \<le> now) \<longrightarrow>
       fst (enforce_login_rate_limit now ip s') =
         (if length (filter (\<lambda>t. now - t < int (duration_secs 60)) ts) < 5 then Inr ()
          else Inl (Err (RateLimited ''too many attempts''))))"
proof -
  have "fst (enforce_login_rate_limit now ip s') =
      (if length (recent now ts) < 5 then Inr () else Inl (Err (RateLimited ''too many attempts'')))"
    if "\<forall>x \<in> set attempts. fst x \<le> now" for now
    using accepted_inv(2) [OF assms that] by (simp add: enforce_limit_eq Let_def)
  moreover have "spaced ts"
    by (rule accepted_inv(1) [OF assms, of "if attempts = [] then 0 else Max (fst ` set attempts)"]) auto
  ultimately show ?thesis by (simp add: spaced_def recent_def window_def)
qed

definition home :: ip_addr where "home = IpV4 [127, 0, 0, 1]"

definition demo_attempts :: "(int \<times> ip_addr) list" where
  "demo_attempts = map (\<lambda>k. (int (duration_secs (10 * k)), home)) [0..<7]"

theorem login_limiter_witness:
  "\<exists>ts s'. accepted_attempts home demo_attempts api_start = (ts, s') \<and>
    ts = map (\<lambda>k. int (duration_secs (10 * k))) [0, 1, 2, 3, 4, 6] \<and>
    (\<forall>i. i + 5 < length ts \<longrightarrow> ts ! i + int (duration_secs 60) \<le> ts ! (i + 5)) \<and>
    (\<forall>now. (\<forall>x \<in> set demo_attempts. fst x \<le> now) \<longrightarrow>
       fst (enforce_login_rate_limit now home s') =
         (if length (filter (\<lambda>t. now - t < int (duration_secs 60)) ts) < 5 then Inr ()
          else Inl (Err (RateLimited ''too many attempts''))))"
proof -
  obtain ts s' where run: "accepted_attempts home demo_attempts api_start = (ts, s')" by fastforce
  moreover have "fst (accepted_attempts home demo_attempts api_start) =
      map (\<lambda>k. int (duration_secs (10 * k))) [0, 1, 2, 3, 4, 6]"
    by (simp add: accepted_attempts_def demo_attempts_def attempt_def enforce_login_rate_limit_def Let_def
        api_start_def duration_secs_def upt_rec)
  moreover have "sorted (map fst demo_attempts)" by (simp add: demo_attempts_def duration_secs_def upt_rec)
  moreover have "as_limiter api_start home = []" by (simp add: api_start_def)
  ultimately show ?thesis using login_limiter [of api_start home demo_attempts ts s'] by simp
qed

text \<open>
  C35: served one after the other, requests of any kind leave at most one account: from a database
  without users at most one is ever created, and once there is one the set of users never changes.
\<close>

theorem registration_once:
  "(users_of s \<noteq> [] \<longrightarrow> users_of (serve_all chk L A E W c rqs s) = users_of s) \<and>
   (length (users_of s) \<le> 1 \<longrightarrow> length (users_of (serve_all chk L A E W c rqs s)) \<le> 1)"
  using serve_all_users [of s chk L A E W c rqs] by auto

definition register_ref :: request where
  "register_ref = request_ref\<lparr>req_path := ''/api/auth/register''\<rparr>"

lemma register_ref_serve:
  "users_of (snd (serve True alloy_ref api_ref sqlite_ref wallet_ref app_ref register_ref api_start)) \<noteq> []"
proof -
  have "route (req_path register_ref) (req_method register_ref) = Some Register"
    by (simp add: register_ref_def request_ref_def route_def routes_def takes_method_def)
  then have "snd (serve True alloy_ref api_ref sqlite_ref wallet_ref app_ref register_ref api_start) =
      snd (auth_register True api_ref sqlite_ref app_ref (req_utc register_ref) (req_salt register_ref)
        (req_body register_ref) api_start)"
    by (simp add: serve_def respond_def handler_def bindE_def okE_def split: prod.splits sum.splits fail.splits)
  moreover have "register_check api_ref sqlite_ref (req_body register_ref) api_start =
      (Inr (), api_start\<lparr>as_db := tick migrated_database\<rparr>)"
    by (subst register_check_passes) (simp_all add: register_ref_def request_ref_def api_start_def migrated_database_def)
  moreover have "hash_password api_ref (req_salt register_ref) (rq_password (req_body register_ref)) = Some ''#correct horse''"
    by (simp add: api_ref_def register_ref_def request_ref_def)
  from register_insert_adds [OF this, of sqlite_ref "api_start\<lparr>as_db := tick migrated_database\<rparr>" True app_ref
      "req_utc register_ref"]
  have "users_of (snd (register_insert True api_ref sqlite_ref app_ref (req_utc register_ref) (req_salt register_ref)
      (req_body register_ref) (api_start\<lparr>as_db := tick migrated_database\<rparr>))) \<noteq> []"
    by (auto simp: migrated_database_def i64_max_def add_user_def)
  ultimately show ?thesis by (simp add: auth_register_def bindE_def)
qed

theorem registration_once_witness:
  "length (users_of (serve_all True alloy_ref api_ref sqlite_ref wallet_ref app_ref
     [register_ref, register_ref] api_start)) = 1"
proof -
  let ?run = "\<lambda>rqs s. serve_all True alloy_ref api_ref sqlite_ref wallet_ref app_ref rqs s"
  let ?s = "?run [register_ref] api_start"
  have "users_of ?s \<noteq> []" using register_ref_serve by simp
  moreover have "length (users_of ?s) \<le> 1"
    using registration_once [of api_start True alloy_ref api_ref sqlite_ref wallet_ref app_ref "[register_ref]"]
    by (simp add: api_start_def migrated_database_def)
  moreover have "users_of (?run [register_ref, register_ref] api_start) = users_of ?s"
    using registration_once [of ?s True alloy_ref api_ref sqlite_ref wallet_ref app_ref "[register_ref]"] calculation(1)
    by simp
  ultimately show ?thesis by (cases "users_of ?s") simp_all
qed


definition bob_ref :: auth_request where
  "bob_ref = \<lparr>rq_username = ''bob'', rq_password = ''battery staple''\<rparr>"


text \<open>
  C20: a successful login gave the password of a stored user, and its token opens the protected routes:
  until sixty seconds after the announced expiry (the leeway of the default validation) the guard lets
  the handler run, and from then on it answers 401.
\<close>

theorem login_token_opens:
  assumes "jwt_ok A" "auth_login chk A E c now utc ip req s = (Inr r, s')"
    "0 \<le> utc" "utc + int (unat (app_jwt_expiry_seconds c)) \<le> i64_max"
  shows "(\<exists>u \<in> set (users_of s). nocase (username u) = nocase (rq_username req) \<and>
       verify_password A (rq_password req) (password_hash u)) \<and>
    au_expires_at r = utc + int (unat (app_jwt_expiry_seconds c)) \<and>
    (\<forall>later (run :: response api_io). require_jwt A c later (Some (''Bearer '' @ au_token r)) run =
       (if later \<le> au_expires_at r + 60 then run else fail_with (Unauthorized ''invalid jwt'')))"
  using assms(2)
proof (cases rule: auth_login_Inr)
  case (1 u)
  let ?n = "int (unat (app_jwt_expiry_seconds c))"
  have "?n < 2 ^ 63" using assms(3,4) by (simp add: i64_max_def)
  then have n: "u64_as_i64 (app_jwt_expiry_seconds c) = ?n"
    using signed_take_bit_int_eq_self [of 63 "uint (app_jwt_expiry_seconds c)"]
      order_trans [of "- (2 ^ 63)" 0 "uint (app_jwt_expiry_seconds c)"]
    by (simp add: u64_as_i64_def sint_uint)
  have "i64_min \<le> utc + ?n"
    by (rule order_trans [of _ 0]) (use assms(3) in \<open>simp_all add: i64_min_def\<close>)
  then have "add_i64 chk utc ?n = Ret (utc + ?n)"
    using assms(4) by (simp only: add_i64_def simp_thms if_True)
  then have expiry: "au_expires_at r = utc + ?n" using 1(5) by (simp only: n outcome.inject)
  have "0 \<le> au_expires_at r" "au_expires_at r \<le> i64_max" using expiry assms(3,4) by simp_all
  then have "uint (i64_as_u64 (au_expires_at r)) = au_expires_at r"
    by (simp add: i64_as_u64_def uint_word_of_int_eq take_bit_int_eq_self i64_max_def)
  then have "require_jwt A c later (Some (''Bearer '' @ au_token r)) run =
      (if later \<le> au_expires_at r + 60 then run else fail_with (Unauthorized ''invalid jwt''))"
    for later and run :: "response api_io"
    by (subst require_jwt_issued [OF assms(1) 1(4)]) (simp add: algebra_simps)
  then show ?thesis using expiry 1(1-3) by blast
qed

definition account_ref :: api_state where
  "account_ref = api_start\<lparr>as_db := migrated_database\<lparr>users := [\<lparr>user_id = 1, username = ''alice'',
     password_hash = ''#correct horse'', created_at = 0\<rparr>], users_seq := 1\<rparr>\<rparr>"

lemma login_ref:
  "\<exists>r s'. auth_login True api_ref sqlite_ref app_ref 0 1700000000 home (req_body request_ref) account_ref = (Inr r, s')"
  by (simp add: auth_login_def request_ref_def account_ref_def api_start_def enforce_limit_eq recent_def Let_def
      query_def run_db_def get_user_by_username_def stmt_def bindE_def mapErr_def okE_def api_ref_def issue_jwt_def
      app_ref_def liftO_def add_i64_def u64_as_i64_def i64_min_def i64_max_def encodable_def token_char_def)

theorem login_token_opens_witness:
  "\<exists>r s'. auth_login True api_ref sqlite_ref app_ref 0 1700000000 home (req_body request_ref) account_ref =
      (Inr r, s') \<and> au_expires_at r = 1700003600 \<and>
    (\<forall>later (run :: response api_io). require_jwt api_ref app_ref later (Some (''Bearer '' @ au_token r)) run =
       (if later \<le> 1700003660 then run else fail_with (Unauthorized ''invalid jwt'')))"
proof -
  obtain r s' where r: "auth_login True api_ref sqlite_ref app_ref 0 1700000000 home (req_body request_ref) account_ref =
      (Inr r, s')" using login_ref by blast
  show ?thesis
    using login_token_opens [OF jwt_ok_ref r] r by (simp add: app_ref_def i64_max_def)
qed

end
