(* ===== verification/Api_Views.thy ===== *)
theory Api_Views
  imports Api_Auth
begin

text \<open>
  What the server shows: the balance in decimal ether against a reference reading of such texts, the
  status after a start or a stop, and the trades page by page.
\<close>

section \<open>Decimal ether\<close>

text \<open>
  What a text such as \<^verbatim>\<open>12.34\<close> means in wei: digits, and after a point at most eighteen more.
\<close>

definition eth_to_wei :: "string \<Rightarrow> nat option" where
  "eth_to_wei s =
     (case split_on CHR ''.'' s of
        [i] \<Rightarrow> map_option (\<lambda>n. n * 10 ^ 18) (parse_dec i)
      | [i, f] \<Rightarrow>
          (case (parse_dec i, parse_dec f) of
             (Some n, Some m) \<Rightarrow> if length f \<le> 18 then Some (n * 10 ^ 18 + m * 10 ^ (18 - length f)) else None
           | _ \<Rightarrow> None)
      | _ \<Rightarrow> None)"

lemma dec_value_append: "dec_value (s @ t) = dec_value s * 10 ^ length t + dec_value t"
proof (induction t rule: rev_induct)
  case (snoc c t)
  have "dec_value (s @ t @ [c]) = 10 * dec_value (s @ t) + digit_val c"
    using dec_value_snoc [of "s @ t" c] by simp
  then show ?case by (simp add: snoc dec_value_snoc algebra_simps)
qed (simp add: dec_value_def)

lemma dec_value_zeros [simp]: "dec_value (replicate k CHR ''0'') = 0"
  by (induction k) (simp_all add: dec_value_def digit_val_def)

lemma trim_end_zeros_split: "\<exists>k. s = trim_end_zeros s @ replicate k CHR ''0''"
proof -
  have "takeWhile (\<lambda>c. c = CHR ''0'') (rev s) = replicate (length (takeWhile (\<lambda>c. c = CHR ''0'') (rev s))) CHR ''0''"
    by (metis (full_types) replicate_length_same set_takeWhileD)
  then have "rev s = replicate (length (takeWhile (\<lambda>c. c = CHR ''0'') (rev s))) CHR ''0'' @ rev (trim_end_zeros s)"
    by (metis rev_rev_ident takeWhile_dropWhile_id trim_end_zeros_def)
  then show ?thesis by (metis rev_append rev_replicate rev_rev_ident)
qed

lemma trim_end_zeros_last: "trim_end_zeros s \<noteq> [] \<Longrightarrow> last (trim_end_zeros s) \<noteq> CHR ''0''"
  using hd_dropWhile [of "\<lambda>c. c = CHR ''0''" "rev s"] unfolding trim_end_zeros_def by (simp add: last_rev)

lemma trim_end_zeros_value:
  "dec_value s = dec_value (trim_end_zeros s) * 10 ^ (length s - length (trim_end_zeros s))"
  "length (trim_end_zeros s) \<le> length s" "list_all is_digit s \<Longrightarrow> list_all is_digit (trim_end_zeros s)"
proof -
  obtain k where k: "s = trim_end_zeros s @ replicate k CHR ''0''" using trim_end_zeros_split by blast
  have len: "length s = length (trim_end_zeros s) + k" by (subst k) simp
  then show "length (trim_end_zeros s) \<le> length s" by simp
  have "dec_value s = dec_value (trim_end_zeros s) * 10 ^ k" by (subst k) (simp add: dec_value_append)
  then show "dec_value s = dec_value (trim_end_zeros s) * 10 ^ (length s - length (trim_end_zeros s))"
    using len by simp
  show "list_all is_digit (trim_end_zeros s)" if "list_all is_digit s"
    using that by (subst (asm) k) simp
qed

text \<open>An integer part and eighteen decimals, without the trailing zeros.\<close>

definition eth_text :: "string \<Rightarrow> string \<Rightarrow> string" where
  "eth_text i f = (if trim_end_zeros f = [] then i else i @ ''.'' @ trim_end_zeros f)"

lemma eth_to_wei_text:
  assumes "list_all is_digit i" "i \<noteq> []" "list_all is_digit f" "length f = 18"
  shows "eth_to_wei (eth_text i f) = Some (dec_value (i @ f))"
proof -
  let ?f = "trim_end_zeros f"
  have f: "dec_value f = dec_value ?f * 10 ^ (18 - length ?f)" "length ?f \<le> 18" "list_all is_digit ?f"
    using trim_end_zeros_value [of f] assms(3,4) by simp_all
  show ?thesis
  proof (cases "?f = []")
    case True
    then have "dec_value f = 0" using f(1) by (simp add: dec_value_def)
    then show ?thesis
      using True assms
      by (simp add: eth_text_def eth_to_wei_def split_on_single digits_no_point parse_dec_def dec_value_append)
  next
    case False
    have "split_on CHR ''.'' (i @ ''.'' @ ?f) = [i, ?f]"
      using assms(1) f(3) by (simp add: split_on_clean split_on_single digits_no_point)
    then show ?thesis
      using False assms f by (simp add: eth_text_def eth_to_wei_def parse_dec_def dec_value_append)
  qed
qed

lemma eth_text_last:
  assumes "list_all is_digit i" "list_all is_digit f" "CHR ''.'' \<in> set (eth_text i f)"
  shows "last (eth_text i f) \<noteq> CHR ''0'' \<and> last (eth_text i f) \<noteq> CHR ''.''"
proof (cases "trim_end_zeros f = []")
  case True
  then show ?thesis using assms digits_no_point [of i] by (simp add: eth_text_def)
next
  case False
  have "last (trim_end_zeros f) \<noteq> CHR ''.''"
    using digits_no_point [OF trim_end_zeros_value(3) [OF assms(2)]] last_in_set [OF False] by metis
  then show ?thesis using False trim_end_zeros_last [OF False] by (auto simp: eth_text_def)
qed

lemma format_wei_short:
  assumes "u256_to_string L wei = s" "length s \<le> 18"
  shows "format_wei_as_eth L wei = eth_text ''0'' (replicate (18 - length s) CHR ''0'' @ s)"
proof (cases "s = ''0''")
  case True
  have "replicate 17 CHR ''0'' @ s = replicate 18 CHR ''0''" by (simp add: True numeral_eq_Suc)
  moreover have "trim_end_zeros (replicate 18 CHR ''0'') = []" by (simp add: trim_end_zeros_def)
  ultimately show ?thesis using assms(1) by (simp add: format_wei_as_eth_def eth_text_def True)
qed (use assms in \<open>simp add: format_wei_as_eth_def eth_text_def Let_def\<close>)

lemma format_wei_long:
  assumes "u256_to_string L wei = s" "\<not> length s \<le> 18"
  shows "format_wei_as_eth L wei = eth_text (take (length s - 18) s) (drop (length s - 18) s)"
  using assms by (auto simp: format_wei_as_eth_def eth_text_def Let_def)

lemma format_wei_text:
  assumes "u256_text_ok L"
  obtains i f where "list_all is_digit i" "i \<noteq> []" "list_all is_digit f" "length f = 18"
    "dec_value (i @ f) = unat wei" "format_wei_as_eth L wei = eth_text i f"
proof -
  let ?s = "dec_string (unat wei)"
  have s: "u256_to_string L wei = ?s" using assms by (simp add: u256_text_ok_def)
  have digits: "list_all is_digit ?s" by (rule dec_string_digits)
  show thesis
  proof (cases "length ?s \<le> 18")
    case True
    have "list_all is_digit (replicate k CHR ''0'')" for k by (induction k) (simp_all add: is_digit_def)
    moreover have "dec_value (''0'' @ t) = dec_value t" for t
      using dec_value_append [of "''0''" t] by (simp add: dec_value_def digit_val_def)
    ultimately show thesis
      by (intro that [OF _ _ _ _ _ format_wei_short [OF s True]])
        (use True digits in \<open>simp_all add: is_digit_def dec_value_append del: append_Cons\<close>)
  next
    case False
    have "list_all is_digit (take k ?s)" "list_all is_digit (drop k ?s)" for k
      using digits by (metis append_take_drop_id list_all_append)+
    then show thesis
      by (intro that [OF _ _ _ _ _ format_wei_long [OF s False]]) (use False in auto)
  qed
qed

section \<open>Properties\<close>

text \<open>
  C37: the wallet's balance is shown exactly: the text denotes the number of wei, for every 256-bit
  amount, and a text with a decimal point ends in a digit other than zero.
\<close>

theorem format_wei_exact:
  assumes "u256_text_ok L"
  shows "eth_to_wei (format_wei_as_eth L wei) = Some (unat wei) \<and>
    (CHR ''.'' \<in> set (format_wei_as_eth L wei) \<longrightarrow>
       last (format_wei_as_eth L wei) \<noteq> CHR ''0'' \<and> last (format_wei_as_eth L wei) \<noteq> CHR ''.'')"
proof -
  obtain i f where "list_all is_digit i" "i \<noteq> []" "list_all is_digit f" "length f = 18"
    "dec_value (i @ f) = unat wei" "format_wei_as_eth L wei = eth_text i f"
    using format_wei_text [OF assms] by metis
  then show ?thesis using eth_to_wei_text [of i f] eth_text_last [of i f] by simp
qed

theorem format_wei_exact_witness:
  "format_wei_as_eth alloy_ref 1500000000000000000 = ''1.5'' \<and>
   eth_to_wei (format_wei_as_eth alloy_ref 1500000000000000000) = Some 1500000000000000000"
proof -
  have "format_wei_as_eth alloy_ref 1500000000000000000 = ''1.5''"
    by (simp add: format_wei_as_eth_def alloy_ref_def dec_string.simps digit_char_def trim_end_zeros_def
        char_of_def bit_0 Let_def)
  then show ?thesis using format_wei_exact [of alloy_ref 1500000000000000000] by simp
qed

text \<open>
  After a start or a stop that succeeded, whatever requests without an accepted token come in
  between, the status shows what was asked for, and a start reports the block the status shows.
\<close>

theorem bot_control_shown:
  assumes "(if on then bot_start A E else bot_stop A E) s = (Inr j, s1)"
    "\<forall>rq \<in> set rqs. unauthenticated A c rq"
    "bot_status A E c now (serve_all chk L A E W c rqs s1) = (Inr k, s2)"
  shows "\<exists>rest block. j = JObject ((''status'', JString (if on then ''running'' else ''stopped'')) #
      (if on then [(''block'', block)] else [])) \<and>
    k = JObject ((''status'', JString (if on then ''running'' else ''stopped'')) # (''error_message'', JNull) #
      (''current_block'', block) # rest)"
proof -
  let ?flag = "if on then ''true'' else ''false''"
  let ?block = "JNumber (PosInt (u64_or_zero (bot_state (as_db s1) ''last_block'')))"
  note q = query_def run_db_def set_bot_state_def get_bot_state_def put_state_def stmt_def
  have s1: "bot_state (as_db s1) ''running'' = Some ?flag"
    using assms(1)
    by (auto simp: bot_start_def bot_stop_def q bindE_Inr_iff split: if_splits prod.splits option.splits)
  have j: "j = JObject ((''status'', JString (if on then ''running'' else ''stopped'')) #
      (if on then [(''block'', ?block)] else []))"
    using assms(1)
    by (auto simp: bot_start_def bot_stop_def q bindE_Inr_iff split: if_splits prod.splits option.splits)
  have same: "bot_state (as_db (serve_all chk L A E W c rqs s1)) = bot_state (as_db s1)"
    using serve_all_unauthenticated_keeps [OF assms(2), of chk L E W s1] by (simp add: bot_data_def)
  then show ?thesis
    using assms(3) s1 j
    by (auto simp: bot_status_def status_text_def q bindE_Inr_iff Let_def split: prod.splits option.splits)
qed

theorem bot_control_shown_witness:
  "\<exists>j s1 k s2. bot_start api_ref sqlite_ref api_start = (Inr j, s1) \<and>
    bot_status api_ref sqlite_ref app_ref 0
      (serve_all True alloy_ref api_ref sqlite_ref wallet_ref app_ref [request_ref] s1) = (Inr k, s2) \<and>
    (\<exists>rest. k = JObject ((''status'', JString ''running'') # rest))"
proof -
  note q = query_def run_db_def set_bot_state_def get_bot_state_def stmt_def bindE_def mapErr_def okE_def Let_def
  obtain j s1 where j: "(if True then bot_start api_ref sqlite_ref else bot_stop api_ref sqlite_ref) api_start = (Inr j, s1)"
    by (simp add: bot_start_def q split: prod.splits)
  obtain k s2 where k: "bot_status api_ref sqlite_ref app_ref 0
      (serve_all True alloy_ref api_ref sqlite_ref wallet_ref app_ref [request_ref] s1) = (Inr k, s2)"
    by (simp add: bot_status_def q split: prod.splits)
  have u: "\<forall>rq \<in> set [request_ref]. unauthenticated api_ref app_ref rq"
    by (simp add: unauthenticated_def request_ref_def extract_bearer_def)
  show ?thesis using bot_control_shown [OF j u k] j k by auto
qed

lemma trades_list_page:
  assumes "\<forall>n. stmt_fault E n = None" "unat limit \<le> 200" "offset < 2 ^ 32"
  shows "\<exists>s'. trades_list A E (Some limit) (Some (word_of_nat offset)) s =
    (Inr (JObject [(''trades'', JArray (map (\<lambda>r. JObject (trade_fields r))
            (take (unat limit) (drop offset (order_by_timestamp_desc E (trades (as_db s))))))),
          (''total'', json_i64 (int (length (trades (as_db s)))))]), s')"
proof -
  have "trades_limit (Some limit) = limit"
    using assms(2) by (simp add: trades_limit_def min_def word_le_nat_alt)
  moreover have "unat (word_of_nat offset :: u32) = offset"
    using assms(3) by (simp add: unat_of_nat take_bit_nat_eq_self)
  ultimately show ?thesis
    using assms(1)
    by (simp add: trades_list_def query_def run_db_def select_trades_def get_trade_count_def stmt_def
        bindE_def mapErr_def okE_def)
qed

text \<open>
  C38: reading the trades page by page shows every trade once: the pages at offsets \<open>0, n, 2n, \<dots>\<close> with
  a limit \<open>n\<close> of at most 200 hold, one after the other, the whole table, newest first; no page has more
  than 200 trades, and each comes with the number of all trades.
\<close>

theorem trades_pages_complete:
  assumes "\<forall>n. stmt_fault E n = None" "order_ok E" "0 < unat limit" "unat limit \<le> 200"
    "length (trades (as_db s)) \<le> k * unat limit" "k * unat limit < 2 ^ 32"
  shows "\<exists>pages. length pages = k \<and> concat pages = order_by_timestamp_desc E (trades (as_db s)) \<and>
    mset (concat pages) = mset (trades (as_db s)) \<and>
    (\<forall>i < k. length (pages ! i) \<le> 200 \<and>
       (\<exists>s'. trades_list A E (Some limit) (Some (word_of_nat (i * unat limit))) s =
          (Inr (JObject [(''trades'', JArray (map (\<lambda>r. JObject (trade_fields r)) (pages ! i))),
                         (''total'', json_i64 (int (length (trades (as_db s)))))]), s')))"
proof -
  let ?n = "unat limit" and ?all = "order_by_timestamp_desc E (trades (as_db s))"
  define pages where "pages = map (\<lambda>i. take ?n (drop (i * ?n) ?all)) [0..<k]"
  have prefix: "concat (map (\<lambda>i. take ?n (drop (i * ?n) ?all)) [0..<m]) = take (m * ?n) ?all" for m
    by (induction m) (simp_all add: take_add [symmetric] add.commute)
  have all: "mset ?all = mset (trades (as_db s))" using assms(2) by (simp add: order_ok_def)
  then have whole: "concat pages = ?all"
    using prefix [of k] assms(5) mset_eq_length [OF all] by (simp add: pages_def)
  have page: "\<exists>s'. trades_list A E (Some limit) (Some (word_of_nat (i * ?n))) s =
      (Inr (JObject [(''trades'', JArray (map (\<lambda>r. JObject (trade_fields r)) (pages ! i))),
                     (''total'', json_i64 (int (length (trades (as_db s)))))]), s')" if "i < k" for i
  proof -
    have "i * ?n < 2 ^ 32" using that assms(6) by (meson le_less_trans less_imp_le mult_le_mono1)
    then show ?thesis
      using trades_list_page [OF assms(1,4), of "i * ?n" A s] that by (simp add: pages_def del: of_nat_mult)
  qed
  have "length (pages ! i) \<le> 200" if "i < k" for i using that assms(4) by (simp add: pages_def)
  then show ?thesis
    using page whole all by (intro exI [of _ pages]) (simp add: pages_def)
qed

definition traded_ref :: api_state where
  "traded_ref = api_start\<lparr>as_db := migrated_database\<lparr>trades := map (\<lambda>k. row_of_trade alloy_ref k (F64_Zero False) demo_trade) [1, 2, 3]\<rparr>\<rparr>"

theorem trades_pages_complete_witness:
  "\<exists>pages. length pages = 2 \<and> concat pages = order_by_timestamp_desc sqlite_ref (trades (as_db traded_ref)) \<and>
    mset (concat pages) = mset (trades (as_db traded_ref)) \<and>
    (\<forall>i < 2. length (pages ! i) \<le> 200 \<and>
       (\<exists>s'. trades_list api_ref sqlite_ref (Some 2) (Some (word_of_nat (i * unat (2 :: u32)))) traded_ref =
          (Inr (JObject [(''trades'', JArray (map (\<lambda>r. JObject (trade_fields r)) (pages ! i))),
                         (''total'', json_i64 (int (length (trades (as_db traded_ref)))))]), s')))"
  by (rule trades_pages_complete) (simp_all add: traded_ref_def)

end
