(* ===== verification/Api_Ws.thy ===== *)
theory Api_Ws
  imports Api_Views "HOL-Library.Sublist"
begin

text \<open>
  The WebSocket of \<^verbatim>\<open>zelvex-api/src/lib.rs\<close>: the handshake of \<open>handle_ws\<close>, its loop over messages and
  ticks, and \<open>push_ws_updates\<close>. The connection's state is the database, the cursor \<open>last_trade_id\<close> and
  what was sent. Between any two statements of the connection other tasks may have run theirs: the
  environment says what they did. It also says which sends fail, and what the JSON parser reads.
\<close>

section \<open>Messages and environment\<close>

datatype ws_message = MText string | MClose | MOther

datatype ws_received = RecvTimeout | RecvNone | RecvErr | RecvOk ws_message

datatype ws_out = OutText string | OutJson json

record ws_auth_message =
  wm_type :: string
  wm_token :: string

record ws_client_command =
  wc_type :: string

record ws_env =
  we_send :: "nat \<Rightarrow> string option"
  we_others :: "nat \<Rightarrow> database \<Rightarrow> database"
  we_parse_auth :: "string \<Rightarrow> ws_auth_message option"
  we_parse_command :: "string \<Rightarrow> ws_client_command option"

record ws_state =
  ws_db :: database
  ws_last :: i64
  ws_sent :: "ws_out list"
  ws_sends :: nat
  ws_stmts :: nat

type_synonym ('e, 'a) ws_io = "(ws_state, 'e, 'a) io"

text \<open>A statement of the connection, after whatever the other tasks did since its last one.\<close>

definition ws_stmt :: "ws_env \<Rightarrow> 'a db_io \<Rightarrow> (sqlx_error, 'a) ws_io" where
  "ws_stmt N f s =
     (case f (we_others N (ws_stmts s) (ws_db s)) of
        (r, d) \<Rightarrow> (r, s\<lparr>ws_db := d, ws_stmts := Suc (ws_stmts s)\<rparr>))"

definition ws_query :: "api_lib \<Rightarrow> ws_env \<Rightarrow> 'a db_io \<Rightarrow> (api_error, 'a) ws_io" where
  "ws_query A N f = mapErr (\<lambda>e. Internal (api_sqlx_text A e)) (ws_stmt N f)"

definition socket_send :: "ws_env \<Rightarrow> ws_out \<Rightarrow> (string, unit) ws_io" where
  "socket_send N m s =
     (case we_send N (ws_sends s) of
        Some e \<Rightarrow> (Inl e, s\<lparr>ws_sends := Suc (ws_sends s)\<rparr>)
      | None \<Rightarrow> (Inr (), s\<lparr>ws_sends := Suc (ws_sends s), ws_sent := ws_sent s @ [m]\<rparr>))"

definition ws_send :: "ws_env \<Rightarrow> json \<Rightarrow> (api_error, unit) ws_io" where
  "ws_send N value = mapErr Internal (socket_send N (OutJson value))"

text \<open>\<open>let _ = \<dots>\<close>: the answer is dropped.\<close>

definition ignoring :: "('s, 'e, 'a) io \<Rightarrow> 's \<Rightarrow> 's" where
  "ignoring m s = snd (m s)"

section \<open>Pushing updates\<close>

definition select_new_trades :: "sqlite \<Rightarrow> i64 \<Rightarrow> trade_row list db_io" where
  "select_new_trades E last_id = stmt E (\<lambda>d.
     (Inr (take 50 (sort_key t_id (filter (\<lambda>r. last_id < t_id r) (trades d)))), d))"

definition trade_msg :: "trade_row \<Rightarrow> json" where
  "trade_msg r = JObject [(''type'', JString ''new_trade''), (''trade'', JObject (trade_fields r))]"

fun push_trades :: "ws_env \<Rightarrow> trade_row list \<Rightarrow> (api_error, unit) ws_io" where
  "push_trades N [] s = okE () s"
| "push_trades N (r # rows) s =
     bindE (ws_send N (trade_msg r)) (\<lambda>_. push_trades N rows) (s\<lparr>ws_last := t_id r\<rparr>)"

definition push_status :: "api_lib \<Rightarrow> sqlite \<Rightarrow> ws_env \<Rightarrow> int \<Rightarrow> (api_error, unit) ws_io" where
  "push_status A E N utc =
     bindE (ws_query A N (get_bot_state E ''running'')) (\<lambda>running.
     bindE (ws_query A N (get_bot_state E ''last_block'')) (\<lambda>block.
     bindE (ws_send N (JObject [(''type'', JString ''block_update''), (''block'', JNumber (PosInt (u64_or_zero block))),
              (''timestamp'', json_i64 utc)])) (\<lambda>_.
     ws_send N (JObject [(''type'', JString ''bot_status''), (''status'', JString (status_text running)),
       (''error'', JNull)]))))"

definition push_gas :: "api_lib \<Rightarrow> sqlite \<Rightarrow> ws_env \<Rightarrow> (api_error, unit) ws_io" where
  "push_gas A E N =
     bindE (ws_query A N (latest_gas E)) (\<lambda>gas.
     bindE (ws_query A N (get_bot_state E ''min_profit_usd'')) (\<lambda>gate.
       let (base, priority) = (case gas of None \<Rightarrow> (None, None) | Some g \<Rightarrow> g)
       in ws_send N (JObject [(''type'', JString ''gas_update''), (''base_fee_gwei'', json_f64 (or_zero base)),
            (''priority_fee_gwei'', json_f64 (or_zero priority)), (''gate_usd'', json_f64 (f64_or_zero gate))])))"

definition push_counts :: "api_lib \<Rightarrow> sqlite \<Rightarrow> ws_env \<Rightarrow> (api_error, unit) ws_io" where
  "push_counts A E N =
     bindE (ws_query A N (count_rows E opportunities (\<lambda>r. True))) (\<lambda>scanned.
     bindE (ws_query A N (get_trade_count E)) (\<lambda>executed.
     bindE (ws_query A N (count_rows E trades is_profitable)) (\<lambda>profitable.
       ws_send N (JObject [(''type'', JString ''opportunity_scan''), (''scanned'', json_i64 scanned),
         (''executed'', json_i64 executed), (''profitable'', json_i64 profitable)]))))"

definition push_new_trades :: "api_lib \<Rightarrow> sqlite \<Rightarrow> ws_env \<Rightarrow> (api_error, unit) ws_io" where
  "push_new_trades A E N s = bindE (ws_query A N (select_new_trades E (ws_last s))) (push_trades N) s"

definition push_ws_updates :: "api_lib \<Rightarrow> sqlite \<Rightarrow> ws_env \<Rightarrow> int \<Rightarrow> (api_error, unit) ws_io" where
  "push_ws_updates A E N utc =
     bindE (push_status A E N utc) (\<lambda>_.
     bindE (push_gas A E N) (\<lambda>_.
     bindE (push_counts A E N) (\<lambda>_.
       push_new_trades A E N)))"

section \<open>The connection\<close>

text \<open>
  What \<open>select!\<close> wakes up for: a message, a receive that gave no message (that branch is then off
  until the next tick), a tick at a time. How the loop is left, or that it still runs.
\<close>

datatype ws_event = EvMessage ws_message | EvNoMessage | EvTick int

datatype ws_end = WsClosed | WsFailed | WsRunning

definition run_command :: "sqlite \<Rightarrow> ws_env \<Rightarrow> ws_client_command \<Rightarrow> ws_state \<Rightarrow> ws_state" where
  "run_command E N cmd s =
     (if wc_type cmd = ''start_bot'' then ignoring (ws_stmt N (set_bot_state E ''running'' ''true'')) s
      else if wc_type cmd = ''stop_bot'' then ignoring (ws_stmt N (set_bot_state E ''running'' ''false'')) s
      else s)"

fun ws_loop :: "api_lib \<Rightarrow> sqlite \<Rightarrow> ws_env \<Rightarrow> ws_event list \<Rightarrow> ws_state \<Rightarrow> ws_end \<times> ws_state" where
  "ws_loop A E N [] s = (WsRunning, s)"
| "ws_loop A E N (EvMessage (MText t) # evs) s =
     (case we_parse_command N t of
        None \<Rightarrow> ws_loop A E N evs s
      | Some cmd \<Rightarrow> ws_loop A E N evs (run_command E N cmd s))"
| "ws_loop A E N (EvMessage MClose # evs) s = (WsClosed, s)"
| "ws_loop A E N (EvMessage MOther # evs) s = ws_loop A E N evs s"
| "ws_loop A E N (EvNoMessage # evs) s = ws_loop A E N evs s"
| "ws_loop A E N (EvTick utc # evs) s =
     (case push_ws_updates A E N utc s of
        (Inl e, s') \<Rightarrow> (WsFailed, s')
      | (Inr _, s') \<Rightarrow> ws_loop A E N evs s')"

definition auth_fail :: ws_out where
  "auth_fail = OutText ''{\"type\":\"auth_fail\",\"reason\":\"invalid\"}''"

definition auth_ok :: ws_out where
  "auth_ok = OutText ''{\"type\":\"auth_ok\"}''"

definition max_trade_id :: "sqlite \<Rightarrow> i64 option db_io" where
  "max_trade_id E = stmt E (\<lambda>d.
     (Inr (if trades d = [] then None else Some (Max (t_id ` set (trades d)))), d))"

definition first_cursor :: "sqlite \<Rightarrow> ws_env \<Rightarrow> ws_state \<Rightarrow> ws_state" where
  "first_cursor E N s =
     (case ws_stmt N (max_trade_id E) s of
        (Inr (Some i), s') \<Rightarrow> s'\<lparr>ws_last := i\<rparr>
      | (_, s') \<Rightarrow> s'\<lparr>ws_last := 0\<rparr>)"

definition handle_ws ::
  "api_lib \<Rightarrow> sqlite \<Rightarrow> ws_env \<Rightarrow> app_config \<Rightarrow> int \<Rightarrow> ws_received \<Rightarrow> ws_event list \<Rightarrow> ws_state \<Rightarrow> ws_end \<times> ws_state" where
  "handle_ws A E N c utc auth evs s =
     (let refuse = (WsClosed, ignoring (socket_send N auth_fail) s)
      in case auth of
           RecvOk (MText text) \<Rightarrow>
             (case we_parse_auth N text of
                None \<Rightarrow> refuse
              | Some msg \<Rightarrow>
                  if wm_type msg \<noteq> ''auth'' then refuse
                  else (case decode_jwt A c utc (wm_token msg) of
                          Inl e \<Rightarrow> refuse
                        | Inr cl \<Rightarrow> ws_loop A E N evs (first_cursor E N (ignoring (socket_send N auth_ok) s))))
         | _ \<Rightarrow> (WsClosed, s))"

section \<open>What the other tasks may do\<close>

text \<open>They use the database through the same operations.\<close>

definition others_ok :: "alloy \<Rightarrow> sqlite \<Rightarrow> ws_env \<Rightarrow> bool" where
  "others_ok L E N \<longleftrightarrow> (\<forall>n d. (db_step L E)\<^sup>*\<^sup>* d (we_others N n d))"

text \<open>Rows are only added, with ids above every id given before.\<close>

definition grows :: "database \<Rightarrow> database \<Rightarrow> bool" where
  "grows d d' \<longleftrightarrow> (\<exists>new. trades d' = trades d @ new \<and> (\<forall>r \<in> set new. trades_seq d < t_id r)) \<and>
     trades_seq d \<le> trades_seq d'"

lemma grows_refl [simp]: "grows d d"
  by (simp add: grows_def)

lemma grows_trans: "grows d d' \<Longrightarrow> grows d' d'' \<Longrightarrow> grows d d''"
  by (fastforce simp: grows_def)

lemma grows_same: "trades d' = trades d \<Longrightarrow> trades_seq d' = trades_seq d \<Longrightarrow> grows d d'"
  by (simp add: grows_def)

lemma db_step_grows: "db_step L E d d' \<Longrightarrow> grows d d'"
proof (induction rule: db_step.induct)
  case (step_user name hash d r d')
  then show ?case by (cases rule: insert_user_cases) (simp_all add: grows_same add_user_def)
next
  case (step_trade t d r d')
  then show ?case
    by (cases rule: insert_trade_cases) (simp_all add: grows_same grows_def add_trade_def row_of_trade_def)
next
  case (step_opportunity opp dec why tid d r d')
  then show ?case by (cases rule: insert_opportunity_cases) (simp_all add: grows_same add_opportunity_def)
next
  case (step_gas block base priority d r d')
  then show ?case by (cases rule: insert_gas_sample_cases) (simp_all add: grows_same replace_gas_def)
next
  case (step_set k v d r d')
  then show ?case by (cases rule: set_bot_state_cases) (simp_all add: grows_same put_state_def)
qed (simp add: grows_same)

lemma db_steps_grow: "(db_step L E)\<^sup>*\<^sup>* d d' \<Longrightarrow> grows d d'"
  by (induction rule: rtranclp_induct) (auto intro: grows_trans db_step_grows)

lemma db_steps_inv: "(db_step L E)\<^sup>*\<^sup>* d d' \<Longrightarrow> db_inv d \<Longrightarrow> db_inv d'"
  by (induction rule: rtranclp_induct) (auto intro: db_step_inv)

text \<open>A statement of the connection is a step like any other.\<close>

definition is_step :: "alloy \<Rightarrow> sqlite \<Rightarrow> 'a db_io \<Rightarrow> bool" where
  "is_step L E f \<longleftrightarrow> (\<forall>d. (db_step L E)\<^sup>*\<^sup>* d (snd (f d)))"

lemma is_step_read: "is_step L E (stmt E (\<lambda>d. (g d, d)))"
  by (auto simp: is_step_def stmt_def split: option.splits intro: db_step.step_read)

lemma is_step_queries:
  "is_step L E (get_bot_state E key)" "is_step L E (latest_gas E)" "is_step L E (count_rows E tab P)"
  "is_step L E (get_trade_count E)" "is_step L E (select_new_trades E i)" "is_step L E (max_trade_id E)"
  unfolding get_bot_state_def latest_gas_def count_rows_def get_trade_count_def select_new_trades_def max_trade_id_def
  by (rule is_step_read)+

lemma is_step_set: "is_step L E (set_bot_state E key value)"
  unfolding is_step_def by (metis db_step.step_set prod.collapse r_into_rtranclp)

lemma ws_stmt_steps:
  assumes "others_ok L E N" "is_step L E f" "ws_stmt N f s = (r, t)"
  shows "(db_step L E)\<^sup>*\<^sup>* (ws_db s) (ws_db t)"
proof -
  have "(db_step L E)\<^sup>*\<^sup>* (ws_db s) (we_others N (ws_stmts s) (ws_db s))"
    using assms(1) by (simp add: others_ok_def)
  also have "(db_step L E)\<^sup>*\<^sup>* \<dots> (snd (f (we_others N (ws_stmts s) (ws_db s))))"
    using assms(2) by (simp add: is_step_def)
  finally show ?thesis using assms(3) by (auto simp: ws_stmt_def split: prod.splits)
qed

section \<open>The trades that were sent\<close>

fun is_trade_msg :: "ws_out \<Rightarrow> bool" where
  "is_trade_msg (OutJson (JObject ((k, JString v) # fs))) = (k = ''type'' \<and> v = ''new_trade'')"
| "is_trade_msg _ = False"

definition sent_trades :: "ws_state \<Rightarrow> ws_out list" where
  "sent_trades s = filter is_trade_msg (ws_sent s)"

definition trade_outs :: "trade_row list \<Rightarrow> ws_out list" where
  "trade_outs rs = map (\<lambda>r. OutJson (trade_msg r)) rs"

lemma trade_outs_simps [simp]:
  "trade_outs [] = []" "trade_outs (r # rs) = OutJson (trade_msg r) # trade_outs rs"
  "trade_outs (rs @ qs) = trade_outs rs @ trade_outs qs"
  by (simp_all add: trade_outs_def)

definition trades_after :: "i64 \<Rightarrow> database \<Rightarrow> trade_row list" where
  "trades_after i d = filter (\<lambda>r. i < t_id r) (trades d)"

text \<open>
  From the cursor \<open>c0\<close> on: everything up to the present cursor was sent, in the order of the table.
\<close>

definition delivered :: "i64 \<Rightarrow> ws_out list \<Rightarrow> ws_state \<Rightarrow> bool" where
  "delivered c0 before s \<longleftrightarrow> db_inv (ws_db s) \<and> c0 \<le> ws_last s \<and> ws_last s \<le> trades_seq (ws_db s) \<and>
     sent_trades s = before @
       trade_outs (filter (\<lambda>r. t_id r \<le> ws_last s) (trades_after c0 (ws_db s)))"

lemma delivered_grows:
  assumes "delivered c0 before s" "grows (ws_db s) (ws_db t)" "db_inv (ws_db t)"
    "ws_last t = ws_last s" "sent_trades t = sent_trades s"
  shows "delivered c0 before t"
proof -
  obtain new where new: "trades (ws_db t) = trades (ws_db s) @ new" "\<forall>r \<in> set new. trades_seq (ws_db s) < t_id r"
    "trades_seq (ws_db s) \<le> trades_seq (ws_db t)"
    using assms(2) by (auto simp: grows_def)
  have "filter (\<lambda>r. t_id r \<le> ws_last s) (trades_after c0 (ws_db t)) =
      filter (\<lambda>r. t_id r \<le> ws_last s) (trades_after c0 (ws_db s))"
    using new(2) assms(1) by (auto simp: trades_after_def new(1) delivered_def filter_empty_conv)
  then show ?thesis using assms new(3) by (simp add: delivered_def)
qed

lemma delivered_stmt:
  assumes "others_ok L E N" "is_step L E f"
  shows "preserves (delivered c0 before) (ws_stmt N f)"
  unfolding preserves_def
proof (intro allI impI)
  fix s assume d: "delivered c0 before s"
  obtain r t where r: "ws_stmt N f s = (r, t)" by fastforce
  have steps: "(db_step L E)\<^sup>*\<^sup>* (ws_db s) (ws_db t)" by (rule ws_stmt_steps [OF assms r])
  moreover have "db_inv (ws_db t)" using db_steps_inv [OF steps] d by (simp add: delivered_def)
  moreover have "ws_last t = ws_last s" "sent_trades t = sent_trades s"
    using r by (auto simp: ws_stmt_def sent_trades_def split: prod.splits)
  ultimately show "delivered c0 before (snd (ws_stmt N f s))"
    using delivered_grows [OF d] db_steps_grow r by simp
qed

lemma delivered_send:
  assumes "\<not> is_trade_msg m"
  shows "preserves (delivered c0 before) (socket_send N m)"
  using assms by (auto simp: preserves_def socket_send_def delivered_def sent_trades_def split: option.splits)

lemma delivered_updates:
  assumes "others_ok L E N"
  shows "preserves (delivered c0 before) (push_status A E N utc)"
    "preserves (delivered c0 before) (push_gas A E N)" "preserves (delivered c0 before) (push_counts A E N)"
  unfolding push_status_def push_gas_def push_counts_def ws_query_def ws_send_def
  by (intro preserves_intros delivered_stmt [OF assms] is_step_queries delivered_send; simp)+

lemma sorted_split:
  assumes "sorted_wrt (<) (map f xs)"
  shows "xs = filter (\<lambda>r. f r \<le> (b :: int)) xs @ filter (\<lambda>r. b < f r) xs"
  using assms
proof (induction xs)
  case (Cons x xs)
  show ?case
  proof (cases "f x \<le> b")
    case True
    then show ?thesis using Cons by simp
  next
    case False
    then have "filter (\<lambda>r. f r \<le> b) xs = []" using Cons.prems by (auto simp: filter_empty_conv)
    then show ?thesis using False Cons by simp
  qed
qed simp

lemma filter_upto_last:
  assumes "sorted_wrt (<) (map f xs)" "take k xs \<noteq> []"
  shows "filter (\<lambda>r. f r \<le> (f (last (take k xs)) :: int)) xs = take k xs"
proof -
  obtain ys z where z: "take k xs = ys @ [z]" using assms(2) by (metis rev_exhaust)
  then have xs: "xs = ys @ [z] @ drop k xs" by (metis append_assoc append_take_drop_id)
  then have sorted: "sorted_wrt (<) (map f (ys @ [z] @ drop k xs))" using assms(1) by metis
  then have "filter (\<lambda>r. f r \<le> f z) ys = ys" "filter (\<lambda>r. f r \<le> f z) (drop k xs) = []"
    by (auto simp: sorted_wrt_append filter_id_conv filter_empty_conv intro: less_imp_le)
  then have "filter (\<lambda>r. f r \<le> f z) (ys @ [z] @ drop k xs) = ys @ [z]" by simp
  then show ?thesis using z xs by (metis last_snoc)
qed

lemma push_trades_run:
  assumes "push_trades N rows s = (r, t)"
  shows "ws_db t = ws_db s \<and> (\<exists>k. sent_trades t = sent_trades s @ trade_outs (take k rows) \<and>
    (r = Inr () \<longrightarrow> k = length rows \<and> ws_last t = (if rows = [] then ws_last s else t_id (last rows))))"
  using assms
proof (induction rows arbitrary: s)
  case Nil
  then show ?case by (auto simp: okE_def)
next
  case (Cons x rows)
  show ?case
  proof (cases "we_send N (ws_sends s)")
    case None
    let ?s = "s\<lparr>ws_last := t_id x, ws_sends := Suc (ws_sends s), ws_sent := ws_sent s @ [OutJson (trade_msg x)]\<rparr>"
    have "push_trades N rows ?s = (r, t)"
      using Cons.prems None by (simp add: bindE_def ws_send_def mapErr_def socket_send_def)
    from Cons.IH [OF this] obtain k where
      "ws_db t = ws_db s" "sent_trades t = sent_trades ?s @ trade_outs (take k rows)"
      "r = Inr () \<longrightarrow> k = length rows \<and> ws_last t = (if rows = [] then ws_last ?s else t_id (last rows))" by auto
    then show ?thesis by (intro conjI exI [of _ "Suc k"]) (auto simp: sent_trades_def trade_msg_def)
  next
    case (Some e)
    then have "r = Inl (Internal e)" "ws_db t = ws_db s" "sent_trades t = sent_trades s"
      using Cons.prems by (auto simp: bindE_def ws_send_def mapErr_def socket_send_def sent_trades_def)
    then show ?thesis by (intro conjI exI [of _ 0]) auto
  qed
qed

lemma trades_after_sorted: "db_inv d \<Longrightarrow> sorted_wrt (<) (map t_id (trades_after i d))"
  by (simp add: db_inv_def trades_ok_def trades_table.ids_ok_def trades_after_def sorted_wrt_map sorted_wrt_filter)

lemma trades_after_split:
  assumes "db_inv d" "c0 \<le> b"
  shows "trades_after c0 d = filter (\<lambda>r. t_id r \<le> b) (trades_after c0 d) @ trades_after b d"
proof -
  have "filter (\<lambda>r. b < t_id r) (trades_after c0 d) = trades_after b d"
    unfolding trades_after_def filter_filter by (rule filter_cong) (use assms(2) in auto)
  then show ?thesis using sorted_split [OF trades_after_sorted [OF assms(1)], of c0 b] by simp
qed

text \<open>The rows the query gives continue what was delivered; sending all of them moves the cursor past them.\<close>

lemma delivered_rows_prefix:
  assumes "delivered c0 before s" "ws_db t = ws_db s"
    "sent_trades t = sent_trades s @ trade_outs (take k (trades_after (ws_last s) (ws_db s)))"
  shows "\<exists>n. sent_trades t = before @ trade_outs (take n (trades_after c0 (ws_db t)))"
proof -
  let ?old = "filter (\<lambda>r. t_id r \<le> ws_last s) (trades_after c0 (ws_db s))"
  let ?new = "trades_after (ws_last s) (ws_db s)"
  have "take (length ?old + k) (trades_after c0 (ws_db s)) = take (length ?old + k) (?old @ ?new)"
    using trades_after_split [of "ws_db s" c0 "ws_last s"] assms(1) by (simp add: delivered_def)
  then have "sent_trades t = before @ trade_outs (take (length ?old + k) (trades_after c0 (ws_db t)))"
    using assms by (simp add: delivered_def)
  then show ?thesis by blast
qed

lemma delivered_rows_all:
  assumes "delivered c0 before s" "ws_db t = ws_db s" "rows = take k (trades_after (ws_last s) (ws_db s))"
    "sent_trades t = sent_trades s @ trade_outs rows"
    "ws_last t = (if rows = [] then ws_last s else t_id (last rows))"
  shows "delivered c0 before t"
proof (cases "rows = []")
  case True
  then show ?thesis using assms(1,2,4,5) by (simp add: delivered_def)
next
  case False
  let ?old = "filter (\<lambda>r. t_id r \<le> ws_last s) (trades_after c0 (ws_db s))"
  let ?new = "trades_after (ws_last s) (ws_db s)" and ?b = "t_id (last rows)"
  have d: "db_inv (ws_db s)" "c0 \<le> ws_last s" using assms(1) by (simp_all add: delivered_def)
  have "last rows \<in> set ?new" using last_in_set [OF False] assms(3) by (metis in_set_takeD)
  then have b: "ws_last s < ?b" "?b \<le> trades_seq (ws_db s)"
    using d(1) by (auto simp: trades_after_def db_inv_def trades_ok_def trades_table.ids_ok_def)
  have "filter (\<lambda>r. t_id r \<le> ?b) ?new = rows"
    using filter_upto_last [OF trades_after_sorted [OF d(1)], of k "ws_last s"] False assms(3) by simp
  moreover have "filter (\<lambda>r. t_id r \<le> ?b) ?old = ?old"
    unfolding filter_filter by (rule filter_cong) (use b(1) in auto)
  ultimately have "filter (\<lambda>r. t_id r \<le> ?b) (trades_after c0 (ws_db s)) = ?old @ rows"
    by (subst trades_after_split [OF d]) (simp only: filter_append)
  then show ?thesis using assms d b False by (simp add: delivered_def)
qed

text \<open>What a push leaves: a gapless prefix was sent, and on success the next fifty with the cursor behind them.\<close>

definition pushed :: "i64 \<Rightarrow> ws_out list \<Rightarrow> ws_state \<Rightarrow> api_error + unit \<Rightarrow> ws_state \<Rightarrow> bool" where
  "pushed c0 before s r t \<longleftrightarrow>
     (\<exists>n. sent_trades t = before @ trade_outs (take n (trades_after c0 (ws_db t)))) \<and>
     (r = Inr () \<longrightarrow> delivered c0 before t \<and>
        sent_trades t = sent_trades s @ trade_outs (take 50 (trades_after (ws_last s) (ws_db t))))"

lemma push_rows_run:
  assumes "delivered c0 before u" "rows = take 50 (trades_after (ws_last u) (ws_db u))"
    "push_trades N rows u = (r, t)"
  shows "pushed c0 before u r t"
proof -
  obtain k where t: "ws_db t = ws_db u" "sent_trades t = sent_trades u @ trade_outs (take k rows)"
    "r = Inr () \<longrightarrow> k = length rows \<and> ws_last t = (if rows = [] then ws_last u else t_id (last rows))"
    using push_trades_run [OF assms(3)] by blast
  have "take k rows = take (min k 50) (trades_after (ws_last u) (ws_db u))" by (simp add: assms(2))
  then have "\<exists>n. sent_trades t = before @ trade_outs (take n (trades_after c0 (ws_db t)))"
    using delivered_rows_prefix [OF assms(1) t(1), of "min k 50"] t(2) by simp
  moreover have "sent_trades t = sent_trades u @ trade_outs rows \<and>
      ws_last t = (if rows = [] then ws_last u else t_id (last rows))" if "r = Inr ()"
    using t that by (metis order_refl take_all)
  ultimately show ?thesis
    using delivered_rows_all [OF assms(1) t(1) assms(2)] t(1) assms(2) by (simp add: pushed_def)
qed

lemma push_new_trades_run:
  assumes "others_ok L E N" "delivered c0 before s" "push_new_trades A E N s = (r, t)"
  shows "pushed c0 before s r t"
proof -
  obtain q u where q: "ws_stmt N (select_new_trades E (ws_last s)) s = (q, u)" by fastforce
  have u: "delivered c0 before u"
    by (rule preservesD [OF delivered_stmt [OF assms(1) is_step_queries(5)] q assms(2)])
  have same: "ws_last u = ws_last s" "sent_trades u = sent_trades s"
    using q by (auto simp: ws_stmt_def sent_trades_def split: prod.splits)
  show ?thesis
  proof (cases q)
    case (Inl e)
    then have "t = u" "r = Inl (Internal (api_sqlx_text A e))"
      using assms(3) q by (auto simp: push_new_trades_def ws_query_def bindE_def mapErr_def)
    then show ?thesis using delivered_rows_prefix [OF u, of u 0] by (simp add: pushed_def)
  next
    case (Inr rows)
    have rows: "rows = take 50 (trades_after (ws_last u) (ws_db u))"
      using q Inr u trades_after_sorted [of "ws_db u" "ws_last u"]
      by (auto simp: ws_stmt_def select_new_trades_def stmt_def trades_after_def delivered_def same(1)
          sort_key_id_if_sorted strict_sorted_iff split: prod.splits option.splits)
    have "push_trades N rows u = (r, t)"
      using assms(3) q Inr by (simp add: push_new_trades_def ws_query_def bindE_def mapErr_def)
    from push_rows_run [OF u rows this] show ?thesis by (simp add: pushed_def same)
  qed
qed

lemma cursor_stmt: "keeps (\<lambda>s. (ws_last s, sent_trades s)) (ws_stmt N f)"
  by (simp add: keeps_def ws_stmt_def sent_trades_def split: prod.splits)

lemma cursor_send: "\<not> is_trade_msg m \<Longrightarrow> keeps (\<lambda>s. (ws_last s, sent_trades s)) (socket_send N m)"
  by (simp add: keeps_def socket_send_def sent_trades_def split: option.splits)

lemma cursor_updates:
  "keeps (\<lambda>s. (ws_last s, sent_trades s)) (push_status A E N utc)"
  "keeps (\<lambda>s. (ws_last s, sent_trades s)) (push_gas A E N)"
  "keeps (\<lambda>s. (ws_last s, sent_trades s)) (push_counts A E N)"
  unfolding push_status_def push_gas_def push_counts_def ws_query_def ws_send_def
  by (intro keeps_intros cursor_stmt cursor_send; simp)+

lemma bindE_assoc: "bindE (bindE m f) g = bindE m (\<lambda>x. bindE (f x) g)"
  by (auto simp: fun_eq_iff bindE_def split: prod.splits sum.splits)

lemma push_ws_updates_run:
  assumes "others_ok L E N" "delivered c0 before s" "push_ws_updates A E N utc s = (r, t)"
  shows "pushed c0 before s r t"
proof -
  let ?head = "bindE (push_status A E N utc) (\<lambda>_. bindE (push_gas A E N) (\<lambda>_. push_counts A E N))"
  obtain q u where q: "?head s = (q, u)" by fastforce
  have "preserves (delivered c0 before) ?head" by (intro preserves_bindE delivered_updates [OF assms(1)])
  from preservesD [OF this q assms(2)] have u: "delivered c0 before u" .
  have "keeps (\<lambda>s. (ws_last s, sent_trades s)) ?head" by (intro keeps_bindE cursor_updates)
  from keepsD [OF this q] have same: "ws_last u = ws_last s" "sent_trades u = sent_trades s" by simp_all
  have run: "bindE ?head (\<lambda>_. push_new_trades A E N) s = (r, t)"
    using assms(3) by (simp add: push_ws_updates_def bindE_assoc)
  show ?thesis
  proof (cases q)
    case (Inl e)
    then have "t = u" "r = Inl e" using run q by (auto simp: bindE_def)
    then show ?thesis using delivered_rows_prefix [OF u, of u 0] by (simp add: pushed_def)
  next
    case (Inr x)
    then have "push_new_trades A E N u = (r, t)" using run q by (simp add: bindE_def)
    from push_new_trades_run [OF assms(1) u this] show ?thesis by (simp add: pushed_def same)
  qed
qed

lemma delivered_command:
  assumes "others_ok L E N" "delivered c0 before s"
  shows "delivered c0 before (run_command E N cmd s)"
  using delivered_stmt [OF assms(1) is_step_set] assms(2)
  by (simp add: run_command_def ignoring_def preserves_def)

lemma delivered_prefix:
  "delivered c0 before s \<Longrightarrow> \<exists>n. sent_trades s = before @ trade_outs (take n (trades_after c0 (ws_db s)))"
  using delivered_rows_prefix [of c0 before s s 0] by simp

lemma ws_loop_delivers:
  assumes "others_ok L E N" "delivered c0 before s" "ws_loop A E N evs s = (e, t)"
  shows "(\<exists>n. sent_trades t = before @ trade_outs (take n (trades_after c0 (ws_db t)))) \<and>
    (e \<noteq> WsFailed \<longrightarrow> delivered c0 before t)"
  using assms
proof (induction A E N evs s rule: ws_loop.induct)
  case (2 A E N m evs s)
  then show ?case by (cases "we_parse_command N m") (auto intro: delivered_command)
next
  case (6 A E N utc evs s)
  obtain r u where r: "push_ws_updates A E N utc s = (r, u)" by fastforce
  have u: "pushed c0 before s r u" by (rule push_ws_updates_run [OF 6(2,3) r])
  show ?case
  proof (cases r)
    case (Inl x)
    then show ?thesis using u r 6(4) by (auto simp: pushed_def)
  next
    case (Inr x)
    then show ?thesis using u r 6(1) [OF r [symmetric] Inr] 6(2,4) by (auto simp: pushed_def)
  qed
qed (auto simp: delivered_prefix)

section \<open>What a connection writes\<close>

text \<open>Without the other tasks, only the running flag.\<close>

definition not_running :: "database \<Rightarrow> user list \<times> trade_row list \<times> opportunity_row list \<times> gas_row list \<times> (string \<rightharpoonup> string)" where
  "not_running d = (users d, trades d, opportunities d, gas_history d, (bot_state d)(''running'' := None))"

lemma not_running_tick [simp]: "not_running (tick d) = not_running d"
  by (simp add: not_running_def)

lemma not_running_set: "keeps not_running (set_bot_state E ''running'' v)"
proof -
  have "not_running (snd (set_bot_state E ''running'' v d)) = not_running d" for d
    using prod.collapse [of "set_bot_state E ''running'' v d", symmetric]
    by (cases rule: set_bot_state_cases) (simp_all add: not_running_def put_state_def)
  then show ?thesis by (simp add: keeps_def)
qed

lemma not_running_queries:
  "keeps not_running (get_bot_state E key)" "keeps not_running (latest_gas E)" "keeps not_running (count_rows E tab P)"
  "keeps not_running (get_trade_count E)" "keeps not_running (select_new_trades E i)" "keeps not_running (max_trade_id E)"
  unfolding get_bot_state_def latest_gas_def count_rows_def get_trade_count_def select_new_trades_def max_trade_id_def
  by (intro keeps_intros; simp)+

lemma keeps_ws_stmt:
  assumes "\<And>n d. we_others N n d = d" "keeps f m"
  shows "keeps (\<lambda>s. f (ws_db s)) (ws_stmt N m)"
  using assms by (auto simp: keeps_def ws_stmt_def split: prod.splits) (metis snd_conv)

lemma keeps_socket_send: "keeps (\<lambda>s. f (ws_db s)) (socket_send N m)"
  by (simp add: keeps_def socket_send_def split: option.splits)

lemma keeps_push_trades: "keeps (\<lambda>s. f (ws_db s)) (push_trades N rows)"
  using push_trades_run [of N rows] unfolding keeps_def by (metis prod.collapse)

lemma keeps_push_ws_updates:
  assumes "\<And>n d. we_others N n d = d"
  shows "keeps (\<lambda>s. not_running (ws_db s)) (push_ws_updates A E N utc)"
proof -
  note intro = keeps_intros keeps_ws_stmt [OF assms] not_running_queries keeps_socket_send keeps_push_trades
  have "keeps (\<lambda>s. not_running (ws_db s)) (bindE (ws_query A N (select_new_trades E i)) (push_trades N))" for i
    unfolding ws_query_def by (intro intro)
  then have "keeps (\<lambda>s. not_running (ws_db s)) (push_new_trades A E N)"
    by (simp add: keeps_def push_new_trades_def)
  then show ?thesis
    unfolding push_ws_updates_def push_status_def push_gas_def push_counts_def ws_query_def ws_send_def
    by (intro intro)
qed

lemma ws_loop_writes:
  assumes "\<And>n d. we_others N n d = d"
  shows "not_running (ws_db (snd (ws_loop A E N evs s))) = not_running (ws_db s)"
  using assms
proof (induction A E N evs s rule: ws_loop.induct)
  case (2 A E N m evs s)
  have "not_running (ws_db (run_command E N cmd s)) = not_running (ws_db s)" for cmd
    using keeps_ws_stmt [OF 2(3) not_running_set] by (simp add: run_command_def ignoring_def keeps_def)
  then show ?case using 2 by (simp split: option.splits)
next
  case (6 A E N utc evs s)
  obtain r u where r: "push_ws_updates A E N utc s = (r, u)" by fastforce
  have "not_running (ws_db u) = not_running (ws_db s)"
    using keepsD [OF keeps_push_ws_updates [OF 6(2)] r] by simp
  then show ?case using 6(1) [OF r [symmetric]] 6(2) r by (cases r) simp_all
qed simp_all

section \<open>Progress\<close>

text \<open>The database answers every statement, and every send succeeds.\<close>

definition smooth :: "sqlite \<Rightarrow> ws_env \<Rightarrow> bool" where
  "smooth E N \<longleftrightarrow> (\<forall>n. stmt_fault E n = None) \<and> (\<forall>n. we_send N n = None)"

definition succeeds :: "('s, 'e, unit) io \<Rightarrow> bool" where
  "succeeds m \<longleftrightarrow> (\<forall>s. fst (m s) = Inr ())"

lemma succeeds_bindE:
  assumes "succeeds m" "\<And>a. succeeds (g a)"
  shows "succeeds (bindE m g)"
  using assms by (auto simp: succeeds_def bindE_def split: prod.splits sum.splits) (metis fst_conv sum.distinct(1))

lemma smooth_query:
  assumes "smooth E N" "\<And>a. succeeds (h a)"
  shows "succeeds (bindE (ws_query A N (stmt E (\<lambda>d. (Inr (g d), d)))) h)"
  using assms by (simp add: smooth_def succeeds_def bindE_def ws_query_def ws_stmt_def mapErr_def stmt_def)

lemma smooth_send: "smooth E N \<Longrightarrow> succeeds (ws_send N v)"
  by (simp add: smooth_def succeeds_def ws_send_def mapErr_def socket_send_def)

lemma smooth_push_trades:
  assumes "smooth E N"
  shows "succeeds (push_trades N rows)"
proof (induction rows)
  case (Cons r rows)
  have "succeeds (bindE (ws_send N (trade_msg r)) (\<lambda>_. push_trades N rows))"
    by (intro succeeds_bindE smooth_send [OF assms] Cons)
  then show ?case by (simp add: succeeds_def)
qed (simp add: succeeds_def okE_def)

lemma smooth_push_ws_updates:
  assumes "smooth E N"
  shows "succeeds (push_ws_updates A E N utc)"
proof -
  note defs = get_bot_state_def latest_gas_def count_rows_def get_trade_count_def select_new_trades_def
  note intro = smooth_query [OF assms] smooth_send [OF assms] smooth_push_trades [OF assms] allI
  have "succeeds (bindE (ws_query A N (select_new_trades E i)) (push_trades N))" for i
    unfolding defs by (intro intro)
  then have trades: "succeeds (push_new_trades A E N)"
    by (simp add: succeeds_def push_new_trades_def)
  have "succeeds (push_gas A E N)" unfolding push_gas_def defs Let_def split_def by (intro intro)
  moreover have "succeeds (push_status A E N utc)"
    unfolding push_status_def defs by (intro intro succeeds_bindE)
  moreover have "succeeds (push_counts A E N)" unfolding push_counts_def defs by (intro intro)
  ultimately show ?thesis unfolding push_ws_updates_def by (intro succeeds_bindE trades)
qed

lemma delivered_start: "db_inv (ws_db s) \<Longrightarrow> ws_last s \<le> trades_seq (ws_db s) \<Longrightarrow>
    delivered (ws_last s) (sent_trades s) s"
  by (simp add: delivered_def trades_after_def filter_filter not_le)

lemma split_at_take:
  assumes "xs = ys @ zs" "length ys = length (take n xs)"
  shows "zs = drop n xs"
proof (cases "n \<le> length xs")
  case True
  then have "length ys = n" using assms(2) by simp
  then show ?thesis by (simp add: assms(1))
next
  case False
  then have "length ys = length xs" using assms(2) by simp
  then show ?thesis using False arg_cong [OF assms(1), of length] by simp
qed

lemma push_moves_on:
  assumes "others_ok L E N" "db_inv (ws_db s)" "ws_last s \<le> trades_seq (ws_db s)"
    "push_ws_updates A E N utc s = (Inr (), t)"
  shows "sent_trades t = sent_trades s @ trade_outs (take 50 (trades_after (ws_last s) (ws_db t)))"
    "trades_after (ws_last t) (ws_db t) = drop 50 (trades_after (ws_last s) (ws_db t))"
    "db_inv (ws_db t)" "ws_last t \<le> trades_seq (ws_db t)"
proof -
  let ?all = "trades_after (ws_last s) (ws_db t)" and ?up = "filter (\<lambda>r. t_id r \<le> ws_last t)"
  have "pushed (ws_last s) (sent_trades s) s (Inr ()) t"
    by (rule push_ws_updates_run [OF assms(1) delivered_start [OF assms(2,3)] assms(4)])
  then have t: "delivered (ws_last s) (sent_trades s) t" "sent_trades t = sent_trades s @ trade_outs (take 50 ?all)"
    by (simp_all add: pushed_def)
  then show "sent_trades t = sent_trades s @ trade_outs (take 50 ?all)"
    "db_inv (ws_db t)" "ws_last t \<le> trades_seq (ws_db t)" by (simp_all add: delivered_def)
  have split: "?all = ?up ?all @ trades_after (ws_last t) (ws_db t)"
    using t(1) by (intro trades_after_split) (simp_all add: delivered_def)
  have "trade_outs (?up ?all) = trade_outs (take 50 ?all)" using t by (simp add: delivered_def)
  from arg_cong [OF this, of length] have len: "length (?up ?all) = length (take 50 ?all)"
    by (simp only: trade_outs_def length_map)
  show "trades_after (ws_last t) (ws_db t) = drop 50 ?all" by (rule split_at_take [OF split len])
qed

section \<open>Properties\<close>

definition admitted :: "api_lib \<Rightarrow> ws_env \<Rightarrow> app_config \<Rightarrow> int \<Rightarrow> ws_received \<Rightarrow> bool" where
  "admitted A N c utc auth \<longleftrightarrow>
     (case auth of
        RecvOk (MText t) \<Rightarrow>
          (case we_parse_auth N t of
             None \<Rightarrow> False
           | Some msg \<Rightarrow> wm_type msg = ''auth'' \<and> jwt_decode A (app_jwt_secret c) utc (wm_token msg) \<noteq> None)
      | _ \<Rightarrow> False)"

lemma handle_ws_admitted:
  assumes "admitted A N c utc auth"
  shows "handle_ws A E N c utc auth evs s = ws_loop A E N evs (first_cursor E N (ignoring (socket_send N auth_ok) s))"
  using assms
  by (auto simp: admitted_def handle_ws_def decode_jwt_def Let_def
      split: ws_received.splits ws_message.splits option.splits)

lemma handle_ws_refused:
  assumes "\<not> admitted A N c utc auth"
  shows "\<exists>t. handle_ws A E N c utc auth evs s = (WsClosed, t) \<and> ws_db t = ws_db s \<and>
    ws_sent t \<in> {ws_sent s, ws_sent s @ [auth_fail]}"
  using assms
  by (auto simp: admitted_def handle_ws_def decode_jwt_def ignoring_def socket_send_def Let_def
      split: ws_received.splits ws_message.splits option.splits if_splits)

lemma first_cursor_fields:
  "ws_db (first_cursor E N s) = ws_db (snd (ws_stmt N (max_trade_id E) s))"
  "sent_trades (first_cursor E N s) = sent_trades s"
  by (auto simp: first_cursor_def ws_stmt_def sent_trades_def split: prod.splits sum.splits option.splits)

text \<open>
  C19: a connection whose first message within five seconds is not an \<open>auth\<close> message with an accepted
  token gets at most the refusal and is closed, whatever it sends later, and the database is not
  touched; an admitted one writes nothing but the running flag.
\<close>

theorem ws_needs_token:
  assumes "\<forall>n d. we_others N n d = d"
  shows "(\<not> admitted A N c utc auth \<longrightarrow>
      (\<exists>t. handle_ws A E N c utc auth evs s = (WsClosed, t) \<and> ws_db t = ws_db s \<and>
         ws_sent t \<in> {ws_sent s, ws_sent s @ [auth_fail]})) \<and>
    not_running (ws_db (snd (handle_ws A E N c utc auth evs s))) = not_running (ws_db s)"
proof (cases "admitted A N c utc auth")
  case True
  let ?s = "ignoring (socket_send N auth_ok) s"
  have "ws_db ?s = ws_db s" by (simp add: ignoring_def socket_send_def split: option.splits)
  moreover have "not_running (ws_db (first_cursor E N ?s)) = not_running (ws_db ?s)"
    using keeps_ws_stmt [of N, OF _ not_running_queries(6)] assms by (simp add: first_cursor_fields keeps_def)
  ultimately show ?thesis
    using True handle_ws_admitted [OF True, of E evs s] ws_loop_writes [of N A E evs "first_cursor E N ?s"] assms
    by simp
next
  case False
  then show ?thesis using handle_ws_refused [OF False, of E evs s] by auto
qed

definition ws_env_ref :: ws_env where
  "ws_env_ref = \<lparr>we_send = (\<lambda>n. None), we_others = (\<lambda>n d. d),
     we_parse_auth = (\<lambda>s. Some \<lparr>wm_type = ''auth'', wm_token = s\<rparr>),
     we_parse_command = (\<lambda>s. Some \<lparr>wc_type = s\<rparr>)\<rparr>"

definition ws_start :: ws_state where
  "ws_start = \<lparr>ws_db = snd (insert_trade alloy_ref sqlite_ref demo_trade migrated_database), ws_last = 0, ws_sent = [], ws_sends = 0, ws_stmts = 0\<rparr>"

theorem ws_needs_token_witness:
  "\<exists>t. handle_ws api_ref sqlite_ref ws_env_ref app_ref 0 (RecvOk (MText ''guess''))
      [EvMessage (MText ''start_bot''), EvTick 1] ws_start = (WsClosed, t) \<and> ws_db t = ws_db ws_start \<and>
     ws_sent t \<in> {[], [auth_fail]}"
proof -
  have "\<not> admitted api_ref ws_env_ref app_ref 0 (RecvOk (MText ''guess''))"
    by (simp add: admitted_def ws_env_ref_def api_ref_def untoken_ref_def)
  then show ?thesis
    using ws_needs_token [of ws_env_ref api_ref app_ref 0 "RecvOk (MText ''guess'')" sqlite_ref
        "[EvMessage (MText ''start_bot''), EvTick 1]" ws_start]
    by (simp add: ws_env_ref_def ws_start_def)
qed

lemma steps_stmt: "others_ok L E N \<Longrightarrow> is_step L E f \<Longrightarrow> preserves (\<lambda>s. (db_step L E)\<^sup>*\<^sup>* d (ws_db s)) (ws_stmt N f)"
  unfolding preserves_def by (metis (no_types, lifting) prod.collapse rtranclp_trans ws_stmt_steps)

lemma steps_send: "preserves (\<lambda>s. P (ws_db s)) (socket_send N m)"
  by (simp add: preserves_def socket_send_def split: option.splits)

lemma steps_push:
  assumes "others_ok L E N"
  shows "preserves (\<lambda>s. (db_step L E)\<^sup>*\<^sup>* d (ws_db s)) (push_ws_updates A E N utc)"
proof -
  have rows: "preserves (\<lambda>s. (db_step L E)\<^sup>*\<^sup>* d (ws_db s)) (push_trades N rows)" for rows
    using push_trades_run [of N rows] unfolding preserves_def by (metis prod.collapse)
  note intro = preserves_intros steps_stmt [OF assms] is_step_queries steps_send rows
  have "preserves (\<lambda>s. (db_step L E)\<^sup>*\<^sup>* d (ws_db s)) (bindE (ws_query A N (select_new_trades E i)) (push_trades N))" for i
    unfolding ws_query_def by (intro intro)
  then have "preserves (\<lambda>s. (db_step L E)\<^sup>*\<^sup>* d (ws_db s)) (push_new_trades A E N)"
    by (simp add: preserves_def push_new_trades_def)
  then show ?thesis
    unfolding push_ws_updates_def push_status_def push_gas_def push_counts_def ws_query_def ws_send_def
    by (intro intro)
qed

lemma ws_loop_steps:
  assumes "others_ok L E N"
  shows "(db_step L E)\<^sup>*\<^sup>* (ws_db s) (ws_db (snd (ws_loop A E N evs s)))"
  using assms
proof (induction A E N evs s rule: ws_loop.induct)
  case (2 A E N m evs s)
  have "(db_step L E)\<^sup>*\<^sup>* (ws_db s) (ws_db (run_command E N cmd s))" for cmd
    using steps_stmt [OF 2(3) is_step_set, of "ws_db s"] by (simp add: run_command_def ignoring_def preserves_def)
  then show ?case using 2 by (auto split: option.splits intro: rtranclp_trans)
next
  case (6 A E N utc evs s)
  obtain r u where r: "push_ws_updates A E N utc s = (r, u)" by fastforce
  have u: "(db_step L E)\<^sup>*\<^sup>* (ws_db s) (ws_db u)"
    using preservesD [OF steps_push [OF 6(2)] r, of "ws_db s"] by simp
  show ?case
  proof (cases r)
    case (Inr x)
    then show ?thesis using 6(1) [OF r [symmetric] Inr 6(2)] r u by (auto intro: rtranclp_trans)
  qed (use r u in simp)
qed simp_all

lemma admission_fields:
  "ws_db (ignoring (socket_send N auth_ok) s) = ws_db s"
  "sent_trades (ignoring (socket_send N auth_ok) s) = sent_trades s"
  by (simp_all add: ignoring_def socket_send_def sent_trades_def auth_ok_def split: option.splits)

lemma admission_steps:
  assumes "others_ok L E N"
  shows "(db_step L E)\<^sup>*\<^sup>* (ws_db s) (ws_db (first_cursor E N (ignoring (socket_send N auth_ok) s)))"
  using steps_stmt [OF assms is_step_queries(6), of "ws_db s"]
  by (simp add: first_cursor_fields admission_fields preserves_def)

text \<open>The cursor a connection starts with: the largest id, or zero.\<close>

lemma first_cursor_cases:
  assumes "first_cursor E N s = t"
  shows "ws_last t = (if trades (ws_db t) = [] then 0 else Max (t_id ` set (trades (ws_db t)))) \<or>
    ws_last t = 0 \<and> (\<exists>k. stmt_fault E k \<noteq> None)"
  using assms
  by (auto simp: first_cursor_def ws_stmt_def max_trade_id_def stmt_def split: prod.splits sum.splits option.splits if_splits)

lemma first_cursor_bounds:
  assumes "db_inv (ws_db t)" "first_cursor E N s = t"
  shows "0 \<le> ws_last t" "ws_last t \<le> trades_seq (ws_db t)"
    "\<forall>k. stmt_fault E k = None \<Longrightarrow> r \<in> set (trades (ws_db t)) \<Longrightarrow> t_id r \<le> ws_last t"
proof -
  have ids: "0 \<le> trades_seq (ws_db t)" "\<forall>r \<in> set (trades (ws_db t)). 1 \<le> t_id r \<and> t_id r \<le> trades_seq (ws_db t)"
    using assms(1) by (simp_all add: db_inv_def trades_ok_def trades_table.ids_ok_def)
  have "Max (t_id ` set (trades (ws_db t))) \<in> t_id ` set (trades (ws_db t))" if "trades (ws_db t) \<noteq> []"
    using that by (intro Max_in) simp_all
  then show "0 \<le> ws_last t" "ws_last t \<le> trades_seq (ws_db t)"
    using ids first_cursor_cases [OF assms(2)] by (fastforce split: if_splits)+
  show "t_id r \<le> ws_last t" if "\<forall>k. stmt_fault E k = None" "r \<in> set (trades (ws_db t))"
    using first_cursor_cases [OF assms(2)] that by auto
qed

lemma admission_delivered:
  assumes "others_ok L E N" "db_inv (ws_db s)"
  defines "s0 \<equiv> first_cursor E N (ignoring (socket_send N auth_ok) s)"
  shows "delivered (ws_last s0) (sent_trades s) s0"
proof -
  have inv: "db_inv (ws_db s0)" using db_steps_inv [OF admission_steps [OF assms(1)] assms(2)] by (simp add: s0_def)
  have "sent_trades s0 = sent_trades s" by (simp add: s0_def first_cursor_fields admission_fields)
  then show ?thesis
    using delivered_start [OF inv] first_cursor_bounds(2) [OF inv] by (simp add: s0_def)
qed

lemma admission_cursor:
  assumes "others_ok L E N" "db_inv (ws_db s)"
  defines "s0 \<equiv> first_cursor E N (ignoring (socket_send N auth_ok) s)"
  shows "ws_last s0 \<le> trades_seq (ws_db s0)"
    "\<forall>k. stmt_fault E k = None \<Longrightarrow> r \<in> set (trades (ws_db s0)) \<Longrightarrow> t_id r \<le> ws_last s0"
proof -
  have inv: "db_inv (ws_db s0)" using db_steps_inv [OF admission_steps [OF assms(1)] assms(2)] by (simp add: s0_def)
  show "ws_last s0 \<le> trades_seq (ws_db s0)"
    "\<forall>k. stmt_fault E k = None \<Longrightarrow> r \<in> set (trades (ws_db s0)) \<Longrightarrow> t_id r \<le> ws_last s0"
    using first_cursor_bounds(2,3) [OF inv s0_def [symmetric, THEN meta_eq_to_obj_eq]] by simp_all
qed

lemma trades_after_grows:
  assumes "grows d d'" "i \<le> trades_seq d" "\<forall>r \<in> set (trades d). t_id r \<le> i"
  shows "trades d' = trades d @ trades_after i d'"
proof -
  obtain new where new: "trades d' = trades d @ new" "\<forall>r \<in> set new. trades_seq d < t_id r"
    using assms(1) by (auto simp: grows_def)
  have "filter (\<lambda>r. i < t_id r) (trades d) = []" using assms(3) by (auto simp: filter_empty_conv)
  moreover have "filter (\<lambda>r. i < t_id r) new = new" using new(2) assms(2) by (auto simp: filter_id_conv)
  ultimately show ?thesis by (simp add: trades_after_def new(1))
qed


lemma others_ok_ref: "others_ok L E ws_env_ref"
  by (simp add: others_ok_def ws_env_ref_def)

lemma ws_start_db: "db_inv (ws_db ws_start)" "map t_id (trades (ws_db ws_start)) = [1]" "0 \<le> trades_seq (ws_db ws_start)"
proof -
  obtain d where d: "insert_trade alloy_ref sqlite_ref demo_trade migrated_database = (Inr 1, d)"
    using demo_trade_inserted by blast
  have db: "ws_db ws_start = d" by (simp add: ws_start_def d)
  show "db_inv (ws_db ws_start)"
    unfolding db by (rule db_step_inv [OF db_step.step_trade [OF d] db_inv_migrated])
  show "map t_id (trades (ws_db ws_start)) = [1]" "0 \<le> trades_seq (ws_db ws_start)"
    unfolding db using d
    by (cases rule: insert_trade_cases; simp add: add_trade_def row_of_trade_def migrated_database_def)+
qed

lemma admitted_ref: "admitted api_ref ws_env_ref app_ref 0 (RecvOk (MText ''alice.1.3600''))"
proof -
  have "token_ref \<lparr>cl_sub = ''alice'', cl_uid = 1, cl_exp = 3600\<rparr> = ''alice.1.3600''"
    by (simp add: token_ref_def join_with_def dec_string.simps digit_char_def char_of_def bit_0)
  moreover have "encodable \<lparr>cl_sub = ''alice'', cl_uid = 1, cl_exp = 3600\<rparr>"
    by (simp add: encodable_def token_char_def)
  ultimately have "untoken_ref ''alice.1.3600'' = Some \<lparr>cl_sub = ''alice'', cl_uid = 1, cl_exp = 3600\<rparr>"
    using untoken_token(1) by metis
  then show ?thesis by (simp add: admitted_def ws_env_ref_def api_ref_def)
qed


text \<open>With the other tasks idle, neither commands nor ticks touch the trades.\<close>

definition idle :: "ws_env \<Rightarrow> bool" where
  "idle N \<longleftrightarrow> (\<forall>n d. we_others N n d = d)"

lemma idle_others_ok: "idle N \<Longrightarrow> others_ok L E N"
  by (simp add: idle_def others_ok_def)

lemma idle_command:
  assumes "idle N"
  shows "trades (ws_db (run_command E N cmd s)) = trades (ws_db s)"
    "trades_seq (ws_db (run_command E N cmd s)) = trades_seq (ws_db s)"
    "ws_last (run_command E N cmd s) = ws_last s" "sent_trades (run_command E N cmd s) = sent_trades s"
    "db_inv (ws_db s) \<Longrightarrow> db_inv (ws_db (run_command E N cmd s))"
proof -
  show "trades (ws_db (run_command E N cmd s)) = trades (ws_db s)"
    "trades_seq (ws_db (run_command E N cmd s)) = trades_seq (ws_db s)"
    "ws_last (run_command E N cmd s) = ws_last s" "sent_trades (run_command E N cmd s) = sent_trades s"
    using assms
    by (auto simp: run_command_def ignoring_def ws_stmt_def set_bot_state_def stmt_def put_state_def idle_def
        sent_trades_def split: prod.splits option.splits)
  have "(db_step alloy_ref E)\<^sup>*\<^sup>* (ws_db s) (ws_db (run_command E N cmd s))"
    using steps_stmt [OF idle_others_ok [OF assms, of alloy_ref E] is_step_set]
    by (simp add: run_command_def ignoring_def preserves_def)
  then show "db_inv (ws_db s) \<Longrightarrow> db_inv (ws_db (run_command E N cmd s))" by (rule db_steps_inv)
qed

lemma idle_push:
  assumes "idle N" "push_ws_updates A E N utc s = (r, t)"
  shows "trades (ws_db t) = trades (ws_db s)"
proof -
  have "not_running (ws_db t) = not_running (ws_db s)"
    using assms keepsD [OF keeps_push_ws_updates assms(2)] by (simp add: idle_def)
  then show ?thesis by (simp add: not_running_def)
qed

definition ticks :: "ws_event list \<Rightarrow> nat" where
  "ticks evs = length (filter (\<lambda>ev. \<exists>utc. ev = EvTick utc) evs)"

lemma ticks_simps [simp]:
  "ticks [] = 0" "ticks (EvTick utc # evs) = Suc (ticks evs)"
  "ticks (EvMessage m # evs) = ticks evs" "ticks (EvNoMessage # evs) = ticks evs"
  by (simp_all add: ticks_def)

text \<open>
  C39: when no statement and no send fails and nobody writes trades meanwhile, a connection catches up
  fifty trades a tick: after \<open>n\<close> ticks it has sent the first \<open>50 n\<close> of the trades behind its cursor, and
  it goes on until the client closes.
\<close>

theorem ws_catches_up:
  assumes "smooth E N" "idle N" "db_inv (ws_db s)" "ws_last s \<le> trades_seq (ws_db s)"
    "EvMessage MClose \<notin> set evs"
  shows "\<exists>t. ws_loop A E N evs s = (WsRunning, t) \<and> trades (ws_db t) = trades (ws_db s) \<and>
    sent_trades t = sent_trades s @ trade_outs (take (50 * ticks evs) (trades_after (ws_last s) (ws_db s)))"
  using assms
proof (induction A E N evs s rule: ws_loop.induct)
  case (2 A E N m evs s)
  then show ?case
    by (cases "we_parse_command N m") (simp_all add: idle_command trades_after_def)
next
  case (6 A E N utc evs s)
  obtain u where u: "push_ws_updates A E N utc s = (Inr (), u)"
    using smooth_push_ws_updates [OF 6(2), of A utc] unfolding succeeds_def by (metis prod.collapse)
  note on = push_moves_on [OF idle_others_ok [OF 6(3)] 6(4,5) u]
  have same: "trades (ws_db u) = trades (ws_db s)" by (rule idle_push [OF 6(3) u])
  obtain t where t: "ws_loop A E N evs u = (WsRunning, t)" "trades (ws_db t) = trades (ws_db u)"
    "sent_trades t = sent_trades u @ trade_outs (take (50 * ticks evs) (trades_after (ws_last u) (ws_db u)))"
    using 6(1) [OF u [symmetric] refl 6(2,3) on(3,4)] 6(6) by auto
  have "take (50 + 50 * ticks evs) xs = take 50 xs @ take (50 * ticks evs) (drop 50 xs)" for xs :: "trade_row list"
    by (rule take_add)
  then show ?case using u t on(1,2) same by (simp add: trades_after_def)
qed auto

theorem ws_catches_up_witness:
  "\<exists>t r. ws_loop api_ref sqlite_ref ws_env_ref [EvTick 1, EvNoMessage, EvTick 2] ws_start = (WsRunning, t) \<and>
    sent_trades t = [OutJson (trade_msg r)] \<and> t_id r = 1 \<and> trades (ws_db t) = [r]"
proof -
  have "smooth sqlite_ref ws_env_ref" "idle ws_env_ref" by (simp_all add: smooth_def idle_def ws_env_ref_def)
  moreover have start: "ws_last ws_start = 0" "sent_trades ws_start = []" by (simp_all add: ws_start_def sent_trades_def)
  moreover obtain r where r: "trades (ws_db ws_start) = [r]" "t_id r = 1" using ws_start_db(2) by auto
  ultimately show ?thesis
    using ws_catches_up [of sqlite_ref ws_env_ref ws_start "[EvTick 1, EvNoMessage, EvTick 2]" api_ref] ws_start_db(1,3)
    by (auto simp: trades_after_def)
qed

end
