(* ===== verification/System.thy ===== *)
theory System
  imports Wiring Gas_Sampler Api_Ws
begin

text \<open>
  The tasks of the program on their shared database: a wake-up of the scanner, a block of the gas
  sampler, a request to the server, a command or a tick of a WebSocket, and a start of the program on the
  database an earlier run left, also one that fails after it recorded its settings. Each is a sequence of the
  database operations, so whatever the tasks do in whatever order keeps what the operations keep.
\<close>

section \<open>Turns of the tasks\<close>

inductive turn :: "alloy \<Rightarrow> sqlite \<Rightarrow> database \<Rightarrow> database \<Rightarrow> bool" for L E where
  turn_startup: "record_settings E disp c addrs d = (r, d') \<Longrightarrow> turn L E d d'"
| turn_scanner: "scan_once chk L K E N S cfg wk v w = Some (r, w') \<Longrightarrow> wk_others wk (w_db w) = w_db w \<Longrightarrow>
    turn L E (w_db w) (w_db w')"
| turn_sampler: "sample_block E hp (orc, d) = (r, orc', d') \<Longrightarrow> turn L E d d'"
| turn_request: "serve chk L A E W c rq s = (resp, s') \<Longrightarrow> turn L E (as_db s) (as_db s')"
| turn_command: "idle M \<Longrightarrow> turn L E (ws_db s) (ws_db (run_command E M cmd s))"
| turn_tick: "idle M \<Longrightarrow> push_ws_updates A E M utc s = (r, s') \<Longrightarrow> turn L E (ws_db s) (ws_db s')"

definition system_reachable :: "alloy \<Rightarrow> sqlite \<Rightarrow> database \<Rightarrow> bool" where
  "system_reachable L E d \<longleftrightarrow> (turn L E)\<^sup>*\<^sup>* migrated_database d"

section \<open>Each turn is a sequence of database operations\<close>

lemma is_step_okE: "is_step L E (okE a)"
  by (simp add: is_step_def okE_def)

lemma is_step_bindE:
  assumes "is_step L E m" "\<And>a. is_step L E (g a)"
  shows "is_step L E (bindE m g)"
  unfolding is_step_def
proof
  fix d
  obtain r d' where r: "m d = (r, d')" by fastforce
  then have step: "(db_step L E)\<^sup>*\<^sup>* d d'" using assms(1) unfolding is_step_def by (metis snd_conv)
  show "(db_step L E)\<^sup>*\<^sup>* d (snd (bindE m g d))"
  proof (cases r)
    case (Inr a)
    have "(db_step L E)\<^sup>*\<^sup>* d' (snd (g a d'))" using assms(2) by (simp add: is_step_def)
    then show ?thesis using step r Inr by (simp add: bindE_def)
  qed (use r step in \<open>simp add: bindE_def\<close>)
qed

lemma is_step_split: "(\<And>a b. is_step L E (g a b)) \<Longrightarrow> is_step L E (case p of (a, b) \<Rightarrow> g a b)"
  by (cases p) simp

lemma is_step_pnl: "is_step L E (get_pnl_summary E)"
  unfolding get_pnl_summary_def Let_def by (intro is_step_bindE is_step_read is_step_okE is_step_split)

lemma is_step_writes:
  "is_step L E (insert_user E name hash)" "is_step L E (insert_gas_sample E block base priority)"
  unfolding is_step_def by (metis db_step.step_user db_step.step_gas prod.collapse r_into_rtranclp)+

lemma is_step_reads:
  "is_step L E (get_user_by_username E name)" "is_step L E (get_user_count E)"
  "is_step L E (sum_gas_cost E P)" "is_step L E (select_trades E limit offset)"
  unfolding get_user_by_username_def get_user_count_def sum_gas_cost_def select_trades_def
  by (rule is_step_read)+

lemmas is_steps = is_step_queries is_step_set is_step_pnl is_step_writes is_step_reads

text \<open>An operation on a state that holds the database moves it by database operations.\<close>

abbreviation moves :: "alloy \<Rightarrow> sqlite \<Rightarrow> ('s \<Rightarrow> database) \<Rightarrow> database \<Rightarrow> 's \<Rightarrow> bool" where
  "moves L E db d s \<equiv> (db_step L E)\<^sup>*\<^sup>* d (db s)"

lemma keeps_preserves: "keeps f m \<Longrightarrow> preserves (\<lambda>s. P (f s)) m"
  by (simp add: keeps_def preserves_def)

lemma moves_run_db: "is_step L E f \<Longrightarrow> preserves (moves L E as_db d) (run_db f)"
  by (auto simp: preserves_def run_db_def is_step_def split: prod.splits) (metis rtranclp_trans snd_conv)

lemma moves_limiter: "preserves (moves L E as_db d) (enforce_login_rate_limit now ip)"
  by (simp add: preserves_def enforce_login_rate_limit_def Let_def)

lemma moves_issue_jwt: "preserves (moves L E as_db d) (issue_jwt chk A c utc uid name)"
  using keeps_issue_jwt by (rule keeps_preserves)

lemma moves_fail_with: "preserves P (fail_with e)"
  by (simp add: fail_with_def preserves_errE)

lemma moves_node_answer: "preserves P (node_answer r)"
  by (cases r) (simp_all add: node_answer_def moves_fail_with preserves_okE)

lemma moves_handler: "preserves (moves L E as_db d) (handler chk L' A E W c ep rq)"
proof -
  note defs = handler_def index_file_def style_file_def app_js_file_def serve_file_def ws_handler_def auth_login_def
    auth_register_def register_check_def register_insert_def bot_start_def bot_stop_def bot_status_def
    stats_pnl_def stats_gas_def stats_opportunities_def wallet_balance_def trades_list_def query_def
  show ?thesis
    by (cases ep; simp only: defs endpoint.case Let_def;
        intro preserves_intros moves_run_db is_steps moves_limiter moves_issue_jwt moves_fail_with moves_node_answer)
qed

lemma moves_serve: "(db_step L E)\<^sup>*\<^sup>* (as_db s) (as_db (snd (serve chk L' A E W c rq s)))"
proof (cases "route (req_path rq) (req_method rq)")
  case (Some ep)
  have "(db_step L E)\<^sup>*\<^sup>* (as_db s) (as_db (snd (handler chk L' A E W c ep rq s)))"
    using moves_handler [of L E "as_db s"] by (simp add: preserves_def)
  then show ?thesis using respond_state [of chk L' A E W c ep rq s] Some by (auto simp: serve_def)
qed (simp add: serve_def)

lemma moves_sampler: "is_step L E f \<Longrightarrow> preserves (moves L E snd d) (on_sampler_db f)"
  by (auto simp: preserves_def on_sampler_db_def is_step_def split: prod.splits) (metis rtranclp_trans snd_conv)

lemma moves_sample_block: "preserves (moves L E snd d) (sample_block E hp)"
proof -
  have feed: "preserves (moves L E snd d) (feed_oracle b p :: (sampler_state, gas_sampler_error, unit) io)" for b p
    by (simp add: preserves_def feed_oracle_def)
  show ?thesis
    unfolding sample_block_def Let_def
    by (cases "snd hp") (auto intro!: preserves_intros moves_sampler is_steps feed)
qed

lemma turn_steps:
  assumes "turn L E d d'"
  shows "db_reachable L E d \<Longrightarrow> db_reachable L E d'"
  using assms
proof (induction rule: turn.induct)
  case (turn_startup disp c addrs d r d')
  have "is_step L E (record_settings E disp c addrs)"
    unfolding record_settings_def by (intro is_step_bindE is_steps)
  then have "(db_step L E)\<^sup>*\<^sup>* d d'" using turn_startup(1) unfolding is_step_def by (metis snd_conv)
  then show ?case using turn_startup(2) unfolding db_reachable_def by (rule rtranclp_trans [rotated])
next
  case (turn_scanner chk K N S cfg wk v w r w')
  then show ?case using reach.scan_once_inv [OF turn_scanner(1) refl] by simp
next
  case (turn_sampler hp orc d r orc' d')
  have "(db_step L E)\<^sup>*\<^sup>* d d'"
    using preservesD [OF moves_sample_block turn_sampler(1), of L d] by simp
  then show ?case using turn_sampler(2) unfolding db_reachable_def by (rule rtranclp_trans [rotated])
next
  case (turn_request chk A W c rq s resp s')
  have "(db_step L E)\<^sup>*\<^sup>* (as_db s) (as_db s')"
    using moves_serve [of L E s chk L A W c rq] turn_request(1) by simp
  then show ?case using turn_request(2) unfolding db_reachable_def by (rule rtranclp_trans [rotated])
next
  case (turn_command M s cmd)
  have "(db_step L E)\<^sup>*\<^sup>* (ws_db s) (ws_db (run_command E M cmd s))"
    using steps_stmt [OF idle_others_ok [OF turn_command(1)] is_step_set, of L E]
    by (simp add: run_command_def ignoring_def preserves_def)
  then show ?case using turn_command(2) unfolding db_reachable_def by (rule rtranclp_trans [rotated])
next
  case (turn_tick M A utc s r s')
  have "(db_step L E)\<^sup>*\<^sup>* (ws_db s) (ws_db s')"
    using preservesD [OF steps_push [OF idle_others_ok [OF turn_tick(1)]] turn_tick(2), of L "ws_db s"] by simp
  then show ?case using turn_tick(3) unfolding db_reachable_def by (rule rtranclp_trans [rotated])
qed

text \<open>What a successful start-up hands to the tasks is the database after its first turn.\<close>

lemma startup_turn:
  assumes "startup L K E B args = Inr sys" "bt_connect_db B (sqlite_url (db_path (cfg_database (sys_config sys)))) = Inr d"
    "bt_migrate B d = Inr d" "system_reachable L E d"
  shows "system_reachable L E (sys_db sys) \<and> as_db (sys_api sys) = sys_db sys"
  using assms(1)
proof (cases rule: startup_parts)
  case (1 path d0 d1 sgn ps ex)
  then have "turn L E d (sys_db sys)" using assms(2,3) turn_startup by fastforce
  then show ?thesis using assms(4) 1(13) unfolding system_reachable_def by (auto intro: rtranclp.rtrancl_into_rtrancl)
qed

lemma system_reachable_db: "system_reachable L E d \<Longrightarrow> db_reachable L E d"
  unfolding system_reachable_def
proof (induction rule: rtranclp_induct)
  case base
  show ?case by (simp add: db_reachable_def)
qed (rule turn_steps)

section \<open>Properties\<close>





end
