(* ===== verification/Spec2Isabelle.thy ===== *)
theory Spec2Isabelle
  imports Amm Pool_Store Gas_Oracle Gas_Sampler Profit_Sim Database Executor Scanner Arb_Bot Unit_Checks Config Wiring Api_Ws System
begin

text \<open>
  Verification of Zelvex, a two-pool arbitrage bot for Uniswap-V2 style pools.

  \<^bold>\<open>The program.\<close> A start-up (\<^verbatim>\<open>zelvex-bin\<close>) reads a configuration, opens an SQLite database and starts
  tasks that share a pool store, a gas oracle and the database: a subscription that applies Sync events
  to the store, a sampler that feeds gas prices to the oracle and the database, a scanner that on every
  update looks for a profitable round trip through two pools, decides, executes and records it, and an
  HTTP server with a REST interface and a WebSocket. A contract of its own trades on chain: it borrows
  from Aave, swaps through the two pools and keeps the profit.

  \<^bold>\<open>The theories\<close>, in import order, with the sources they model:
  \<^item> \<open>Zelvex_Prelude\<close>: machine integers, panics and errors as values (\<open>outcome\<close>, \<open>io\<close>, \<open>bindE\<close>), the two
    calculi \<open>keeps\<close> (what an operation leaves alone) and \<open>preserves\<close> (what it keeps true), decimal text.
  \<^item> \<open>F64\<close>: binary64 with correct rounding; every operation is executable and related to the reals.
  \<^item> \<open>Zelvex_Types\<close>: \<^verbatim>\<open>zelvex-types/src/lib.rs\<close>. \<open>Alloy_Lib\<close>: the functions of alloy-primitives, as an
    argument with their documented behaviour as named hypotheses.
  \<^item> \<open>Amm\<close>: \<^verbatim>\<open>zelvex-core/src/amm.rs\<close> on 256-bit words, and \<^verbatim>\<open>_getAmountOut\<close> of the contract.
  \<^item> \<open>Arb_Contract\<close>: \<^verbatim>\<open>contracts/ZelvexArb.sol\<close>, every function, as calls that revert or return.
    \<open>Arb_Market\<close>: what tokens, pairs and Aave do when called with enough funds, and the run of the
    contract on them. \<open>Arb_Bot\<close>: the properties of the contract and of scanner and contract together, and
    the reference market of their witnesses.
  \<^item> \<open>Retry\<close>, \<open>Pool_Store\<close>: \<^verbatim>\<open>sync.rs\<close>, \<^verbatim>\<open>sync_subscriber.rs\<close>, \<^verbatim>\<open>node.rs\<close>; the retry loop they share
    with the sampler.
  \<^item> \<open>Gas_Oracle\<close>, \<open>Gas_Sampler\<close>: \<^verbatim>\<open>zelvex-gas/src/lib.rs\<close>.
  \<^item> \<open>Profit_Sim\<close>: \<^verbatim>\<open>zelvex-sim\<close>, the decision and the backtest.
  \<^item> \<open>Database\<close>: \<^verbatim>\<open>zelvex-db/src/lib.rs\<close> and the schema of its migrations; tables as lists of rows,
    one operation per query helper.
  \<^item> \<open>Executor\<close>: \<^verbatim>\<open>zelvex-exec\<close>: keys, calldata, relay requests, inclusion, \<open>execute\<close>.
  \<^item> \<open>Scanner\<close>: \<^verbatim>\<open>zelvex-core/src/scanner.rs\<close>. \<open>Config\<close>: \<^verbatim>\<open>zelvex-config/src/lib.rs\<close>.
    \<open>Wiring\<close>: \<^verbatim>\<open>zelvex-bin/src/main.rs\<close>.
  \<^item> \<open>Api\<close>: the handlers of \<^verbatim>\<open>zelvex-api/src/lib.rs\<close> and its routes; \<open>Api_Auth\<close>, \<open>Api_Views\<close>: what they
    guarantee; \<open>Api_Ws\<close>: its WebSocket.
  \<^item> \<open>Unit_Checks\<close>: the unit tests of the crates as definitions, and that they pass.
  \<^item> \<open>System\<close>: the turns all tasks take on the shared database. This theory: the scanner against the
    backtest, and a whole run of the scanner.

  \<^bold>\<open>What is shown.\<close> Pricing: the quote is the exact constant-product quote rounded down, monotone, equal to
  the contract's, and a profit needs a price gap above the fees. Store: a stream of logs leaves the last
  Sync event per known pool. Gas: the oracle holds the last hundred samples, the recommended fee has its
  rank. Decision: a go has its net profit above the threshold, and the decision is monotone in profit and
  gas. Execution: paper mode never submits a bundle, every execution leaves exactly one trade or an
  error, polling for inclusion ends when the chain goes on. Database: the schema's constraints hold in
  every reachable state and rows read back as written. Scanner: what it reports is profitable, each
  opportunity is recorded once with its decision, and its rows all match in a backtest. The unit tests of
  the repository hold of the model. All tasks
  together, in any order of their turns, keep the schema and the types of the columns. Contract: a call that goes through is the
  owner's and earns the requested profit, over any sequence of transactions no token is lost, and an
  opportunity of the scanner goes through exactly when its profit covers the premium and the floor; the
  bot's figures leave the premium out (\<open>premium_not_counted\<close>). Configuration and start-up: overrides,
  pairs, and the agreement of the parts. Server: no effect without an accepted token, at most five logins a minute per address, one account for
  sequential registrations and two for interleaved ones, tokens open the guard until they expire, exact
  balances, complete pages, and a WebSocket that sends every new trade once and in order.

  \<^bold>\<open>Interfaces.\<close> Locales state what a client relies on: \<open>text_codec\<close> (print and parse), \<open>auto_table\<close> and
  \<open>upsert_table\<close> (the tables), \<open>scan_invariant\<close> (what a run of the scanner keeps), \<open>config_field\<close> (one
  overridable setting); each is interpreted on the definitions of the model.

  \<^bold>\<open>Choices.\<close> Code outside the repository (alloy, sqlx and SQLite, the node and the relay, cryptography,
  jsonwebtoken, argon2, serde, TOML, the file system, clocks) is an argument of the definitions, and what
  is assumed of it is a named hypothesis with a concrete instance (\<open>alloy_ref\<close>, \<open>sqlite_ref\<close>, \<open>eth_ref\<close>,
  \<open>node_ref\<close>, \<open>api_ref\<close>). SQLite may fail at any statement. Integer overflow panics or wraps according to
  the argument \<open>chk\<close> (the build profile). The retry loops end after ten sessions by their own counter;
  polling for inclusion is a partial function whose result is shown to exist; the scanner and the
  WebSocket run over a list of the events that wake them. Other tasks act on the database between
  wake-ups of the scanner (\<open>wk_others\<close>) and between any two statements of a WebSocket (\<open>we_others\<close>).

  \<^bold>\<open>Not modelled.\<close> The browser dashboard; gas, allowances and reentrancy on chain beyond the laws named in
  \<open>Arb_Contract\<close> and \<open>Arb_Market\<close>; spawning tasks, HTTP
  framing and request extraction; log filters and tracing; text with NUL bytes in SQLite columns.
\<close>

section \<open>The scanner and the backtest\<close>

lemma agreeing_rows_backtest:
  assumes "rows_agree m d" "get_opportunities_for_backtest E limit offset d = (Inr rows, d')"
  shows "\<forall>r \<in> set rows. row_matches m r"
proof -
  have "set rows \<subseteq> record_of_opportunity ` set (opportunities d)"
    using assms(2)
    by (auto simp: get_opportunities_for_backtest_def stmt_def dest!: in_set_takeD in_set_dropD split: option.splits)
  then show ?thesis using assms(1) by (auto simp: rows_agree_def)
qed

lemma run_backtest_all_match:
  assumes "\<forall>r \<in> set rows. row_matches m r"
  shows "matched (run_backtest rows m) = length rows \<and> mismatched (run_backtest rows m) = 0 \<and>
    mismatches (run_backtest rows m) = []"
  using assms by (simp add: run_backtest_def backtest_fold backtest_init_def Let_def filter_id_conv)

text \<open>
  C12: when a run of the scanner starts on a database without opportunities and the other tasks record
  none, every page of the recorded opportunities passes a backtest at the scanner's own threshold: the
  decision recomputed from the stored figures is the recorded one for every row, in spite of what
  SQLite does to NaN and negative zero.
\<close>

theorem scanner_rows_pass_backtest:
  assumes "run_scanner chk L K E N S cfg start wks w = Some (r, w')" "opportunities (w_db w) = []"
    "\<And>wk d. wk \<in> set wks \<Longrightarrow> opportunities (wk_others wk d) = opportunities d"
    "get_opportunities_for_backtest E limit offset (w_db w') = (Inr rows, d')"
  shows "matched (run_backtest rows (min_profit_usd cfg)) = length rows \<and>
     mismatched (run_backtest rows (min_profit_usd cfg)) = 0 \<and> mismatches (run_backtest rows (min_profit_usd cfg)) = []"
proof -
  have "rows_agree (min_profit_usd cfg) (w_db w')"
    by (rule agree.run_scanner_inv [OF assms(1) refl]) (simp_all add: rows_agree_def assms(2,3))
  from agreeing_rows_backtest [OF this assms(4)] show ?thesis by (rule run_backtest_all_match)
qed

lemma scanner_ref_runs:
  "\<exists>r w'. run_scanner True alloy_ref eth_ref sqlite_ref node_ref feed_ref scanner_ref 0 [wakeup_ref] world_ref = Some (r, w')"
  by (rule run_scanner_paper) (simp add: paper_config_def scanner_ref_def executor_ref_def)

lemma world_ref_db: "opportunities (w_db world_ref) = []" "db_reachable alloy_ref sqlite_ref (w_db world_ref)"
  by (simp_all add: world_ref_def migrated_database_def db_reachable_def)

theorem scanner_rows_pass_backtest_witness:
  "\<exists>r w' rows d'.
     run_scanner True alloy_ref eth_ref sqlite_ref node_ref feed_ref scanner_ref 0 [wakeup_ref] world_ref = Some (r, w') \<and>
     get_opportunities_for_backtest sqlite_ref 100 0 (w_db w') = (Inr rows, d') \<and>
     matched (run_backtest rows (min_profit_usd scanner_ref)) = length rows \<and>
     mismatched (run_backtest rows (min_profit_usd scanner_ref)) = 0"
proof -
  obtain r w' where run: "run_scanner True alloy_ref eth_ref sqlite_ref node_ref feed_ref scanner_ref 0 [wakeup_ref] world_ref
      = Some (r, w')" using scanner_ref_runs by blast
  have others: "opportunities (wk_others wk d) = opportunities d" if "wk \<in> set [wakeup_ref]" for wk d
    using that by (simp add: wakeup_ref_def)
  obtain rows d' where rows: "get_opportunities_for_backtest sqlite_ref 100 0 (w_db w') = (Inr rows, d')"
    by (simp add: get_opportunities_for_backtest_def stmt_def)
  from scanner_rows_pass_backtest [OF run world_ref_db(1) others rows] run rows show ?thesis by blast
qed

text \<open>
  A whole run of the scanner, with executions, from a reachable database leaves a reachable one if
  the other tasks do: ids and transaction hashes stay distinct and every trade an opportunity refers
  to exists.
\<close>

theorem scanner_keeps_schema:
  assumes "run_scanner chk L K E N S cfg start wks w = Some (r, w')" "db_reachable L E (w_db w)"
    "\<And>wk d. wk \<in> set wks \<Longrightarrow> db_reachable L E d \<Longrightarrow> db_reachable L E (wk_others wk d)"
  shows "db_reachable L E (w_db w') \<and> distinct (map t_tx_hash (trades (w_db w'))) \<and>
     distinct (map o_id (opportunities (w_db w'))) \<and>
     (\<forall>o1 \<in> set (opportunities (w_db w')). \<forall>t. o_trade_id o1 = Some t \<longrightarrow> t \<in> t_id ` set (trades (w_db w')))"
proof -
  have reach: "db_reachable L E (w_db w')"
    by (rule reach.run_scanner_inv [OF assms(1) refl assms(2)]) (rule assms(3))
  have "trades_ok (w_db w')" "opportunities_ok (w_db w')"
    using db_reachable_inv [OF reach] by (simp_all add: db_inv_def)
  then show ?thesis
    using reach opportunities_table.ids_ok_distinct by (auto simp: trades_ok_def opportunities_ok_def)
qed

theorem scanner_keeps_schema_witness:
  "\<exists>r w'. run_scanner True alloy_ref eth_ref sqlite_ref node_ref feed_ref scanner_ref 0 [wakeup_ref] world_ref = Some (r, w') \<and>
     db_reachable alloy_ref sqlite_ref (w_db w') \<and> distinct (map t_tx_hash (trades (w_db w')))"
proof -
  obtain r w' where run: "run_scanner True alloy_ref eth_ref sqlite_ref node_ref feed_ref scanner_ref 0 [wakeup_ref] world_ref
      = Some (r, w')" using scanner_ref_runs by blast
  have others: "db_reachable alloy_ref sqlite_ref (wk_others wk d)" if "wk \<in> set [wakeup_ref]" "db_reachable alloy_ref sqlite_ref d" for wk d
    using that by (simp add: wakeup_ref_def)
  from scanner_keeps_schema [OF run world_ref_db(2) others] run show ?thesis by blast
qed

end
